(* ===== verification/Prelude.thy ===== *)
theory Prelude
  imports Main "HOL-Library.Word" "HOL-Library.Multiset"
begin

text \<open>
  Shared vocabulary of the development: the C integer types the modules use and their
  wrap-around, the error numbers, callbacks, the collections of rewrite rules the component
  theories extend, and a few facts about lists that several components need.

  An \<open>int\<close> of the source is a HOL \<open>int\<close>, and every operation that can leave the 32-bit range
  is followed by \<open>to_s32\<close>: the kernel is built with \<open>-fno-strict-overflow\<close>, so signed
  arithmetic wraps. An \<open>unsigned int\<close> whose wrap-around matters is a \<open>32 word\<close>. A pointer
  that may be NULL is an \<open>option\<close>.
\<close>

section \<open>Collections of rewrite rules\<close>

named_theorems ledger_simps
named_theorems cstr_simps
named_theorems hook_defs

section \<open>C integers\<close>

type_synonym u32 = "32 word"
type_synonym u64 = "64 word"

text \<open>A callback slot holds NULL or the address of a function.\<close>

type_synonym hook = "nat option"

abbreviation INT_MIN :: int where "INT_MIN \<equiv> - 2147483648"
abbreviation INT_MAX :: int where "INT_MAX \<equiv> 2147483647"
abbreviation LONG_MIN :: int where "LONG_MIN \<equiv> - 9223372036854775808"
abbreviation LONG_MAX :: int where "LONG_MAX \<equiv> 9223372036854775807"

definition to_s32 :: "int \<Rightarrow> int" where
  "to_s32 x = (x + 2147483648) mod 4294967296 - 2147483648"

definition to_s64 :: "int \<Rightarrow> int" where
  "to_s64 x = (x + 9223372036854775808) mod 18446744073709551616 - 9223372036854775808"

definition is_s32 :: "int \<Rightarrow> bool" where
  "is_s32 x \<longleftrightarrow> INT_MIN \<le> x \<and> x \<le> INT_MAX"

definition is_s64 :: "int \<Rightarrow> bool" where
  "is_s64 x \<longleftrightarrow> LONG_MIN \<le> x \<and> x \<le> LONG_MAX"

text \<open>The error numbers of \<open>asm-generic/errno\<close> the modules return, negated by their users.\<close>

abbreviation ENOENT :: int where "ENOENT \<equiv> 2"
abbreviation ESRCH :: int where "ESRCH \<equiv> 3"
abbreviation EIO :: int where "EIO \<equiv> 5"
abbreviation ENOEXEC :: int where "ENOEXEC \<equiv> 8"
abbreviation EAGAIN :: int where "EAGAIN \<equiv> 11"
abbreviation ENOMEM :: int where "ENOMEM \<equiv> 12"
abbreviation EFAULT :: int where "EFAULT \<equiv> 14"
abbreviation EEXIST :: int where "EEXIST \<equiv> 17"
abbreviation ENODEV :: int where "ENODEV \<equiv> 19"
abbreviation EINVAL :: int where "EINVAL \<equiv> 22"
abbreviation ENOTTY :: int where "ENOTTY \<equiv> 25"
abbreviation ENOSPC :: int where "ENOSPC \<equiv> 28"
abbreviation ERANGE :: int where "ERANGE \<equiv> 34"

subsection \<open>Facts about wrap-around\<close>

lemma is_s32_to_s32 [simp]: "is_s32 (to_s32 x)"
proof -
  have "0 \<le> (x + 2147483648) mod 4294967296" and "(x + 2147483648) mod 4294967296 < 4294967296"
    by simp_all
  then show ?thesis by (simp add: is_s32_def to_s32_def)
qed

lemma to_s32_id [simp]: "is_s32 x \<Longrightarrow> to_s32 x = x"
  by (simp add: is_s32_def to_s32_def)

lemma to_s32_wrap:
  assumes "INT_MAX < x" and "x < 6442450944"
  shows "to_s32 x = x - 4294967296"
proof -
  have "(x + 2147483648) mod 4294967296 = (x - 2147483648 + 4294967296) mod 4294967296"
    by (rule arg_cong [where f = "\<lambda>y. y mod 4294967296"]) simp
  also have "\<dots> = (x - 2147483648) mod 4294967296" by (simp only: mod_add_self2)
  also have "\<dots> = x - 2147483648" using assms by (intro mod_pos_pos_trivial) simp_all
  finally show ?thesis by (simp add: to_s32_def)
qed

lemma to_s64_id [simp]: "is_s64 x \<Longrightarrow> to_s64 x = x"
  by (simp add: is_s64_def to_s64_def)

lemma is_s64_s32: "is_s32 x \<Longrightarrow> is_s64 x"
  by (simp add: is_s32_def is_s64_def)

lemma to_s32_to_s64 [simp]: "to_s32 (to_s64 x) = to_s32 x"
proof -
  define y where "y = x + 9223372036854775808"
  have "(y mod 18446744073709551616 + (2147483648 - 9223372036854775808)) mod 4294967296
      = (y mod 18446744073709551616 mod 4294967296 + (2147483648 - 9223372036854775808))
          mod (4294967296::int)"
    by (simp only: mod_add_left_eq)
  also have "y mod 18446744073709551616 mod 4294967296 = y mod (4294967296::int)"
    by (rule mod_mod_cancel) simp
  also have "(y mod 4294967296 + (2147483648 - 9223372036854775808)) mod 4294967296
      = (y + (2147483648 - 9223372036854775808)) mod (4294967296::int)"
    by (simp only: mod_add_left_eq)
  finally show ?thesis by (simp add: to_s32_def to_s64_def y_def algebra_simps)
qed

section \<open>Lists\<close>

lemma last_takeWhile_end: "xs \<noteq> [] \<Longrightarrow> P (last xs) \<Longrightarrow> takeWhile P (rev xs) \<noteq> []"
  by (cases xs rule: rev_cases) auto

lemma takeWhile_update_end:
  assumes "n \<le> length (takeWhile P xs)" and "n < length xs" and "\<not> P x"
  shows "takeWhile P (xs[n := x]) = take n xs"
  using assms
proof (induction xs arbitrary: n)
  case Nil
  then show ?case by simp
next
  case (Cons a xs)
  then show ?case by (cases n) (auto split: if_splits)
qed

lemma split_at_first: "x \<in> set xs \<Longrightarrow> \<exists>post. xs = takeWhile (\<lambda>y. y \<noteq> x) xs @ x # post"
  by (induction xs) auto

lemma take_takeWhile_prefix:
  "n \<le> length (takeWhile P xs) \<Longrightarrow> take n xs = take n (takeWhile P xs)"
  by (metis takeWhile_eq_take take_take min.absorb1)

end
