(* ===== verification/Kernel_Lib.thy ===== *)
theory Kernel_Lib
  imports Prelude
begin

text \<open>
  The C library of the kernel, as far as the modules use it: character classes, number parsing
  (\<open>simple_strtol\<close>, \<open>kstrtoint\<close>, \<open>kstrtouint\<close>, \<open>sscanf\<close> with literals, white space and
  \<open>%u\<close>), number printing (\<open>%d\<close>, \<open>%u\<close>, \<open>%x\<close>, \<open>%ld\<close>), C strings in fixed buffers
  (\<open>strim\<close>, \<open>memcpy\<close>), \<open>scnprintf\<close>, the arithmetic macros \<open>mult_frac\<close> and
  \<open>DIV_ROUND_CLOSEST\<close>, and the byte queue \<open>kfifo\<close>. A C string is the list of its characters
  before the NUL.
\<close>

section \<open>Definitions\<close>

subsection \<open>Characters\<close>

abbreviation NUL :: char where "NUL \<equiv> CHR 0x00"
abbreviation LF :: char where "LF \<equiv> CHR 0x0A"

abbreviation ccode :: "char \<Rightarrow> nat" where "ccode c \<equiv> of_char c"

definition isspace :: "char \<Rightarrow> bool" where
  "isspace c \<longleftrightarrow> (9 \<le> ccode c \<and> ccode c \<le> 13) \<or> ccode c = 32 \<or> ccode c = 160"

definition isdigit :: "char \<Rightarrow> bool" where
  "isdigit c \<longleftrightarrow> 48 \<le> ccode c \<and> ccode c \<le> 57"

definition digit_val :: "char \<Rightarrow> nat option" where
  "digit_val c =
     (if 48 \<le> ccode c \<and> ccode c \<le> 57 then Some (ccode c - 48)
      else if 97 \<le> ccode c \<and> ccode c \<le> 102 then Some (ccode c - 87)
      else if 65 \<le> ccode c \<and> ccode c \<le> 70 then Some (ccode c - 55)
      else None)"

definition digit_char :: "nat \<Rightarrow> char" where
  "digit_char d = char_of (if d < 10 then 48 + d else 87 + d)"

subsection \<open>Printing numbers\<close>

function num_str :: "nat \<Rightarrow> nat \<Rightarrow> string" where
  "num_str b n =
     (if b < 2 \<or> n < b then [digit_char n] else num_str b (n div b) @ [digit_char (n mod b)])"
  by pat_completeness auto
termination
  by (relation "measure snd") auto

declare num_str.simps [simp del]

definition fmt_u :: "nat \<Rightarrow> string" where
  "fmt_u n = num_str 10 n"

definition fmt_x :: "nat \<Rightarrow> string" where
  "fmt_x n = num_str 16 n"

definition fmt_d :: "int \<Rightarrow> string" where
  "fmt_d i = (if i < 0 then CHR ''-'' # num_str 10 (nat (- i)) else num_str 10 (nat i))"

subsection \<open>Parsing numbers\<close>

fun parse_digits :: "nat \<Rightarrow> nat \<Rightarrow> string \<Rightarrow> nat \<times> string" where
  "parse_digits b acc [] = (acc, [])"
| "parse_digits b acc (c # cs) =
     (case digit_val c of
        None \<Rightarrow> (acc, c # cs)
      | Some v \<Rightarrow> if v < b then parse_digits b (acc * b + v) cs else (acc, c # cs))"

definition simple_strtoul :: "string \<Rightarrow> nat" where
  "simple_strtoul s = fst (parse_digits 10 0 s) mod 2 ^ 64"

definition simple_strtol :: "string \<Rightarrow> int" where
  "simple_strtol s =
     (case s of
        [] \<Rightarrow> 0
      | c # cs \<Rightarrow> if c = CHR ''-'' then to_s64 (- int (simple_strtoul cs))
                 else to_s64 (int (simple_strtoul s)))"

text \<open>
  The base-0 rules: \<open>0x\<close> and a hexadecimal digit select base 16 and are skipped, another
  leading \<open>0\<close> selects base 8, anything else base 10.
\<close>

fun fixup_radix :: "string \<Rightarrow> nat \<times> string" where
  "fixup_radix (z # x # d # s) =
     (if z = CHR ''0'' then
        (if (x = CHR ''x'' \<or> x = CHR ''X'') \<and> digit_val d \<noteq> None then (16, d # s)
         else (8, z # x # d # s))
      else (10, z # x # d # s))"
| "fixup_radix (z # s) = (if z = CHR ''0'' then (8, z # s) else (10, z # s))"
| "fixup_radix [] = (10, [])"

definition kstrtoull_digits :: "string \<Rightarrow> int + nat" where
  "kstrtoull_digits s =
     (case fixup_radix s of (b, s1) \<Rightarrow>
        case parse_digits b 0 s1 of (v, rest) \<Rightarrow>
          if v \<ge> 2 ^ 64 then Inl (- ERANGE)
          else if length rest = length s1 then Inl (- EINVAL)
          else if rest = [] \<or> rest = [LF] then Inr v
          else Inl (- EINVAL))"

definition kstrtoull :: "string \<Rightarrow> int + nat" where
  "kstrtoull s = kstrtoull_digits (case s of [] \<Rightarrow> [] | c # cs \<Rightarrow> if c = CHR ''+'' then cs else s)"

definition kstrtoll :: "string \<Rightarrow> int + int" where
  "kstrtoll s =
     (if s \<noteq> [] \<and> hd s = CHR ''-'' then
        (case kstrtoull_digits (tl s) of
           Inl e \<Rightarrow> Inl e
         | Inr v \<Rightarrow> if v > 2 ^ 63 then Inl (- ERANGE) else Inr (- int v))
      else
        (case kstrtoull s of
           Inl e \<Rightarrow> Inl e
         | Inr v \<Rightarrow> if v \<ge> 2 ^ 63 then Inl (- ERANGE) else Inr (int v)))"

definition kstrtoint :: "string \<Rightarrow> int + int" where
  "kstrtoint s =
     (case kstrtoll s of
        Inl e \<Rightarrow> Inl e
      | Inr v \<Rightarrow> if is_s32 v then Inr v else Inl (- ERANGE))"

definition kstrtouint :: "string \<Rightarrow> int + nat" where
  "kstrtouint s =
     (case kstrtoull s of
        Inl e \<Rightarrow> Inl e
      | Inr v \<Rightarrow> if v < 2 ^ 32 then Inr v else Inl (- ERANGE))"

text \<open>\<open>sscanf\<close>: the values converted before the first mismatch; their number is the result.\<close>

datatype scan_item = Lit char | White | Uint

definition skip_spaces :: "string \<Rightarrow> string" where
  "skip_spaces s = dropWhile isspace s"

fun sscanf :: "scan_item list \<Rightarrow> string \<Rightarrow> u32 list" where
  "sscanf [] s = []"
| "sscanf (White # f) s = sscanf f (skip_spaces s)"
| "sscanf (Lit c # f) s =
     (case s of [] \<Rightarrow> [] | d # ds \<Rightarrow> if d = c then sscanf f ds else [])"
| "sscanf (Uint # f) s =
     (case skip_spaces s of
        [] \<Rightarrow> []
      | d # ds \<Rightarrow>
          if isdigit d
          then (case parse_digits 10 0 (d # ds) of (v, rest) \<Rightarrow> of_nat v # sscanf f rest)
          else [])"

subsection \<open>C strings in buffers\<close>

definition cstr :: "char list \<Rightarrow> string" where
  "cstr buf = takeWhile (\<lambda>c. c \<noteq> NUL) buf"

definition rstrip :: "string \<Rightarrow> string" where
  "rstrip s = rev (dropWhile isspace (rev s))"

text \<open>
  \<open>strim\<close> cuts trailing white space by writing a NUL behind the last other character; the
  pointer it returns, past the leading white space, is what a caller may ignore.
\<close>

definition strim :: "char list \<Rightarrow> char list" where
  "strim buf = (if cstr buf = [] then buf else buf[length (rstrip (cstr buf)) := NUL])"

definition memcpy :: "char list \<Rightarrow> char list \<Rightarrow> nat \<Rightarrow> char list" where
  "memcpy dst src n = take n src @ drop n dst"

definition scnprintf :: "nat \<Rightarrow> string \<Rightarrow> string" where
  "scnprintf sz txt = take (sz - 1) txt"

subsection \<open>Arithmetic macros\<close>

definition mult_frac :: "u32 \<Rightarrow> u32 \<Rightarrow> u32 \<Rightarrow> u32" where
  "mult_frac x n d = (x div d) * n + ((x mod d) * n) div d"

definition c_div :: "int \<Rightarrow> int \<Rightarrow> int" where
  "c_div a b = sgn a * sgn b * (\<bar>a\<bar> div \<bar>b\<bar>)"

definition DIV_ROUND_CLOSEST :: "int \<Rightarrow> int \<Rightarrow> int" where
  "DIV_ROUND_CLOSEST x d =
     (if (x > 0) = (d > 0) then c_div (to_s32 (x + c_div d 2)) d
      else c_div (to_s32 (x - c_div d 2)) d)"

subsection \<open>kfifo\<close>

record kfifo =
  kf_data :: "char list"
  kf_size :: nat

definition kfifo_in :: "kfifo \<Rightarrow> char list \<Rightarrow> nat \<times> kfifo" where
  "kfifo_in f buf =
     (let n = min (length buf) (kf_size f - length (kf_data f))
      in (n, f\<lparr>kf_data := kf_data f @ take n buf\<rparr>))"

text \<open>
  \<open>kfifo_to_user\<close> copies up to \<open>cnt\<close> bytes; \<open>uncopied\<close> is what \<open>copy_to_user\<close> could not
  write (0 normally). What was written has left the queue, also when the call reports the fault.
\<close>

definition kfifo_to_user :: "kfifo \<Rightarrow> nat \<Rightarrow> nat \<Rightarrow> int \<times> char list \<times> kfifo" where
  "kfifo_to_user f cnt uncopied =
     (let len = min cnt (length (kf_data f)); n = len - min uncopied len
      in (if min uncopied len = 0 then 0 else - EFAULT,
          take n (kf_data f), f\<lparr>kf_data := drop n (kf_data f)\<rparr>))"

definition kfifo_wf :: "kfifo \<Rightarrow> bool" where
  "kfifo_wf f \<longleftrightarrow> length (kf_data f) \<le> kf_size f"

section \<open>Facts\<close>

subsection \<open>Numbers\<close>

lemma ccode_digit_char: "d < 16 \<Longrightarrow> ccode (digit_char d) = (if d < 10 then 48 + d else 87 + d)"
  by (simp add: digit_char_def)

lemma digit_val_digit_char [simp]: "d < 16 \<Longrightarrow> digit_val (digit_char d) = Some d"
  by (simp add: digit_val_def ccode_digit_char)

lemma digit_char_not_space [simp]: "d < 16 \<Longrightarrow> \<not> isspace (digit_char d)"
  by (simp add: isspace_def ccode_digit_char)

lemma isdigit_digit_char [simp]: "d < 10 \<Longrightarrow> isdigit (digit_char d)"
  by (simp add: isdigit_def ccode_digit_char)

lemma digit_char_not: "d < 16 \<Longrightarrow> digit_val c = None \<Longrightarrow> digit_char d \<noteq> c"
  by (metis digit_val_digit_char option.distinct(1))

lemma num_str_not_Nil [simp]: "num_str b n \<noteq> []"
  by (subst num_str.simps) simp

text \<open>Parsing undoes printing, whatever follows, in any base up to 16.\<close>

lemma parse_num_str:
  assumes "2 \<le> b" and "b \<le> 16"
  shows "parse_digits b acc (num_str b n @ s) =
         parse_digits b (acc * b ^ length (num_str b n) + n) s"
  using assms
proof (induction b n arbitrary: acc s rule: num_str.induct)
  case (1 b n)
  show ?case
  proof (cases "n < b")
    case True
    then show ?thesis using "1.prems" by (subst (1 2) num_str.simps) simp
  next
    case False
    have m: "n mod b < b" using "1.prems" by simp
    have IH: "\<And>a t. parse_digits b a (num_str b (n div b) @ t) =
        parse_digits b (a * b ^ length (num_str b (n div b)) + n div b) t"
      using "1.IH" "1.prems" False by simp
    have st: "num_str b n = num_str b (n div b) @ [digit_char (n mod b)]"
      using False "1.prems" by (subst num_str.simps) simp
    have dv: "digit_val (digit_char (n mod b)) = Some (n mod b)"
      using m "1.prems" by (intro digit_val_digit_char) linarith
    have "(acc * b ^ length (num_str b (n div b)) + n div b) * b + n mod b
        = acc * b ^ Suc (length (num_str b (n div b))) + (n div b * b + n mod b)"
      by (simp only: algebra_simps power_Suc)
    then show ?thesis using m by (simp add: st IH dv)
  qed
qed

definition no_digit :: "nat \<Rightarrow> string \<Rightarrow> bool" where
  "no_digit b s \<longleftrightarrow>
     (case s of [] \<Rightarrow> True | c # _ \<Rightarrow> (case digit_val c of None \<Rightarrow> True | Some v \<Rightarrow> b \<le> v))"

lemma parse_no_digit: "no_digit b s \<Longrightarrow> parse_digits b a s = (a, s)"
  by (cases s) (auto simp: no_digit_def split: option.splits)

lemma parse_num_str_end:
  "2 \<le> b \<Longrightarrow> b \<le> 16 \<Longrightarrow> no_digit b s \<Longrightarrow> parse_digits b 0 (num_str b n @ s) = (n, s)"
  by (simp add: parse_num_str parse_no_digit)

lemma no_digit_simps [simp]:
  "no_digit b []" "no_digit b (LF # s)" "no_digit b (CHR '' '' # s)"
  by (simp_all add: no_digit_def digit_val_def)

lemma num_str_hd:
  assumes "2 \<le> b" and "b \<le> 16"
  obtains d ds where "d < b" and "num_str b n = digit_char d # ds"
proof -
  have "\<exists>d ds. d < b \<and> num_str b n = digit_char d # ds"
    using assms
  proof (induction b n rule: num_str.induct)
    case (1 b n)
    show ?case
    proof (cases "n < b")
      case True
      then show ?thesis by (subst num_str.simps) auto
    next
      case False
      then obtain d ds where "d < b" and "num_str b (n div b) = digit_char d # ds"
        using 1 by auto
      then show ?thesis using False "1.prems" by (subst num_str.simps) auto
    qed
  qed
  then show ?thesis using that by blast
qed

lemma num_str_not_minus:
  assumes "2 \<le> b" and "b \<le> 16" and "digit_val c = None"
  shows "hd (num_str b n @ s) \<noteq> c"
proof -
  obtain d ds where "d < b" and "num_str b n = digit_char d # ds"
    using assms by (blast elim: num_str_hd)
  then show ?thesis using assms digit_char_not [of d c] by auto
qed

lemma num_str_digits: "c \<in> set (num_str 10 n) \<Longrightarrow> isdigit c"
proof (induction "10 :: nat" n rule: num_str.induct)
  case (1 n)
  show ?case
  proof (cases "n < 10")
    case True
    then show ?thesis using "1.prems" by (subst (asm) num_str.simps) simp
  next
    case False
    then have "num_str 10 n = num_str 10 (n div 10) @ [digit_char (n mod 10)]"
      by (subst num_str.simps) simp
    then show ?thesis using "1.hyps" "1.prems" False by auto
  qed
qed

lemma minus_no_digit [simp]: "digit_val (CHR ''-'') = None"
  by (simp add: digit_val_def)

lemma plus_no_digit [simp]: "digit_val (CHR ''+'') = None"
  by (simp add: digit_val_def)

text \<open>\<open>simple_strtol\<close> reads back what \<open>%d\<close> and \<open>%ld\<close> print.\<close>

lemma simple_strtoul_num_str:
  "n < 2 ^ 64 \<Longrightarrow> no_digit 10 s \<Longrightarrow> simple_strtoul (num_str 10 n @ s) = n"
  by (simp add: simple_strtoul_def parse_num_str_end)

lemma simple_strtol_fmt_d:
  assumes "is_s64 v" and "no_digit 10 s"
  shows "simple_strtol (fmt_d v @ s) = v"
proof (cases "v < 0")
  case True
  then have "nat (- v) < 2 ^ 64" using assms(1) by (simp add: is_s64_def)
  then show ?thesis
    using True assms simple_strtoul_num_str [of "nat (- v)" s]
    by (simp add: fmt_d_def simple_strtol_def)
next
  case False
  then have "nat v < 2 ^ 64" using assms(1) by (simp add: is_s64_def)
  then have n: "simple_strtoul (num_str 10 (nat v) @ s) = nat v"
    using assms(2) by (rule simple_strtoul_num_str)
  have "hd (num_str 10 (nat v) @ s) \<noteq> CHR ''-''"
    by (rule num_str_not_minus) simp_all
  then show ?thesis
    using False assms n
    by (cases "num_str 10 (nat v) @ s") (auto simp: fmt_d_def simple_strtol_def)
qed

lemma skip_spaces_num_str:
  assumes "2 \<le> b" and "b \<le> 16"
  shows "skip_spaces (num_str b n @ s) = num_str b n @ s"
proof -
  obtain d ds where "d < b" and "num_str b n = digit_char d # ds"
    using assms by (blast elim: num_str_hd)
  then show ?thesis using assms by (simp add: skip_spaces_def)
qed

lemma sscanf_Uint_num_str:
  assumes "no_digit 10 s"
  shows "sscanf (Uint # f) (num_str 10 n @ s) = of_nat n # sscanf f s"
proof -
  obtain d ds where "d < 10" and "num_str 10 n = digit_char d # ds"
    by (rule num_str_hd [of 10 n]) simp_all
  then show ?thesis
    using skip_spaces_num_str [of 10 n s] parse_num_str_end [of 10 s n] assms by simp
qed

text \<open>A decimal number that does not start with \<open>0\<close>, or is \<open>0\<close> itself, parses in base 0.\<close>

lemma num_str_lead:
  assumes "2 \<le> b" and "b \<le> 16" and "0 < n"
  shows "\<exists>d ds. 0 < d \<and> d < b \<and> num_str b n = digit_char d # ds"
  using assms
proof (induction b n rule: num_str.induct)
  case (1 b n)
  show ?case
  proof (cases "n < b")
    case True
    then show ?thesis using "1.prems" by (subst num_str.simps) auto
  next
    case False
    then have "0 < n div b" using "1.prems" by (simp add: div_greater_zero_iff)
    then obtain d ds where "0 < d" "d < b" "num_str b (n div b) = digit_char d # ds"
      using 1 False by auto
    then show ?thesis using False "1.prems" by (subst num_str.simps) auto
  qed
qed

lemma digit_char_0 [simp]: "digit_char 0 = CHR ''0''"
  by code_simp

lemma digit_char_not_0: "0 < d \<Longrightarrow> d < 16 \<Longrightarrow> digit_char d \<noteq> CHR ''0''"
  by (metis digit_char_0 digit_val_digit_char less_numeral_extra(3) option.inject zero_less_numeral)

lemma fixup_radix_other: "s \<noteq> [] \<Longrightarrow> hd s \<noteq> CHR ''0'' \<Longrightarrow> fixup_radix s = (10, s)"
  by (cases s rule: fixup_radix.cases) auto

text \<open>What a number parser accepts behind the digits: nothing, or the newline of \<open>echo\<close>.\<close>

definition line_end :: "string \<Rightarrow> bool" where
  "line_end t \<longleftrightarrow> t = [] \<or> t = [LF]"

lemma line_end_simps [simp]: "line_end []" "line_end [LF]"
  by (simp_all add: line_end_def)

lemma kstrtoull_digits_num_str:
  assumes "n < 2 ^ 64" and t: "line_end t"
  shows "kstrtoull_digits (num_str 10 n @ t) = Inr n"
proof (cases "n = 0")
  case True
  have "num_str 10 0 = [CHR ''0'']" by (subst num_str.simps) simp
  then show ?thesis
    using True t by (auto simp: line_end_def kstrtoull_digits_def digit_val_def)
next
  case False
  then obtain d ds where d: "0 < d" "d < 10" "num_str 10 n = digit_char d # ds"
    using num_str_lead [of 10 n] by auto
  then have "fixup_radix (num_str 10 n @ t) = (10, num_str 10 n @ t)"
    using digit_char_not_0 [of d] by (intro fixup_radix_other) auto
  moreover have "parse_digits 10 0 (num_str 10 n @ t) = (n, t)"
    using parse_num_str_end [of 10 t n] t by (auto simp: line_end_def)
  ultimately show ?thesis using assms by (auto simp: line_end_def kstrtoull_digits_def)
qed

lemma kstrtoull_num_str:
  assumes "n < 2 ^ 64" and "line_end t"
  shows "kstrtoull (num_str 10 n @ t) = Inr n"
proof -
  have "hd (num_str 10 n @ t) \<noteq> CHR ''+''" by (rule num_str_not_minus) simp_all
  then show ?thesis
    using kstrtoull_digits_num_str [OF assms]
    by (cases "num_str 10 n @ t") (auto simp: kstrtoull_def)
qed

lemma kstrtouint_num_str:
  "n < 2 ^ 32 \<Longrightarrow> line_end t \<Longrightarrow> kstrtouint (num_str 10 n @ t) = Inr n"
  using kstrtoull_num_str [of n t] by (simp add: kstrtouint_def)

lemma length_num_str:
  assumes "2 \<le> b"
  shows "n < b ^ k \<Longrightarrow> length (num_str b n) \<le> max 1 k"
  using assms
proof (induction b n arbitrary: k rule: num_str.induct)
  case (1 b n)
  show ?case
  proof (cases "n < b")
    case True
    then show ?thesis by (subst num_str.simps) simp
  next
    case False
    then obtain j where k: "k = Suc j" using "1.prems" by (cases k) auto
    then have "n div b < b ^ j"
      using "1.prems" by (simp add: less_mult_imp_div_less mult.commute)
    then have "length (num_str b (n div b)) \<le> max 1 j" using "1.IH" "1.prems" False by simp
    moreover have "1 \<le> j" using False "1.prems" k by (cases j) auto
    ultimately show ?thesis using False "1.prems" k by (subst num_str.simps) simp
  qed
qed

lemma kstrtoint_fmt_d:
  assumes "is_s32 v" and t: "line_end t"
  shows "kstrtoint (fmt_d v @ t) = Inr v"
proof (cases "v < 0")
  case True
  then have "nat (- v) < 2 ^ 64" and "nat (- v) \<le> 2 ^ 63"
    using assms by (simp_all add: is_s32_def)
  then show ?thesis
    using True assms kstrtoull_digits_num_str [of "nat (- v)"]
    by (simp add: kstrtoint_def kstrtoll_def fmt_d_def)
next
  case False
  have lt: "nat v < 2 ^ 64" "nat v < 2 ^ 63" using assms False by (simp_all add: is_s32_def nat_less_iff)
  have m: "hd (num_str 10 (nat v) @ t) \<noteq> CHR ''-''" by (rule num_str_not_minus) simp_all
  then show ?thesis
    using False assms lt kstrtoull_num_str [OF lt(1) t]
    by (simp add: kstrtoint_def kstrtoll_def fmt_d_def)
qed

lemma kstrtoint_s32: "kstrtoint s = Inr v \<Longrightarrow> is_s32 v"
  by (auto simp: kstrtoint_def split: sum.splits if_splits)

subsection \<open>Buffers\<close>

lemma cstr_no_nul [simp]: "NUL \<notin> set (cstr buf)"
  by (auto simp: cstr_def dest: set_takeWhileD)

lemma cstr_len: "length (cstr buf) \<le> length buf"
  by (simp add: cstr_def length_takeWhile_le)

lemma rstrip_prefix: "rstrip s = take (length (rstrip s)) s"
proof -
  have "s = rstrip s @ rev (takeWhile isspace (rev s))"
    by (metis rstrip_def rev_append rev_rev_ident takeWhile_dropWhile_id)
  then show ?thesis by (metis append_eq_conv_conj)
qed

lemma rstrip_len: "length (rstrip s) \<le> length s"
  by (metis length_dropWhile_le length_rev rstrip_def)

lemma rstrip_Nil [simp]: "rstrip [] = []"
  by (simp add: rstrip_def)

lemma rstrip_last: "rstrip s \<noteq> [] \<Longrightarrow> \<not> isspace (last (rstrip s))"
  unfolding rstrip_def by (metis hd_dropWhile last_rev rev_is_Nil_conv)

lemma rstrip_id: "s = [] \<or> \<not> isspace (last s) \<Longrightarrow> rstrip s = s"
  by (cases s rule: rev_cases) (auto simp: rstrip_def)

lemma rstrip_set: "set (rstrip s) \<subseteq> set s"
  by (metis rstrip_prefix set_take_subset)

lemma length_strim [simp]: "length (strim buf) = length buf"
  by (simp add: strim_def)

text \<open>On the C string a buffer holds, \<open>strim\<close> is the removal of trailing white space.\<close>

lemma cstr_strim:
  assumes "length (cstr buf) < length buf"
  shows "cstr (strim buf) = rstrip (cstr buf)"
proof (cases "cstr buf = []")
  case True
  then show ?thesis by (simp add: strim_def)
next
  case False
  let ?n = "length (rstrip (cstr buf))"
  have n: "?n \<le> length (cstr buf)" by (rule rstrip_len)
  then have "cstr (buf[?n := NUL]) = take ?n buf"
    unfolding cstr_def using assms by (intro takeWhile_update_end) (auto simp: cstr_def)
  also have "\<dots> = take ?n (cstr buf)"
    using n unfolding cstr_def by (rule take_takeWhile_prefix)
  also have "\<dots> = rstrip (cstr buf)" by (rule rstrip_prefix [symmetric])
  finally show ?thesis using False by (simp add: strim_def)
qed

subsection \<open>Arithmetic\<close>

text \<open>
  \<open>mult_frac x n 100\<close> with \<open>n \<le> 100\<close> is the exact quotient: no step of the macro overflows,
  where the product \<open>x * n\<close> would.
\<close>

lemma unat_mult_frac_100:
  assumes "n \<le> 100"
  shows "unat (mult_frac x n 100) = unat x * unat n div 100"
proof -
  have n: "unat n \<le> 100" using assms by (simp add: word_le_nat_alt)
  let ?q = "unat x div 100" and ?r = "unat x mod 100"
  have r: "?r * unat n \<le> 99 * 100" using n by (intro mult_le_mono) auto
  have "?q * unat n \<le> ?q * 100" using n by simp
  also have "\<dots> \<le> unat x" by simp
  finally have qn: "?q * unat n \<le> unat x" .
  have x: "unat x < 4294967296" using unsigned_less [of x] by simp
  have s: "unat x * unat n div 100 = ?q * unat n + ?r * unat n div 100"
  proof -
    have "unat x * unat n = (?q * 100 + ?r) * unat n" by simp
    also have "\<dots> = ?q * unat n * 100 + ?r * unat n" by (simp only: algebra_simps)
    finally show ?thesis by simp
  qed
  have "?r * unat n div 100 \<le> ?r * 100 div 100"
    using n by (intro div_le_mono mult_le_mono) simp_all
  then have "?q * unat n + ?r * unat n div 100 \<le> ?q * 100 + ?r"
    using n by (intro add_mono mult_le_mono) simp_all
  also have "\<dots> = unat x" by simp
  finally have "?q * unat n + ?r * unat n div 100 < 4294967296" using x by simp
  then show ?thesis
    using qn r x
    by (simp add: mult_frac_def s unat_word_ariths unat_div unat_mod)
qed

subsection \<open>kfifo\<close>

lemma kfifo_in_wf: "kfifo_wf f \<Longrightarrow> kfifo_wf (snd (kfifo_in f b))"
  by (simp add: kfifo_wf_def kfifo_in_def Let_def)

lemma kfifo_in_fits:
  "length (kf_data f) + length b \<le> kf_size f \<Longrightarrow>
     kfifo_in f b = (length b, f\<lparr>kf_data := kf_data f @ b\<rparr>)"
  by (simp add: kfifo_in_def Let_def min_absorb1)

lemma kfifo_to_user_stream:
  "kfifo_to_user f c u = (r, out, f') \<Longrightarrow> kf_data f = out @ kf_data f' \<and> kf_size f' = kf_size f"
  by (auto simp: kfifo_to_user_def Let_def)

end
