(* ===== verification/Text_Buffer.thy ===== *)
theory Text_Buffer
  imports Kernel_Lib
begin

text \<open>
  Text attributes kept in fixed buffers. Several handlers (\<open>mi_string_store\<close> of the thermal
  interface, \<open>perf_helper_copy_user\<close> and \<open>kdamond_cpuset_store\<close> of the perf helper) copy at most
  one byte less than the buffer holds, terminate it and call \<open>strim\<close>. The locale
  \<open>text_buffer\<close> states what such a handler promises about the C string a reader sees
  afterwards, and derives what its clients rely on; every handler interprets it.
\<close>

locale text_buffer =
  fixes cap :: nat
    and store :: "char list \<Rightarrow> char list \<Rightarrow> char list"
  assumes cap_pos: "0 < cap"
    and store_length: "length buf = cap \<Longrightarrow> length (store buf src) = cap"
    and store_text: "length buf = cap \<Longrightarrow> cstr (store buf src) = rstrip (cstr (take (cap - 1) src))"
begin

lemma terminated:
  assumes "length buf = cap"
  shows "length (cstr (store buf src)) < cap"
proof -
  have "length (rstrip (cstr (take (cap - 1) src))) \<le> length (take (cap - 1) src)"
    using rstrip_len cstr_len le_trans by blast
  also have "\<dots> < cap" using cap_pos by simp
  finally show ?thesis using assms by (simp add: store_text)
qed

lemma no_trailing_space:
  "length buf = cap \<Longrightarrow> cstr (store buf src) \<noteq> [] \<Longrightarrow> \<not> isspace (last (cstr (store buf src)))"
  by (simp add: store_text rstrip_last)

text \<open>The old contents never show through: only the last write counts.\<close>

lemma last_write_wins:
  "length buf = cap \<Longrightarrow> cstr (store (store buf a) b) = cstr (store buf b)"
  by (simp add: store_text store_length)

text \<open>A clean line that fits is read back as written, with or without the final newline.\<close>

lemma read_back:
  assumes "length buf = cap" and "NUL \<notin> set txt" and "txt = [] \<or> \<not> isspace (last txt)"
    and "length txt + length tail < cap" and "tail = [] \<or> tail = [LF]"
  shows "cstr (store buf (txt @ tail)) = txt"
proof -
  have t: "take (cap - 1) (txt @ tail) = txt @ tail"
    using assms(4) by simp
  have "cstr (txt @ tail) = txt @ tail"
    using assms(2,5) by (auto simp: cstr_def takeWhile_eq_all_conv)
  moreover have "rstrip (txt @ tail) = rstrip txt"
    using assms(5) by (auto simp: rstrip_def isspace_def)
  ultimately show ?thesis
    using assms(1,3) by (simp only: store_text t) (simp add: rstrip_id)
qed

lemma store_idem:
  assumes "length buf = cap"
  shows "cstr (store buf (cstr (store buf src))) = cstr (store buf src)"
  using assms terminated [OF assms, of src] no_trailing_space [OF assms, of src]
    read_back [OF assms, of "cstr (store buf src)" "[]"] by auto

end

text \<open>The copy, terminate and trim sequence satisfies the contract, for any buffer size.\<close>

lemma copy_terminate_trim:
  assumes "length buf = n" and "0 < n" and "len = min (length src) (n - 1)"
  shows "cstr (strim ((memcpy buf src len)[len := NUL])) = rstrip (cstr (take (n - 1) src))"
    and "length (strim ((memcpy buf src len)[len := NUL])) = n"
proof -
  let ?b = "(memcpy buf src len)[len := NUL]"
  have len: "len < n" "len \<le> length src" using assms by auto
  then have l: "length (memcpy buf src len) = n"
    using assms by (simp add: memcpy_def)
  then show "length (strim ?b) = n" by simp
  have "?b = take len src @ NUL # drop (Suc len) buf"
  proof -
    have "drop len buf = buf ! len # drop (Suc len) buf"
      using len assms(1) by (simp add: Cons_nth_drop_Suc)
    then show ?thesis using len by (simp add: memcpy_def list_update_append)
  qed
  then have c: "cstr ?b = cstr (take len src)"
    by (simp add: cstr_def takeWhile_tail)
  moreover have "take len src = take (n - 1) src" using assms(3) by (simp add: min_def)
  moreover have "length (cstr ?b) < length ?b"
    using c cstr_len [of "take len src"] len l by simp
  ultimately show "cstr (strim ?b) = rstrip (cstr (take (n - 1) src))"
    by (simp add: cstr_strim)
qed

end
