(* ===== verification/Thermal_Temp.thy ===== *)
theory Thermal_Temp
  imports Text_Buffer
begin

text \<open>
  The attribute values of \<open>mi_thermal_interface.c\<close> and the device temperature computed from
  them: the integer and string attributes behind the \<open>thermal-message\<close> and \<open>mi_powersave\<close>
  nodes with their show and store handlers, the parser that guesses the unit of a temperature,
  the battery reading and the maximum over all sources.
\<close>

section \<open>Attributes\<close>

text \<open>One constructor per \<open>MI_INT_ATTR\<close>, named after the sysfs file.\<close>

datatype int_attr =
    Temp_state | Balance_mode | Modem_limit | Wifi_limit | Flash_state | Torch_level
  | Torch_real_level | Thermal_max_brightness | Display_therm_temp | Voice_limit | Super_hdr
  | Cloud_game | Dynamic_tj | Market_download_limit | Board_sensor_temp_comp
  | Poor_modem_limit | Cpu_nolimit_temp | Ntn_limit | Modem_level | Boot_complete
  | Charger_temp | Powersave_mode | Power_level

text \<open>The string attributes: the \<open>MI_STRING_ATTR\<close>s and \<open>board_sensor_temp\<close>.\<close>

datatype str_attr =
    Boost | Board_sensor_temp | Board_sensor_second_temp | Board_sensor_other_temp
  | Ambient_sensor_temp

abbreviation MI_THERMAL_BUF_LEN :: nat where "MI_THERMAL_BUF_LEN \<equiv> 128"
abbreviation PAGE_SIZE :: nat where "PAGE_SIZE \<equiv> 4096"

record thermal_attrs =
  int_vals :: "int_attr \<Rightarrow> int"
  str_vals :: "str_attr \<Rightarrow> char list"

definition thermal_attrs_init :: thermal_attrs where
  "thermal_attrs_init =
     \<lparr>int_vals = (\<lambda>_. 0), str_vals = (\<lambda>_. CHR ''0'' # replicate 127 NUL)\<rparr>"

definition mi_int_show :: "int \<Rightarrow> string" where
  "mi_int_show v = scnprintf PAGE_SIZE (fmt_d v @ [LF])"

definition mi_int_store :: "string \<Rightarrow> int" where
  "mi_int_store buf = to_s32 (simple_strtol buf)"

definition mi_string_show :: "char list \<Rightarrow> string" where
  "mi_string_show val = scnprintf PAGE_SIZE (cstr val @ [LF])"

definition mi_string_store :: "char list \<Rightarrow> char list \<Rightarrow> char list" where
  "mi_string_store val buf =
     (let len = min (length buf) (MI_THERMAL_BUF_LEN - 1)
      in strim ((memcpy val buf len)[len := NUL]))"

text \<open>The handlers the macros generate, with the byte count they return.\<close>

definition thermal_int_show :: "int_attr \<Rightarrow> thermal_attrs \<Rightarrow> string" where
  "thermal_int_show a s = mi_int_show (int_vals s a)"

definition thermal_int_store :: "int_attr \<Rightarrow> string \<Rightarrow> thermal_attrs \<Rightarrow> int \<times> thermal_attrs" where
  "thermal_int_store a buf s =
     (int (length buf), s\<lparr>int_vals := (int_vals s)(a := mi_int_store buf)\<rparr>)"

definition thermal_string_show :: "str_attr \<Rightarrow> thermal_attrs \<Rightarrow> string" where
  "thermal_string_show a s = mi_string_show (str_vals s a)"

definition thermal_string_store :: "str_attr \<Rightarrow> string \<Rightarrow> thermal_attrs \<Rightarrow> int \<times> thermal_attrs" where
  "thermal_string_store a buf s =
     (int (length buf), s\<lparr>str_vals := (str_vals s)(a := mi_string_store (str_vals s a) buf)\<rparr>)"

text \<open>
  \<open>thermal_board_sensor_temp_store\<close> parses the text it stored into a local that nothing reads.
\<close>

definition thermal_board_sensor_temp_store :: "string \<Rightarrow> thermal_attrs \<Rightarrow> int \<times> thermal_attrs" where
  "thermal_board_sensor_temp_store buf s =
     (let val = mi_string_store (str_vals s Board_sensor_temp) buf;
          temp = to_s32 (simple_strtol (cstr val))
      in (int (length buf), s\<lparr>str_vals := (str_vals s)(Board_sensor_temp := val)\<rparr>))"

section \<open>Temperatures\<close>

definition mi_thermal_parse_temp :: "string option \<Rightarrow> int" where
  "mi_thermal_parse_temp buf =
     (case buf of
        None \<Rightarrow> INT_MIN
      | Some s \<Rightarrow>
          if s = [] then INT_MIN
          else case kstrtoint s of
            Inl _ \<Rightarrow> INT_MIN
          | Inr temp \<Rightarrow>
              if temp \<le> INT_MIN \<or> temp = INT_MAX then INT_MIN
              else if temp \<ge> 1000 then DIV_ROUND_CLOSEST temp 1000
              else if temp \<ge> 100 then DIV_ROUND_CLOSEST temp 10
              else temp)"

text \<open>
  The battery supply: absent, present with an error code for the property, or present with the
  value of \<open>POWER_SUPPLY_PROP_TEMP\<close>, which the power supply class defines in tenths of a
  degree.
\<close>

type_synonym battery = "(int + int) option"

definition mi_thermal_get_battery_temp :: "battery \<Rightarrow> int" where
  "mi_thermal_get_battery_temp psy =
     (case psy of
        None \<Rightarrow> INT_MIN
      | Some (Inl ret) \<Rightarrow> INT_MIN
      | Some (Inr intval) \<Rightarrow> mi_thermal_parse_temp (Some (scnprintf 16 (fmt_d intval))))"

definition mi_thermal_get_device_temp :: "battery \<Rightarrow> thermal_attrs \<Rightarrow> int" where
  "mi_thermal_get_device_temp psy s =
     (let temp = INT_MIN;
          temp = max temp (mi_thermal_get_battery_temp psy);
          temp = max temp (int_vals s Temp_state);
          temp = max temp (int_vals s Display_therm_temp);
          temp = max temp (mi_thermal_parse_temp (Some (cstr (str_vals s Board_sensor_temp))));
          temp = max temp (mi_thermal_parse_temp (Some (cstr (str_vals s Board_sensor_second_temp))));
          temp = max temp (mi_thermal_parse_temp (Some (cstr (str_vals s Board_sensor_other_temp))));
          temp = max temp (mi_thermal_parse_temp (Some (cstr (str_vals s Ambient_sensor_temp))))
      in temp)"

definition attrs_wf :: "thermal_attrs \<Rightarrow> bool" where
  "attrs_wf s \<longleftrightarrow>
     (\<forall>a. is_s32 (int_vals s a)) \<and>
     (\<forall>a. length (str_vals s a) = MI_THERMAL_BUF_LEN \<and>
          length (cstr (str_vals s a)) < MI_THERMAL_BUF_LEN)"

section \<open>The attribute handlers\<close>

interpretation mi_str: text_buffer MI_THERMAL_BUF_LEN mi_string_store
  by unfold_locales
    (simp_all only: mi_string_store_def Let_def
      copy_terminate_trim [where n = MI_THERMAL_BUF_LEN, OF _ _ refl] zero_less_numeral)

lemma attrs_wf_init: "attrs_wf thermal_attrs_init"
  by (simp add: attrs_wf_def thermal_attrs_init_def is_s32_def cstr_def)

lemma attrs_wf_int_store: "attrs_wf s \<Longrightarrow> attrs_wf (snd (thermal_int_store a buf s))"
  by (simp add: attrs_wf_def thermal_int_store_def mi_int_store_def)

lemma attrs_wf_string_store: "attrs_wf s \<Longrightarrow> attrs_wf (snd (thermal_string_store a buf s))"
  by (simp add: attrs_wf_def thermal_string_store_def mi_str.store_length mi_str.terminated)

lemma board_sensor_temp_store_is_string_store:
  "thermal_board_sensor_temp_store buf s = thermal_string_store Board_sensor_temp buf s"
  by (simp add: thermal_board_sensor_temp_store_def thermal_string_store_def Let_def)

lemma length_fmt_d: "is_s32 v \<Longrightarrow> length (fmt_d v) \<le> 11"
  using length_num_str [of 10 "nat (- v)" 10] length_num_str [of 10 "nat v" 10]
  by (cases "v < 0") (auto simp: fmt_d_def is_s32_def nat_less_iff)

lemma mi_int_show_text: "is_s32 v \<Longrightarrow> mi_int_show v = fmt_d v @ [LF]"
  using length_fmt_d [of v] by (simp add: mi_int_show_def scnprintf_def)

text \<open>An integer attribute reads back what it shows: writing the text that a read of any
  32-bit value produces stores exactly that value, reports the whole write consumed and leaves
  every other attribute alone.\<close>

theorem int_attr_roundtrip:
  assumes "is_s32 v"
  shows "thermal_int_store a (mi_int_show v) s =
    (int (length (fmt_d v)) + 1, s\<lparr>int_vals := (int_vals s)(a := v)\<rparr>)"
  using assms simple_strtol_fmt_d [OF is_s64_s32 [OF assms], of "[LF]"]
  by (simp add: thermal_int_store_def mi_int_store_def mi_int_show_text)

theorem int_attr_roundtrip_witness:
  "is_s32 (- 40) \<and>
   thermal_int_store Ntn_limit (mi_int_show (- 40)) thermal_attrs_init =
     (int (length (fmt_d (- 40))) + 1,
      thermal_attrs_init\<lparr>int_vals := (int_vals thermal_attrs_init)(Ntn_limit := - 40)\<rparr>)"
  using int_attr_roundtrip [of "- 40" Ntn_limit thermal_attrs_init] by (simp add: is_s32_def)

text \<open>A string attribute reads back a clean line: storing a text without NUL, without
  trailing white space and short enough for the 128-byte buffer, followed by the newline
  \<open>echo\<close> appends, makes the next read return that text, keeps the buffers well formed and
  leaves the other string attributes alone.\<close>

theorem string_attr_roundtrip:
  fixes a :: str_attr
  assumes "attrs_wf s" and "NUL \<notin> set txt" and "txt = [] \<or> \<not> isspace (last txt)"
    and "length txt < MI_THERMAL_BUF_LEN - 1"
  defines "s' \<equiv> snd (thermal_string_store a (txt @ [LF]) s)"
  shows "thermal_string_show a s' = txt @ [LF] \<and> attrs_wf s' \<and>
    (\<forall>b. b \<noteq> a \<longrightarrow> str_vals s' b = str_vals s b)"
proof (intro conjI allI impI)
  have "length (str_vals s a) = MI_THERMAL_BUF_LEN" using assms(1) by (simp add: attrs_wf_def)
  then have "cstr (mi_string_store (str_vals s a) (txt @ [LF])) = txt"
    using assms(2-4) by (intro mi_str.read_back) auto
  then show "thermal_string_show a s' = txt @ [LF]"
    using assms(4)
    by (simp add: s'_def thermal_string_show_def thermal_string_store_def mi_string_show_def
        scnprintf_def)
  show "attrs_wf s'" unfolding s'_def using assms(1) by (rule attrs_wf_string_store)
next
  fix b assume "b \<noteq> a"
  then show "str_vals s' b = str_vals s b" by (simp add: s'_def thermal_string_store_def)
qed

theorem string_attr_roundtrip_witness:
  "attrs_wf thermal_attrs_init \<and>
   thermal_string_show Boost (snd (thermal_string_store Boost (''fast'' @ [LF]) thermal_attrs_init))
     = ''fast'' @ [LF]"
  using string_attr_roundtrip [of thermal_attrs_init "''fast''" Boost] attrs_wf_init
  by (simp add: isspace_def)

section \<open>The temperature parser\<close>

lemma c_div_pos: "0 \<le> a \<Longrightarrow> 0 < b \<Longrightarrow> c_div a b = a div b"
  by (cases "a = 0") (auto simp: c_div_def sgn_if)

lemma div_round_closest_pos:
  assumes "0 < x" and "0 < d" and "x + d div 2 \<le> INT_MAX"
  shows "DIV_ROUND_CLOSEST x d = (x + d div 2) div d"
proof -
  have "c_div d 2 = d div 2" using assms by (intro c_div_pos) auto
  moreover have "to_s32 (x + d div 2) = x + d div 2"
    using assms by (intro to_s32_id) (simp add: is_s32_def)
  ultimately show ?thesis
    using assms by (simp add: DIV_ROUND_CLOSEST_def c_div_pos)
qed

lemma fmt_d_not_Nil [simp]: "fmt_d v \<noteq> []"
  by (simp add: fmt_d_def)

lemma parse_temp_fmt_d:
  assumes "is_s32 v"
  shows "mi_thermal_parse_temp (Some (fmt_d v)) =
    (if v \<le> INT_MIN \<or> v = INT_MAX then INT_MIN
     else if v \<ge> 1000 then DIV_ROUND_CLOSEST v 1000
     else if v \<ge> 100 then DIV_ROUND_CLOSEST v 10 else v)"
  using assms kstrtoint_fmt_d [OF assms, of "[]"] by (simp add: mi_thermal_parse_temp_def)

text \<open>C30: The unit guess of the temperature parser. A decimal reading of at least 1000 is
  taken as millidegrees and one of at least 100 as tenths, both rounded to the nearest degree;
  anything smaller, negative readings included, is taken as degrees. This holds for every
  32-bit reading up to the largest that can be rounded without leaving the type.\<close>

theorem parse_temp_units:
  assumes "INT_MIN < v" and "v \<le> 2147483147"
  shows "mi_thermal_parse_temp (Some (fmt_d v)) =
    (if v \<ge> 1000 then (v + 500) div 1000 else if v \<ge> 100 then (v + 5) div 10 else v)"
proof -
  have "is_s32 v" using assms by (simp add: is_s32_def)
  then show ?thesis
    using assms div_round_closest_pos [of v 1000] div_round_closest_pos [of v 10]
    by (simp add: parse_temp_fmt_d)
qed

theorem parse_temp_units_witness:
  "mi_thermal_parse_temp (Some (fmt_d 41600)) = 42 \<and>
   mi_thermal_parse_temp (Some (fmt_d 365)) = 37 \<and>
   mi_thermal_parse_temp (Some (fmt_d (- 5))) = - 5"
  using parse_temp_units [of 41600] parse_temp_units [of 365] parse_temp_units [of "- 5"]
  by simp

text \<open>The rounding overflows for the readings just below \<open>INT_MAX\<close>, which the parser's
  guard against \<open>INT_MAX\<close> itself does not stop: adding half the divisor wraps around and the
  hottest representable readings come out as large negative temperatures.\<close>

theorem parse_temp_overflow:
  assumes "2147483148 \<le> v" and "v < INT_MAX"
  shows "mi_thermal_parse_temp (Some (fmt_d v)) = - 2147483"
proof -
  have v: "is_s32 v" using assms by (simp add: is_s32_def)
  have "to_s32 (v + 500) = v + 500 - 4294967296"
    using assms by (intro to_s32_wrap) simp_all
  moreover have "c_div 1000 2 = 500" by (simp add: c_div_def)
  moreover have "c_div (v + 500 - 4294967296) 1000 = - ((4294967296 - 500 - v) div 1000)"
    using assms by (simp add: c_div_def sgn_if abs_if)
  moreover have "(4294967296 - 500 - v) div 1000 = 2147483"
    using assms by (intro int_div_pos_eq [where r = "4294967296 - 500 - v - 2147483000"]) simp_all
  ultimately show ?thesis
    using assms v by (simp add: parse_temp_fmt_d DIV_ROUND_CLOSEST_def)
qed

theorem parse_temp_overflow_witness:
  "mi_thermal_parse_temp (Some (fmt_d 2147483600)) = - 2147483"
  using parse_temp_overflow [of 2147483600] by simp

lemma c_div_s32:
  assumes "is_s32 x" and "1 < d"
  shows "is_s32 (c_div x d)"
proof -
  have "\<bar>x\<bar> \<le> 2147483648" using assms(1) by (auto simp: is_s32_def)
  then have "\<bar>x\<bar> div d \<le> 2147483648 div 2"
    using zdiv_mono1 [of "\<bar>x\<bar>" 2147483648 d] zdiv_mono2 [of 2147483648 2 d] assms(2) by simp
  moreover have "0 \<le> \<bar>x\<bar> div d" using assms(2) by (simp add: pos_imp_zdiv_nonneg_iff)
  moreover have "\<bar>c_div x d\<bar> \<le> \<bar>x\<bar> div d"
    using assms(2) calculation(2) by (simp add: c_div_def abs_mult abs_sgn_eq)
  ultimately show ?thesis unfolding is_s32_def by linarith
qed

lemma div_round_closest_s32: "1 < d \<Longrightarrow> is_s32 (DIV_ROUND_CLOSEST x d)"
  by (simp add: DIV_ROUND_CLOSEST_def c_div_s32)

lemma INT_MIN_s32 [simp]: "is_s32 INT_MIN"
  by (simp add: is_s32_def)

lemma parse_temp_s32: "is_s32 (mi_thermal_parse_temp b)"
  by (simp add: mi_thermal_parse_temp_def div_round_closest_s32 kstrtoint_s32
      split: option.split sum.split)

text \<open>Printed numbers survive the copy into a buffer: no NUL, no trailing white space.\<close>

lemma fmt_d_clean: "NUL \<notin> set (fmt_d v)" "\<not> isspace (last (fmt_d v))"
proof -
  have d: "isdigit c \<Longrightarrow> c \<noteq> NUL \<and> \<not> isspace c" for c
    by (auto simp: isdigit_def isspace_def)
  have "isdigit (last (num_str 10 n))" for n
    by (rule num_str_digits [of _ n], rule last_in_set) simp
  then show "\<not> isspace (last (fmt_d v))" using d by (simp add: fmt_d_def)
  show "NUL \<notin> set (fmt_d v)" using d num_str_digits by (auto simp: fmt_d_def)
qed

section \<open>The device temperature\<close>

lemma device_temp_ge_battery:
  "mi_thermal_get_battery_temp psy \<le> mi_thermal_get_device_temp psy s"
  by (simp only: mi_thermal_get_device_temp_def Let_def le_max_iff_disj order_refl simp_thms)

lemma device_temp_ge_sensor:
  "a \<noteq> Boost \<Longrightarrow>
     mi_thermal_parse_temp (Some (cstr (str_vals s a))) \<le> mi_thermal_get_device_temp psy s"
  by (cases a)
    (simp_all only: mi_thermal_get_device_temp_def Let_def le_max_iff_disj order_refl simp_thms
      str_attr.distinct not_True_eq_False)

lemma battery_temp_s32: "is_s32 (mi_thermal_get_battery_temp psy)"
  by (simp add: mi_thermal_get_battery_temp_def parse_temp_s32 split: option.split sum.split)

lemma max_mem: "a \<in> A \<Longrightarrow> b \<in> A \<Longrightarrow> max a b \<in> A"
  by (simp add: max_def)

text \<open>The device temperature is the largest of its sources: it is at least each of the
  battery, the two integer attributes and the four sensor strings, it is one of them, and it
  stays in the 32-bit range.\<close>

theorem device_temp_is_max:
  fixes psy :: battery
  assumes "attrs_wf s"
  defines "srcs \<equiv> {mi_thermal_get_battery_temp psy, int_vals s Temp_state,
      int_vals s Display_therm_temp}
    \<union> (\<lambda>a. mi_thermal_parse_temp (Some (cstr (str_vals s a)))) `
        {Board_sensor_temp, Board_sensor_second_temp, Board_sensor_other_temp,
         Ambient_sensor_temp}"
  shows "(\<forall>t \<in> srcs. t \<le> mi_thermal_get_device_temp psy s)
    \<and> mi_thermal_get_device_temp psy s \<in> srcs \<and> is_s32 (mi_thermal_get_device_temp psy s)"
proof -
  let ?t = "mi_thermal_get_device_temp psy s"
  have s32: "\<forall>t \<in> srcs. is_s32 t"
    using assms(1) by (auto simp: srcs_def attrs_wf_def battery_temp_s32 parse_temp_s32)
  have ge: "\<forall>t \<in> srcs. t \<le> ?t"
    by (simp only: srcs_def mi_thermal_get_device_temp_def Let_def le_max_iff_disj ball_Un
        ball_simps image_insert image_empty order_refl simp_thms)
  have "?t \<in> insert INT_MIN srcs"
    unfolding mi_thermal_get_device_temp_def Let_def srcs_def by (intro max_mem) simp_all
  moreover have "INT_MIN \<in> srcs" if "?t = INT_MIN"
  proof -
    have b: "mi_thermal_get_battery_temp psy \<in> srcs" by (simp add: srcs_def)
    then have "mi_thermal_get_battery_temp psy = INT_MIN"
      using ge s32 that by (force simp: is_s32_def)
    then show ?thesis using b by simp
  qed
  ultimately have "?t \<in> srcs" by auto
  then show ?thesis using ge s32 by blast
qed

theorem device_temp_is_max_witness:
  "attrs_wf thermal_attrs_init \<and>
   mi_thermal_get_battery_temp None \<le> mi_thermal_get_device_temp None thermal_attrs_init"
  using device_temp_is_max [of thermal_attrs_init None] attrs_wf_init by blast

lemma battery_temp_small:
  assumes "is_s32 v" and "v < 100" and "v \<noteq> INT_MIN"
  shows "mi_thermal_get_battery_temp (Some (Inr v)) = v"
proof -
  have "scnprintf 16 (fmt_d v) = fmt_d v"
    using length_fmt_d [OF assms(1)] by (simp add: scnprintf_def)
  then show ?thesis
    using assms by (auto simp: mi_thermal_get_battery_temp_def parse_temp_fmt_d is_s32_def)
qed

lemma parse_temp_zero: "mi_thermal_parse_temp (Some ''0'') = 0"
proof -
  have "fmt_d 0 = ''0''" by code_simp
  then show ?thesis using parse_temp_fmt_d [of 0] by (simp add: is_s32_def)
qed

text \<open>A freshly loaded module without a battery reads zero degrees.\<close>

lemma device_temp_init: "mi_thermal_get_device_temp None thermal_attrs_init = 0"
  by (simp add: mi_thermal_get_device_temp_def mi_thermal_get_battery_temp_def
      thermal_attrs_init_def cstr_def parse_temp_zero)

lemma kstrtoint_leading_space:
  assumes "isspace c"
  shows "kstrtoint (c # s) = Inl (- EINVAL)"
proof -
  have c: "c \<noteq> CHR ''0''" "c \<noteq> CHR ''-''" "c \<noteq> CHR ''+''" "digit_val c = None"
    using assms by (auto simp: isspace_def digit_val_def)
  then have "fixup_radix (c # s) = (10, c # s)" by (intro fixup_radix_other) simp_all
  then show ?thesis
    using c by (simp add: kstrtoint_def kstrtoll_def kstrtoull_def kstrtoull_digits_def)
qed

text \<open>Leading white space disables a sensor. \<open>mi_string_store\<close> drops the pointer that
  \<open>strim\<close> returns, so leading blanks stay in the buffer, and the parser then rejects the
  text: a stored reading with a blank in front contributes nothing to the device temperature.\<close>

theorem leading_space_disables_sensor:
  assumes "attrs_wf s" and "isspace c" and "c \<noteq> NUL" and "NUL \<notin> set txt"
    and "txt \<noteq> []" and "\<not> isspace (last txt)" and "length txt < 126"
  shows "mi_thermal_parse_temp (Some (cstr (str_vals
           (snd (thermal_string_store a (c # txt) s)) a))) = INT_MIN"
proof -
  have "length (str_vals s a) = MI_THERMAL_BUF_LEN" using assms(1) by (simp add: attrs_wf_def)
  then have "cstr (mi_string_store (str_vals s a) (c # txt)) = c # txt"
    using assms mi_str.read_back [of "str_vals s a" "c # txt" "[]"] by auto
  then show ?thesis
    using kstrtoint_leading_space [OF assms(2)]
    by (simp add: thermal_string_store_def mi_thermal_parse_temp_def)
qed

theorem leading_space_disables_sensor_witness:
  "mi_thermal_parse_temp (Some (cstr (str_vals
     (snd (thermal_string_store Board_sensor_temp '' 60000'' thermal_attrs_init))
       Board_sensor_temp))) = INT_MIN"
  using leading_space_disables_sensor [of thermal_attrs_init "CHR '' ''" "''60000''" Board_sensor_temp]
    attrs_wf_init by (simp add: isspace_def)

end
