(* ===== verification/Lifecycle.thy ===== *)
theory Lifecycle
  imports Prelude
begin

text \<open>
  Kernel resources and the life of a module. A call that takes a reference, allocates memory,
  registers a device or creates a file is an entry \<open>Get r\<close> of the model's log, its release an
  entry \<open>Put r\<close>. \<open>run_ledger\<close> replays a log from a multiset of held resources: releasing
  something that is not held (a double free, a put without a get) is \<open>None\<close>.

  \<open>staged_init\<close> is the abstract specification of an init routine with a \<open>goto\<close> unwind chain:
  stages are acquired in order, and the first failure releases the earlier ones in reverse.
  The locale \<open>module_lifecycle\<close> is the contract between a module and the loader; its client
  lemma says that any history of loading and unloading leaves nothing behind.
\<close>

section \<open>The ledger\<close>

datatype 'r ev = Get 'r | Put 'r

fun run_ledger :: "'r multiset \<Rightarrow> 'r ev list \<Rightarrow> 'r multiset option" where
  "run_ledger M [] = Some M"
| "run_ledger M (Get r # es) = run_ledger (add_mset r M) es"
| "run_ledger M (Put r # es) = (if r \<in># M then run_ledger (M - {#r#}) es else None)"

definition balanced :: "'r ev list \<Rightarrow> bool" where
  "balanced l \<longleftrightarrow> run_ledger {#} l = Some {#}"

definition holds_exactly :: "'r ev list \<Rightarrow> 'r list \<Rightarrow> bool" where
  "holds_exactly l rs \<longleftrightarrow> run_ledger {#} l = Some (mset rs)"

text \<open>The unwind specification: a stage is a resource and the result of acquiring it.\<close>

fun staged_init :: "'r list \<Rightarrow> ('r \<times> int) list \<Rightarrow> int \<times> 'r ev list" where
  "staged_init done [] = (0, [])"
| "staged_init done ((r, e) # st) =
     (if e \<noteq> 0 then (e, map Put done)
      else (case staged_init (r # done) st of (ret, l) \<Rightarrow> (ret, Get r # l)))"

text \<open>One load attempt: a module whose init fails is not unloaded, one that loads is.\<close>

definition module_cycle ::
  "('env \<Rightarrow> 'st \<Rightarrow> int \<times> 'st) \<Rightarrow> ('st \<Rightarrow> 'st) \<Rightarrow> 'env \<Rightarrow> 'st \<Rightarrow> 'st" where
  "module_cycle init exit e s = (case init e s of (ret, s') \<Rightarrow> if ret = 0 then exit s' else s')"

section \<open>Facts about ledgers\<close>

lemma run_ledger_append [ledger_simps]:
  "run_ledger M (xs @ ys) =
     (case run_ledger M xs of None \<Rightarrow> None | Some M' \<Rightarrow> run_ledger M' ys)"
  by (induction M xs rule: run_ledger.induct) auto

text \<open>A replay that succeeds also succeeds with more held, and holds that much more.\<close>

lemma run_ledger_frame:
  "run_ledger M l = Some N \<Longrightarrow> run_ledger (M + K) l = Some (N + K)"
proof (induction M l rule: run_ledger.induct)
  case (3 M r es)
  then have "r \<in># M" and "run_ledger (M - {#r#} + K) es = Some (N + K)"
    by (auto split: if_splits)
  then show ?case by simp
qed auto

lemma run_ledger_balanced_append:
  assumes "run_ledger {#} xs = Some M" and "balanced l"
  shows "run_ledger {#} (xs @ l) = Some M"
  using assms run_ledger_frame [of "{#}" l "{#}" M]
  by (simp add: run_ledger_append balanced_def)

lemma balanced_append: "balanced xs \<Longrightarrow> balanced ys \<Longrightarrow> balanced (xs @ ys)"
  using run_ledger_balanced_append [of xs "{#}" ys] by (simp add: balanced_def)

lemma balanced_Nil [simp]: "balanced []"
  by (simp add: balanced_def)

lemma run_ledger_puts: "run_ledger (mset rs + M) (map Put rs) = Some M"
  by (induction rs) auto

lemma run_ledger_gets: "run_ledger M (map Get rs) = Some (mset rs + M)"
  by (induction rs arbitrary: M) auto

lemma holds_exactly_balanced: "holds_exactly l [] \<longleftrightarrow> balanced l"
  by (simp add: holds_exactly_def balanced_def)

section \<open>The unwind specification is correct\<close>

text \<open>Whatever stage fails, the stages before it are released, and nothing else is.\<close>

lemma staged_init_ledger:
  "staged_init done st = (ret, l) \<Longrightarrow>
     run_ledger (mset done) l =
       Some (if ret = 0 then mset done + mset (map fst st) else {#})"
proof (induction "done" st arbitrary: ret l rule: staged_init.induct)
  case (1 "done")
  then show ?case by simp
next
  case (2 "done" r e st)
  show ?case
  proof (cases "e \<noteq> 0")
    case True
    then show ?thesis using "2.prems" run_ledger_puts [of "done" "{#}"] by auto
  next
    case False
    with "2.prems" obtain l' where "staged_init (r # done) st = (ret, l')" and "l = Get r # l'"
      by (auto split: prod.splits)
    then show ?thesis using "2.IH" [of ret l'] False by auto
  qed
qed

lemma staged_init_fail_balanced: "staged_init [] st = (ret, l) \<Longrightarrow> ret \<noteq> 0 \<Longrightarrow> balanced l"
  using staged_init_ledger [of "[]" st ret l] by (simp add: balanced_def)

lemma staged_init_ok: "staged_init [] st = (0, l) \<Longrightarrow> holds_exactly l (map fst st)"
  using staged_init_ledger [of "[]" st 0 l] by (simp add: holds_exactly_def)

lemma staged_init_ret: "fst (staged_init done st) = 0 \<longleftrightarrow> (\<forall>x \<in> set st. snd x = 0)"
  by (induction "done" st rule: staged_init.induct) (simp_all add: case_prod_beta)

section \<open>The contract between a module and the loader\<close>

locale module_lifecycle =
  fixes init :: "'env \<Rightarrow> 'st \<Rightarrow> int \<times> 'st"
    and exit :: "'st \<Rightarrow> 'st"
    and log :: "'st \<Rightarrow> 'r ev list"
    and idle :: "'st \<Rightarrow> bool"
  assumes failed_load:
      "idle s \<Longrightarrow> init e s = (ret, s') \<Longrightarrow> ret \<noteq> 0 \<Longrightarrow>
         idle s' \<and> (\<exists>l. log s' = log s @ l \<and> balanced l)"
    and load_unload:
      "idle s \<Longrightarrow> init e s = (0, s') \<Longrightarrow>
         idle (exit s') \<and> (\<exists>l. log (exit s') = log s @ l \<and> balanced l)"
begin

lemma cycle_keeps:
  assumes "idle s" and "balanced (log s)"
  shows "idle (module_cycle init exit e s) \<and> balanced (log (module_cycle init exit e s))"
proof -
  obtain ret s' where i: "init e s = (ret, s')" by fastforce
  then show ?thesis
    using assms failed_load [OF assms(1) i] load_unload [OF assms(1), of e s']
    by (cases "ret = 0") (auto simp: module_cycle_def intro: balanced_append)
qed

lemma history_clean:
  assumes "idle s" and "balanced (log s)"
  shows "idle (fold (module_cycle init exit) es s)
       \<and> balanced (log (fold (module_cycle init exit) es s))"
  using assms by (induction es arbitrary: s) (auto dest: cycle_keeps)

end

end
