(* ===== verification/Thermal_Cpufreq.thy ===== *)
theory Thermal_Cpufreq
  imports Thermal_Temp Lifecycle
begin

text \<open>
  The CPU frequency caps of \<open>mi_thermal_interface.c\<close>: the per-CPU \<open>cpufreq_device\<close>s, the
  frequency table built for each from the policy's table, \<open>cpufreq_set_level\<close>,
  \<open>cpu_limits_set_level\<close> and the \<open>cpu_limits\<close> sysfs file, and the setup and teardown of the
  device list.

  A read of \<open>freq_table[i]\<close> through a NULL pointer or out of bounds, and a test of a bit beyond
  the end of a CPU mask, is \<open>None\<close>, so the absence of such a fault is something to prove. \<open>WARN_ON\<close> and the calls of \<open>freq_qos_update_request\<close> are
  recorded in a trace; what the latter returns is the parameter \<open>qos\<close>.
\<close>

section \<open>Devices\<close>

text \<open>A CPU mask: the CPUs whose bits are set and the number of bits its storage has.\<close>

record cpumask =
  mask_cpus :: "nat list"
  mask_bits :: nat

definition cpumask_test_cpu :: "nat \<Rightarrow> cpumask \<Rightarrow> bool option" where
  "cpumask_test_cpu cpu m = (if cpu < mask_bits m then Some (cpu \<in> set (mask_cpus m)) else None)"

record cpufreq_policy =
  pol_cpu :: nat
  related_cpus :: cpumask
  pol_freq_table :: "u32 list"

record cpufreq_device =
  dev_id :: nat
  cpufreq_state :: u32
  max_level :: u32
  freq_table :: "u32 list option"
  policy :: "cpufreq_policy option"
  qos_req :: nat

datatype cap_event = Warn_on | Qos_update nat u32

type_synonym qos_update = "nat \<Rightarrow> u32 \<Rightarrow> int"

definition freq_at :: "u32 list option \<Rightarrow> nat \<Rightarrow> u32 option" where
  "freq_at tab i =
     (case tab of None \<Rightarrow> None | Some t \<Rightarrow> if i < length t then Some (t ! i) else None)"

definition cpufreq_set_level ::
  "qos_update \<Rightarrow> cpufreq_device \<Rightarrow> nat \<Rightarrow> (int \<times> cpufreq_device \<times> cap_event list) option" where
  "cpufreq_set_level qos cdev state =
     (if unat (max_level cdev) < state then Some (- EINVAL, cdev, [Warn_on])
      else if unat (cpufreq_state cdev) = state then Some (0, cdev, [])
      else (case freq_at (freq_table cdev) state of
              None \<Rightarrow> None
            | Some f \<Rightarrow> Some (qos (qos_req cdev) f, cdev\<lparr>cpufreq_state := of_nat state\<rparr>,
                             [Qos_update (qos_req cdev) f])))"

section \<open>Module parameters\<close>

record cpu_limits_params =
  cpu_limits_enable :: bool
  cpu_limits_floor_pct :: u32
  cpu_limits_hot_floor_pct :: u32
  cpu_limits_crit_floor_pct :: u32
  cpu_limits_hot_temp :: u32
  cpu_limits_crit_temp :: u32
  cpu_limits_max_step :: u32

definition cpu_limits_defaults :: cpu_limits_params where
  "cpu_limits_defaults =
     \<lparr>cpu_limits_enable = True, cpu_limits_floor_pct = 92, cpu_limits_hot_floor_pct = 85,
      cpu_limits_crit_floor_pct = 75, cpu_limits_hot_temp = 47, cpu_limits_crit_temp = 53,
      cpu_limits_max_step = 1\<rparr>"

definition cpu_limits_effective_floor_pct :: "cpu_limits_params \<Rightarrow> int \<Rightarrow> u32" where
  "cpu_limits_effective_floor_pct p temp =
     (if temp \<ge> sint (cpu_limits_crit_temp p) then cpu_limits_crit_floor_pct p
      else if temp \<ge> sint (cpu_limits_hot_temp p) then cpu_limits_hot_floor_pct p
      else cpu_limits_floor_pct p)"

section \<open>Setting a cap\<close>

text \<open>The request after the floor has been applied; NULL tables have none.\<close>

definition apply_floor :: "u32 list option \<Rightarrow> u32 \<Rightarrow> u32 \<Rightarrow> u32 option" where
  "apply_floor tab floor_pct max_freq =
     (case tab of
        None \<Rightarrow> Some max_freq
      | Some _ \<Rightarrow>
          (case freq_at tab 0 of
             None \<Rightarrow> None
           | Some f0 \<Rightarrow>
               let floor_freq = mult_frac f0 (min floor_pct 100) 100
               in Some (if max_freq < floor_freq then floor_freq else max_freq)))"

text \<open>The loop over the levels, from \<open>level\<close> on: \<open>Some None\<close> when no level is low enough.\<close>

function first_level :: "u32 list option \<Rightarrow> nat \<Rightarrow> u32 \<Rightarrow> nat \<Rightarrow> nat option option" where
  "first_level tab mx f level =
     (if mx < level then Some None
      else (case freq_at tab level of
              None \<Rightarrow> None
            | Some target_freq \<Rightarrow>
                if f \<ge> target_freq then Some (Some level) else first_level tab mx f (Suc level)))"
  by pat_completeness auto
termination
  by (relation "measure (\<lambda>(tab, mx, f, level). Suc mx - level)") auto

declare first_level.simps [simp del]

text \<open>Below the hot temperature a cap deepens by at most \<open>cpu_limits_max_step\<close> per update.\<close>

definition limit_step :: "cpu_limits_params \<Rightarrow> int \<Rightarrow> cpufreq_device \<Rightarrow> nat \<Rightarrow> nat" where
  "limit_step p device_temp dev level =
     (if cpu_limits_max_step p \<noteq> 0 \<and> device_temp < sint (cpu_limits_hot_temp p) \<and>
         of_nat level > cpufreq_state dev + cpu_limits_max_step p
      then unat (cpufreq_state dev + cpu_limits_max_step p) else level)"

text \<open>The body of the list walk for the device that covers the CPU.\<close>

definition cpu_limits_device ::
  "cpu_limits_params \<Rightarrow> int \<Rightarrow> qos_update \<Rightarrow> u32 \<Rightarrow> cpufreq_device \<Rightarrow>
     (int \<times> cpufreq_device \<times> cap_event list) option" where
  "cpu_limits_device p device_temp qos max_freq dev =
     (if max_freq = 0 then cpufreq_set_level qos dev 0
      else
        (case apply_floor (freq_table dev) (cpu_limits_effective_floor_pct p device_temp) max_freq of
           None \<Rightarrow> None
         | Some mf \<Rightarrow>
             (case first_level (freq_table dev) (unat (max_level dev)) mf 0 of
                None \<Rightarrow> None
              | Some None \<Rightarrow> cpufreq_set_level qos dev (unat (max_level dev))
              | Some (Some level) \<Rightarrow>
                  (case cpufreq_set_level qos dev (limit_step p device_temp dev level) of
                     None \<Rightarrow> None
                   | Some (ret, dev', evs) \<Rightarrow>
                       if ret = - ENODEV
                       then (case cpufreq_set_level qos dev' (unat (max_level dev')) of
                               None \<Rightarrow> None
                             | Some (ret', dev'', evs') \<Rightarrow> Some (ret', dev'', evs @ evs'))
                       else Some (ret, dev', evs)))))"

definition covers :: "cpufreq_device \<Rightarrow> nat \<Rightarrow> bool option" where
  "covers dev cpu =
     (case policy dev of
        None \<Rightarrow> Some False
      | Some pol \<Rightarrow> cpumask_test_cpu cpu (related_cpus pol))"

fun cpu_limits_walk ::
  "cpu_limits_params \<Rightarrow> int \<Rightarrow> qos_update \<Rightarrow> nat \<Rightarrow> u32 \<Rightarrow> cpufreq_device list \<Rightarrow>
     (int \<times> cpufreq_device list \<times> cap_event list) option" where
  "cpu_limits_walk p t qos cpu max_freq [] = Some (- ENODEV, [], [])"
| "cpu_limits_walk p t qos cpu max_freq (d # ds) =
     (case covers d cpu of
        None \<Rightarrow> None
      | Some True \<Rightarrow>
          map_option (\<lambda>(ret, d', evs). (ret, d' # ds, evs)) (cpu_limits_device p t qos max_freq d)
      | Some False \<Rightarrow>
          map_option (\<lambda>(ret, ds', evs). (ret, d # ds', evs))
            (cpu_limits_walk p t qos cpu max_freq ds))"

definition cpu_limits_set_level ::
  "cpu_limits_params \<Rightarrow> battery \<Rightarrow> thermal_attrs \<Rightarrow> qos_update \<Rightarrow> nat \<Rightarrow> u32 \<Rightarrow>
     cpufreq_device list \<Rightarrow> (int \<times> cpufreq_device list \<times> cap_event list) option" where
  "cpu_limits_set_level p psy attrs qos cpu max_freq devs =
     (if \<not> cpu_limits_enable p then Some (0, devs, [])
      else cpu_limits_walk p (mi_thermal_get_device_temp psy attrs) qos cpu max_freq devs)"

text \<open>The sysfs file \<open>cpu_limits\<close>.\<close>

definition cpu_limits_show :: string where
  "cpu_limits_show = scnprintf PAGE_SIZE (''cpu'' @ fmt_u 0 @ '' '' @ fmt_u 4294967295 @ [LF])"

definition cpu_limits_fmt :: "scan_item list" where
  "cpu_limits_fmt = [Lit (CHR ''c''), Lit (CHR ''p''), Lit (CHR ''u''), Uint, White, Uint]"

definition cpu_limits_parse :: "string \<Rightarrow> (nat \<times> u32) option" where
  "cpu_limits_parse buf =
     (case sscanf cpu_limits_fmt buf of
        [cpu, freq] \<Rightarrow> Some (unat cpu, freq)
      | _ \<Rightarrow> (case sscanf [Uint, White, Uint] buf of
                [cpu, freq] \<Rightarrow> Some (unat cpu, freq)
              | _ \<Rightarrow> None))"

definition cpu_limits_store ::
  "cpu_limits_params \<Rightarrow> battery \<Rightarrow> thermal_attrs \<Rightarrow> qos_update \<Rightarrow> string \<Rightarrow>
     cpufreq_device list \<Rightarrow> (int \<times> cpufreq_device list \<times> cap_event list) option" where
  "cpu_limits_store p psy attrs qos buf devs =
     (case cpu_limits_parse buf of
        None \<Rightarrow> Some (- EINVAL, devs, [])
      | Some (cpu, freq) \<Rightarrow>
          if \<not> cpu_limits_enable p then Some (int (length buf), devs, [])
          else map_option (\<lambda>(_, devs', evs). (int (length buf), devs', evs))
                 (cpu_limits_set_level p psy attrs qos cpu freq devs))"

section \<open>Setup and teardown\<close>

abbreviation CPUFREQ_ENTRY_INVALID :: u32 where "CPUFREQ_ENTRY_INVALID \<equiv> 4294967295"

definition valid_entries :: "u32 list \<Rightarrow> u32 list" where
  "valid_entries table = filter (\<lambda>f. f \<noteq> CPUFREQ_ENTRY_INVALID) table"

text \<open>\<open>find_next_max\<close>: the scan keeps the largest valid frequency below \<open>prev_max\<close>, 0 if none.\<close>

definition find_next_max :: "u32 list \<Rightarrow> u32 \<Rightarrow> u32" where
  "find_next_max table prev_max =
     fold (\<lambda>pos mx. if pos > mx \<and> pos < prev_max then pos else mx) (valid_entries table) 0"

text \<open>The loop that fills \<open>freq_table\<close> with \<open>n\<close> entries.\<close>

fun fill_table :: "u32 list \<Rightarrow> nat \<Rightarrow> u32 \<Rightarrow> u32 list" where
  "fill_table table 0 freq = []"
| "fill_table table (Suc n) freq =
     (let f = find_next_max table freq in f # fill_table table n f)"

datatype freq_res = Policy_ref nat | Dev_mem nat | Table_mem nat | Qos_req nat

text \<open>What the kernel answers while the devices are set up.\<close>

record cpufreq_env =
  possible_cpus :: "nat list"
  cpufreq_cpu_get :: "nat \<Rightarrow> cpufreq_policy option"
  kzalloc_ok :: "nat \<Rightarrow> bool"
  kmalloc_ok :: "nat \<Rightarrow> bool"
  freq_qos_add_request :: "nat \<Rightarrow> u32 \<Rightarrow> int"

record cpufreq_sys =
  cpufreq_dev_list :: "cpufreq_device list"
  freq_log :: "freq_res ev list"

text \<open>One iteration of the loop over the possible CPUs; \<open>Inl\<close> is a return from the function.\<close>

definition init_cpufreq_cpu ::
  "cpufreq_env \<Rightarrow> nat \<Rightarrow> cpufreq_sys \<Rightarrow> (int + int) \<times> cpufreq_sys" where
  "init_cpufreq_cpu env cpu s =
     (case cpufreq_cpu_get env cpu of
        None \<Rightarrow> (Inl (- ESRCH), s)
      | Some pol \<Rightarrow>
          let n = length (valid_entries (pol_freq_table pol));
              got = freq_log s @ [Get (Policy_ref cpu)]
          in if n = 0 then (Inl (- ENODEV), s\<lparr>freq_log := got @ [Put (Policy_ref cpu)]\<rparr>)
             else if \<not> kzalloc_ok env cpu
             then (Inl (- ENOMEM), s\<lparr>freq_log := got @ [Put (Policy_ref cpu)]\<rparr>)
             else if \<not> kmalloc_ok env cpu
             then (Inl (- ENOMEM),
                   s\<lparr>freq_log := got @ [Get (Dev_mem cpu), Put (Policy_ref cpu), Put (Dev_mem cpu)]\<rparr>)
             else
               let tab = fill_table (pol_freq_table pol) n 4294967295;
                   ret = freq_qos_add_request env cpu (tab ! 0);
                   mem = got @ [Get (Dev_mem cpu), Get (Table_mem cpu)]
               in if ret < 0
                  then (Inl ret, s\<lparr>freq_log :=
                          mem @ [Put (Policy_ref cpu), Put (Table_mem cpu), Put (Dev_mem cpu)]\<rparr>)
                  else (Inr ret,
                        s\<lparr>cpufreq_dev_list :=
                            \<lparr>dev_id = pol_cpu pol, cpufreq_state = 0, max_level = of_nat (n - 1),
                             freq_table = Some tab, policy = Some pol, qos_req = cpu\<rparr>
                            # cpufreq_dev_list s,
                          freq_log := mem @ [Get (Qos_req cpu)]\<rparr>))"

fun init_cpufreq_cpus ::
  "cpufreq_env \<Rightarrow> nat list \<Rightarrow> int \<Rightarrow> cpufreq_sys \<Rightarrow> int \<times> cpufreq_sys" where
  "init_cpufreq_cpus env [] ret s = (ret, s)"
| "init_cpufreq_cpus env (cpu # cpus) ret s =
     (case init_cpufreq_cpu env cpu s of
        (Inl err, s') \<Rightarrow> (err, s')
      | (Inr ret', s') \<Rightarrow> init_cpufreq_cpus env cpus ret' s')"

definition mi_thermal_init_cpufreq :: "cpufreq_env \<Rightarrow> cpufreq_sys \<Rightarrow> int \<times> cpufreq_sys" where
  "mi_thermal_init_cpufreq env s = init_cpufreq_cpus env (possible_cpus env) 0 s"

definition release_device :: "cpufreq_device \<Rightarrow> freq_res ev list" where
  "release_device d =
     Put (Qos_req (qos_req d)) # (if policy d \<noteq> None then [Put (Policy_ref (qos_req d))] else [])
     @ (if freq_table d \<noteq> None then [Put (Table_mem (qos_req d))] else []) @ [Put (Dev_mem (qos_req d))]"

definition mi_thermal_destroy_cpufreq :: "cpufreq_sys \<Rightarrow> cpufreq_sys" where
  "mi_thermal_destroy_cpufreq s =
     s\<lparr>cpufreq_dev_list := [],
       freq_log := freq_log s @ concat (map release_device (cpufreq_dev_list s))\<rparr>"

section \<open>Well-formed devices\<close>

definition dev_wf :: "cpufreq_device \<Rightarrow> bool" where
  "dev_wf d \<longleftrightarrow>
     (\<exists>t. freq_table d = Some t \<and> length t = Suc (unat (max_level d)) \<and>
          sorted_wrt (\<ge>) t) \<and>
     cpufreq_state d \<le> max_level d"

abbreviation tab :: "cpufreq_device \<Rightarrow> u32 list" where
  "tab d \<equiv> the (freq_table d)"

text \<open>The abstract choice: the largest table frequency within the cap, else the smallest.\<close>

definition cap_for :: "u32 list \<Rightarrow> u32 \<Rightarrow> u32" where
  "cap_for t cap =
     (if \<exists>f \<in> set t. f \<le> cap then Max {f \<in> set t. f \<le> cap} else Min (set t))"

section \<open>Facts about single devices\<close>

lemma freq_at_wf: "dev_wf d \<Longrightarrow> i \<le> unat (max_level d) \<Longrightarrow> freq_at (freq_table d) i = Some (tab d ! i)"
  by (auto simp: dev_wf_def freq_at_def)

lemma dev_wf_state: "dev_wf d \<Longrightarrow> l \<le> max_level d \<Longrightarrow> dev_wf (d\<lparr>cpufreq_state := l\<rparr>)"
  by (simp add: dev_wf_def)

lemma of_nat_le_u32: "n \<le> unat (m::u32) \<Longrightarrow> (of_nat n :: u32) \<le> m"
  by (metis le_unat_uoi word_le_nat_alt)

lemma unat_of_nat_u32: "n \<le> unat (m::u32) \<Longrightarrow> unat (of_nat n :: u32) = n"
  by (rule le_unat_uoi)

text \<open>A level in range is set without a fault or a warning.\<close>

lemma set_level_ok:
  assumes "dev_wf d" and "st \<le> unat (max_level d)"
  shows "cpufreq_set_level qos d st =
    Some (if unat (cpufreq_state d) = st then 0 else qos (qos_req d) (tab d ! st),
          d\<lparr>cpufreq_state := of_nat st\<rparr>,
          if unat (cpufreq_state d) = st then [] else [Qos_update (qos_req d) (tab d ! st)])"
  using assms by (auto simp: cpufreq_set_level_def freq_at_wf)

lemma first_level_spec:
  assumes "length t = Suc mx"
  obtains r where "first_level (Some t) mx f lv = Some r"
    and "case r of
           None \<Rightarrow> \<forall>i. lv \<le> i \<and> i \<le> mx \<longrightarrow> f < t ! i
         | Some l \<Rightarrow> lv \<le> l \<and> l \<le> mx \<and> t ! l \<le> f \<and> (\<forall>i. lv \<le> i \<and> i < l \<longrightarrow> f < t ! i)"
proof -
  have "\<exists>r. first_level (Some t) mx f lv = Some r \<and>
    (case r of
       None \<Rightarrow> \<forall>i. lv \<le> i \<and> i \<le> mx \<longrightarrow> f < t ! i
     | Some l \<Rightarrow> lv \<le> l \<and> l \<le> mx \<and> t ! l \<le> f \<and> (\<forall>i. lv \<le> i \<and> i < l \<longrightarrow> f < t ! i))"
    using assms
  proof (induction "Suc mx - lv" arbitrary: lv)
    case 0
    then show ?case by (subst first_level.simps) auto
  next
    case (Suc n)
    then have lv: "lv \<le> mx" by simp
    have at: "freq_at (Some t) lv = Some (t ! lv)" using lv Suc.prems by (simp add: freq_at_def)
    show ?case
    proof (cases "t ! lv \<le> f")
      case True
      then show ?thesis using lv at by (subst first_level.simps) auto
    next
      case False
      have "n = Suc mx - Suc lv" using Suc.hyps(2) by simp
      from Suc.hyps(1) [OF this Suc.prems] obtain r where r: "first_level (Some t) mx f (Suc lv) = Some r"
        and c: "case r of
           None \<Rightarrow> \<forall>i. Suc lv \<le> i \<and> i \<le> mx \<longrightarrow> f < t ! i
         | Some l \<Rightarrow> Suc lv \<le> l \<and> l \<le> mx \<and> t ! l \<le> f \<and> (\<forall>i. Suc lv \<le> i \<and> i < l \<longrightarrow> f < t ! i)"
        by blast
      have "f < t ! i" if "lv \<le> i" and "Suc lv \<le> i \<Longrightarrow> f < t ! i" for i
        using that False by (cases "i = lv") auto
      then show ?thesis
        using r c False lv at by (subst first_level.simps) (auto split: option.splits)
    qed
  qed
  then show ?thesis using that by blast
qed

lemma floor_ok:
  assumes "dev_wf d"
  shows "apply_floor (freq_table d) pct mf =
    Some (max mf (mult_frac (tab d ! 0) (min pct 100) 100))"
proof -
  have "freq_at (freq_table d) 0 = Some (tab d ! 0)" using assms by (simp add: freq_at_wf)
  moreover have "freq_table d \<noteq> None" using assms by (auto simp: dev_wf_def)
  ultimately show ?thesis by (auto simp: apply_floor_def Let_def max_def)
qed

lemma limit_step_le:
  assumes "level \<le> unat (m :: u32)"
  shows "limit_step p t d level \<le> level"
proof (cases "limit_step p t d level = level")
  case False
  then have "of_nat level > cpufreq_state d + cpu_limits_max_step p"
    and "limit_step p t d level = unat (cpufreq_state d + cpu_limits_max_step p)"
    by (auto simp: limit_step_def split: if_splits)
  then show ?thesis
    using unat_of_nat_u32 [OF assms] by (simp add: word_less_nat_alt)
qed simp

text \<open>
  The level a device is sent to, when the quality-of-service call does not report \<open>-ENODEV\<close>:
  the first level within the floored request, held back by the step limit, or the last level
  when none is low enough.
\<close>

definition floored :: "cpu_limits_params \<Rightarrow> int \<Rightarrow> u32 \<Rightarrow> cpufreq_device \<Rightarrow> u32" where
  "floored p t mf d =
     max mf (mult_frac (tab d ! 0) (min (cpu_limits_effective_floor_pct p t) 100) 100)"

definition chosen_level :: "cpu_limits_params \<Rightarrow> int \<Rightarrow> u32 \<Rightarrow> cpufreq_device \<Rightarrow> nat \<Rightarrow> bool" where
  "chosen_level p t mf d l \<longleftrightarrow>
     (if mf = 0 then l = 0
      else (l = unat (max_level d) \<and> (\<forall>i \<le> unat (max_level d). floored p t mf d < tab d ! i)) \<or>
        (\<exists>l0 \<le> unat (max_level d). tab d ! l0 \<le> floored p t mf d \<and>
           (\<forall>i < l0. floored p t mf d < tab d ! i) \<and> l = limit_step p t d l0))"

text \<open>What the level loop comes to on a well-formed device, for any answer of the
  quality-of-service framework: the fallback when every level is above the floored request,
  else the first level that is not, cut by the step limit.\<close>

lemma level_choice:
  assumes wf: "dev_wf d" and mf: "mf \<noteq> 0"
  obtains (fallback) "\<forall>i \<le> unat (max_level d). floored p t mf d < tab d ! i"
      and "cpu_limits_device p t qos mf d = cpufreq_set_level qos d (unat (max_level d))"
    | (level) l0 where "l0 \<le> unat (max_level d)" and "tab d ! l0 \<le> floored p t mf d"
      and "\<forall>i < l0. floored p t mf d < tab d ! i" and "limit_step p t d l0 \<le> unat (max_level d)"
      and "cpu_limits_device p t qos mf d =
        (case cpufreq_set_level qos d (limit_step p t d l0) of
           None \<Rightarrow> None
         | Some (ret, d', evs) \<Rightarrow>
             if ret = - ENODEV
             then (case cpufreq_set_level qos d' (unat (max_level d')) of
                     None \<Rightarrow> None
                   | Some (ret', d'', evs') \<Rightarrow> Some (ret', d'', evs @ evs'))
             else Some (ret, d', evs))"
proof -
  let ?cap = "floored p t mf d"
  have fl: "apply_floor (freq_table d) (cpu_limits_effective_floor_pct p t) mf = Some ?cap"
    using floor_ok [OF wf] by (simp add: floored_def)
  from wf obtain ft where ft: "freq_table d = Some ft" "length ft = Suc (unat (max_level d))"
    by (auto simp: dev_wf_def)
  obtain r where r: "first_level (Some ft) (unat (max_level d)) ?cap 0 = Some r"
    and c: "case r of
        None \<Rightarrow> \<forall>i. 0 \<le> i \<and> i \<le> unat (max_level d) \<longrightarrow> ?cap < ft ! i
      | Some l \<Rightarrow> 0 \<le> l \<and> l \<le> unat (max_level d) \<and> ft ! l \<le> ?cap \<and>
          (\<forall>i. 0 \<le> i \<and> i < l \<longrightarrow> ?cap < ft ! i)"
    using first_level_spec [OF ft(2), of ?cap 0] by blast
  show ?thesis
  proof (cases r)
    case None
    then show ?thesis using fallback mf ft(1) r c fl by (simp add: cpu_limits_device_def)
  next
    case (Some l0)
    then show ?thesis
      using level [of l0] mf ft(1) r c fl limit_step_le [of l0 "max_level d" p t d]
      by (simp add: cpu_limits_device_def)
  qed
qed

lemma device_result:
  assumes wf: "dev_wf d" and nodev: "\<And>r f. qos r f \<noteq> - ENODEV"
  obtains l where "l \<le> unat (max_level d)"
    and "cpu_limits_device p t qos mf d =
      Some (if unat (cpufreq_state d) = l then 0 else qos (qos_req d) (tab d ! l),
            d\<lparr>cpufreq_state := of_nat l\<rparr>,
            if unat (cpufreq_state d) = l then [] else [Qos_update (qos_req d) (tab d ! l)])"
    and "chosen_level p t mf d l"
proof (cases "mf = 0")
  case True
  then show ?thesis
    using that [of 0] set_level_ok [OF wf, of 0 qos]
    by (simp add: cpu_limits_device_def chosen_level_def)
next
  case False
  with wf show ?thesis
  proof (cases rule: level_choice [where p = p and t = t and qos = qos])
    case fallback
    then show ?thesis
      using that [of "unat (max_level d)"] set_level_ok [OF wf, of "unat (max_level d)" qos] False
      by (auto simp: chosen_level_def)
  next
    case (level l0)
    have "(if unat (cpufreq_state d) = limit_step p t d l0 then 0
           else qos (qos_req d) (tab d ! limit_step p t d l0)) \<noteq> - ENODEV"
      using nodev by simp
    then have "cpu_limits_device p t qos mf d = cpufreq_set_level qos d (limit_step p t d l0)"
      unfolding level(5) by (simp add: set_level_ok [OF wf level(4)])
    moreover have "chosen_level p t mf d (limit_step p t d l0)"
      using level(1-3) False by (auto simp: chosen_level_def)
    ultimately show ?thesis
      using that [of "limit_step p t d l0"] level(4) by (simp add: set_level_ok [OF wf level(4)])
  qed
qed

lemma cap_for_first:
  assumes "sorted_wrt (\<ge>) t" and "l < length t" and "t ! l \<le> cap" and "\<forall>i < l. cap < t ! i"
  shows "cap_for t cap = t ! l"
proof -
  have "f \<le> t ! l" if "f \<in> set t" "f \<le> cap" for f
  proof -
    from that(1) obtain i where i: "i < length t" "f = t ! i" by (auto simp: in_set_conv_nth)
    then have "\<not> i < l" using that(2) assms(4) by auto
    then show ?thesis using sorted_wrt_nth_less [OF assms(1), of l i] i by (cases "i = l") auto
  qed
  then have "Max {f \<in> set t. f \<le> cap} = t ! l"
    using assms(2,3) by (intro Max_eqI) auto
  then show ?thesis using assms(2,3) nth_mem by (auto simp: cap_for_def)
qed

lemma cap_for_none:
  assumes "sorted_wrt (\<ge>) t" and "length t = Suc m" and "\<forall>i \<le> m. cap < t ! i"
  shows "cap_for t cap = t ! m"
proof -
  have "t ! m \<le> f" if "f \<in> set t" for f
  proof -
    from that obtain i where i: "i < length t" "f = t ! i" by (auto simp: in_set_conv_nth)
    then show ?thesis using sorted_wrt_nth_less [OF assms(1), of i m] assms(2) by (cases "i = m") auto
  qed
  then have "Min (set t) = t ! m" using assms(2) by (intro Min_eqI) auto
  moreover have "\<not> (\<exists>f \<in> set t. f \<le> cap)"
    using assms(2,3) by (auto simp: in_set_conv_nth less_Suc_eq_le not_le)
  ultimately show ?thesis by (simp add: cap_for_def)
qed

lemma nth_table_state:
  "l \<le> unat (max_level d) \<Longrightarrow> unat (cpufreq_state (d\<lparr>cpufreq_state := of_nat l\<rparr>)) = l"
  by (simp add: unat_of_nat_u32)

text \<open>No answer of the quality-of-service framework makes a well-formed device fault or warn.\<close>

lemma device_safe:
  assumes wf: "dev_wf d"
  obtains ret d' evs where "cpu_limits_device p t qos mf d = Some (ret, d', evs)"
    and "dev_wf d'" and "Warn_on \<notin> set evs" and "d' = d\<lparr>cpufreq_state := cpufreq_state d'\<rparr>"
proof -
  have set_ok: "\<exists>ret l evs. cpufreq_set_level qos (d\<lparr>cpufreq_state := k\<rparr>) st =
        Some (ret, d\<lparr>cpufreq_state := l\<rparr>, evs) \<and> l \<le> max_level d \<and> Warn_on \<notin> set evs"
    if "st \<le> unat (max_level d)" and "k \<le> max_level d" for st k
    using that set_level_ok [OF dev_wf_state [OF wf that(2)], of st qos] of_nat_le_u32 [OF that(1)]
    by auto
  have st0: "cpufreq_state d \<le> max_level d" using wf by (simp add: dev_wf_def)
  have d0: "d\<lparr>cpufreq_state := cpufreq_state d\<rparr> = d" by simp
  have "\<exists>ret l evs. cpu_limits_device p t qos mf d = Some (ret, d\<lparr>cpufreq_state := l\<rparr>, evs) \<and>
      l \<le> max_level d \<and> Warn_on \<notin> set evs"
  proof (cases "mf = 0")
    case True
    then show ?thesis using set_ok [OF _ st0, of 0] d0 by (simp add: cpu_limits_device_def)
  next
    case False
    with wf show ?thesis
    proof (cases rule: level_choice [where p = p and t = t and qos = qos])
      case fallback
      then show ?thesis using set_ok [OF le_refl st0] d0 by simp
    next
      case (level l0)
      from set_ok [OF level(4) st0] obtain ret l evs where
        1: "cpufreq_set_level qos d (limit_step p t d l0) =
              Some (ret, d\<lparr>cpufreq_state := l\<rparr>, evs)" "l \<le> max_level d" "Warn_on \<notin> set evs"
        using d0 by auto
      from set_ok [OF le_refl 1(2)] obtain ret' l' evs' where
        2: "cpufreq_set_level qos (d\<lparr>cpufreq_state := l\<rparr>) (unat (max_level d)) =
              Some (ret', d\<lparr>cpufreq_state := l'\<rparr>, evs')" "l' \<le> max_level d" "Warn_on \<notin> set evs'"
        by auto
      show ?thesis unfolding level(5) using 1 2 by auto
    qed
  qed
  then show ?thesis using that dev_wf_state [OF wf] by fastforce
qed

section \<open>The list of devices\<close>

definition mask_ok :: "nat \<Rightarrow> cpufreq_device \<Rightarrow> bool" where
  "mask_ok cpu d \<longleftrightarrow> (case policy d of None \<Rightarrow> True | Some pol \<Rightarrow> cpu < mask_bits (related_cpus pol))"

lemma covers_mask_ok: "mask_ok cpu d \<Longrightarrow> \<exists>b. covers d cpu = Some b"
  by (auto simp: mask_ok_def covers_def cpumask_test_cpu_def split: option.splits)

lemma walk_none:
  "\<forall>d \<in> set devs. covers d cpu = Some False \<Longrightarrow>
     cpu_limits_walk p t qos cpu mf devs = Some (- ENODEV, devs, [])"
  by (induction devs) auto

lemma walk_first:
  "\<forall>x \<in> set pre. covers x cpu = Some False \<Longrightarrow> covers d cpu = Some True \<Longrightarrow>
     cpu_limits_walk p t qos cpu mf (pre @ d # post) =
       map_option (\<lambda>(ret, d', evs). (ret, pre @ d' # post, evs)) (cpu_limits_device p t qos mf d)"
  by (cases "cpu_limits_device p t qos mf d") (induction pre, auto)+

lemma split_covering:
  assumes "\<forall>d \<in> set devs. mask_ok cpu d"
  shows "(\<forall>d \<in> set devs. covers d cpu = Some False) \<or>
    (\<exists>pre d post. devs = pre @ d # post \<and> (\<forall>x \<in> set pre. covers x cpu = Some False) \<and>
       covers d cpu = Some True)"
  using assms
proof (induction devs)
  case Nil
  then show ?case by simp
next
  case (Cons a devs)
  from Cons.prems covers_mask_ok obtain b where b: "covers a cpu = Some b" by force
  show ?case
  proof (cases b)
    case True
    then have "a # devs = [] @ a # devs" "covers a cpu = Some True" using b by auto
    then show ?thesis by (metis empty_iff empty_set)
  next
    case False
    from Cons.IH Cons.prems have IH: "(\<forall>d \<in> set devs. covers d cpu = Some False) \<or>
      (\<exists>pre d post. devs = pre @ d # post \<and> (\<forall>x \<in> set pre. covers x cpu = Some False) \<and>
         covers d cpu = Some True)" by simp
    then show ?thesis
    proof (elim disjE exE conjE)
      assume "\<forall>d \<in> set devs. covers d cpu = Some False"
      then show ?thesis using b False by simp
    next
      fix pre d post
      assume "devs = pre @ d # post" "\<forall>x \<in> set pre. covers x cpu = Some False"
        "covers d cpu = Some True"
      then have "a # devs = (a # pre) @ d # post" "\<forall>x \<in> set (a # pre). covers x cpu = Some False"
        "covers d cpu = Some True"
        using b False by simp_all
      then show ?thesis by blast
    qed
  qed
qed

text \<open>C2: setting a CPU cap is memory safe and keeps the devices well formed. Whatever the
  temperature, the module parameters (also a step limit so large that the level arithmetic
  wraps around) and the answers of the quality-of-service framework, a request for a CPU number
  the masks have room for reads no table out of bounds, never trips the \<open>WARN_ON\<close> on the
  level, and leaves every device with a level inside its table.\<close>

theorem cpu_limits_safe:
  assumes "\<forall>d \<in> set devs. dev_wf d" and "\<forall>d \<in> set devs. mask_ok cpu d"
  shows "\<exists>ret devs' evs. cpu_limits_set_level p psy attrs qos cpu mf devs = Some (ret, devs', evs)
    \<and> (\<forall>d \<in> set devs'. dev_wf d) \<and> Warn_on \<notin> set evs
    \<and> map (\<lambda>d. (freq_table d, policy d, qos_req d)) devs' =
      map (\<lambda>d. (freq_table d, policy d, qos_req d)) devs"
proof (cases "cpu_limits_enable p")
  case False
  then show ?thesis using assms(1) by (simp add: cpu_limits_set_level_def)
next
  case True
  from split_covering [OF assms(2)] show ?thesis
  proof (elim disjE exE conjE)
    assume "\<forall>d \<in> set devs. covers d cpu = Some False"
    then show ?thesis using True assms(1) by (simp add: cpu_limits_set_level_def walk_none)
  next
    fix pre d post
    assume d: "devs = pre @ d # post" "\<forall>x \<in> set pre. covers x cpu = Some False"
      "covers d cpu = Some True"
    then have "dev_wf d" using assms(1) by simp
    then obtain ret d' evs where r:
      "cpu_limits_device p (mi_thermal_get_device_temp psy attrs) qos mf d = Some (ret, d', evs)"
      "dev_wf d'" "Warn_on \<notin> set evs" "d' = d\<lparr>cpufreq_state := cpufreq_state d'\<rparr>"
      by (rule device_safe)
    have "freq_table d' = freq_table d \<and> policy d' = policy d \<and> qos_req d' = qos_req d"
      by (subst (1 2 3) r(4)) simp
    then show ?thesis
      using True assms(1) d r(1-3) by (auto simp: cpu_limits_set_level_def walk_first)
  qed
qed

definition demo_pol :: cpufreq_policy where
  "demo_pol = \<lparr>pol_cpu = 0, related_cpus = \<lparr>mask_cpus = [0, 1], mask_bits = 8\<rparr>,
     pol_freq_table = [500000, 1000000]\<rparr>"

definition demo_dev :: cpufreq_device where
  "demo_dev = \<lparr>dev_id = 0, cpufreq_state = 0, max_level = 1,
     freq_table = Some [1000000, 500000], policy = Some demo_pol, qos_req = 0\<rparr>"

lemma demo_dev_wf: "dev_wf demo_dev" "mask_ok 1 demo_dev" "covers demo_dev 1 = Some True"
  by (simp_all add: dev_wf_def demo_dev_def mask_ok_def demo_pol_def covers_def
      cpumask_test_cpu_def)

theorem cpu_limits_safe_witness:
  "\<exists>ret devs' evs. cpu_limits_set_level cpu_limits_defaults None thermal_attrs_init (\<lambda>_ _. 1) 1
     600000 [demo_dev] = Some (ret, devs', evs) \<and> (\<forall>d \<in> set devs'. dev_wf d)"
  using cpu_limits_safe [of "[demo_dev]" 1 cpu_limits_defaults None thermal_attrs_init
      "\<lambda>_ _. 1" 600000] demo_dev_wf by auto

section \<open>What the cap is\<close>

lemma cpu_limits_target:
  assumes "cpu_limits_enable p" and "\<forall>x \<in> set pre. covers x cpu = Some False"
    and "covers d cpu = Some True"
  shows "cpu_limits_set_level p psy attrs qos cpu mf (pre @ d # post) =
    map_option (\<lambda>(ret, d', evs). (ret, pre @ d' # post, evs))
      (cpu_limits_device p (mi_thermal_get_device_temp psy attrs) qos mf d)"
  using assms by (simp add: cpu_limits_set_level_def walk_first)

lemma limit_step_off:
  "cpu_limits_max_step p = 0 \<or> sint (cpu_limits_hot_temp p) \<le> t \<Longrightarrow> limit_step p t d l = l"
  by (auto simp: limit_step_def)

lemma unat_floored:
  "unat (floored p t mf d) =
     max (unat mf) (unat (tab d ! 0) * min (unat (cpu_limits_effective_floor_pct p t)) 100 div 100)"
proof -
  let ?pct = "cpu_limits_effective_floor_pct p t"
  have m: "unat (min ?pct 100) = min (unat ?pct) 100" by (simp add: min_def word_le_nat_alt)
  then have "unat (mult_frac (tab d ! 0) (min ?pct 100) 100) =
      unat (tab d ! 0) * min (unat ?pct) 100 div 100"
    by (subst unat_mult_frac_100) simp_all
  then show ?thesis by (simp add: max_def word_le_nat_alt floored_def)
qed

text \<open>C1: the cap is the best fit. When the step limit is off or the device is hot, the first
  device that covers the CPU ends on the largest frequency of its table that does not exceed
  the larger of the request and the floor, and on the smallest one when there is none; the
  floor is the documented percentage of the top frequency, rounded down, computed without
  overflow for every 32-bit frequency. All other devices are left as they were.\<close>

theorem cap_is_best_fit:
  fixes d :: cpufreq_device
  assumes "cpu_limits_enable p" and "\<forall>x \<in> set pre. covers x cpu = Some False"
    and "covers d cpu = Some True" and "dev_wf d" and "mf \<noteq> 0"
    and "\<And>r f. qos r f \<noteq> - ENODEV"
    and "cpu_limits_max_step p = 0 \<or>
         sint (cpu_limits_hot_temp p) \<le> mi_thermal_get_device_temp psy attrs"
  defines "pct \<equiv> cpu_limits_effective_floor_pct p (mi_thermal_get_device_temp psy attrs)"
  shows "\<exists>ret evs st cap. cpu_limits_set_level p psy attrs qos cpu mf (pre @ d # post) =
      Some (ret, pre @ d\<lparr>cpufreq_state := st\<rparr> # post, evs) \<and>
    unat cap = max (unat mf) (unat (tab d ! 0) * min (unat pct) 100 div 100) \<and>
    tab d ! unat st = cap_for (tab d) cap"
proof -
  let ?t = "mi_thermal_get_device_temp psy attrs"
  let ?cap = "floored p ?t mf d"
  obtain l where l: "l \<le> unat (max_level d)"
    and r: "cpu_limits_device p ?t qos mf d =
      Some (if unat (cpufreq_state d) = l then 0 else qos (qos_req d) (tab d ! l),
            d\<lparr>cpufreq_state := of_nat l\<rparr>,
            if unat (cpufreq_state d) = l then [] else [Qos_update (qos_req d) (tab d ! l)])"
    and c: "chosen_level p ?t mf d l"
    using assms(4,6) by (rule device_result)
  have wf: "length (tab d) = Suc (unat (max_level d))" "sorted_wrt (\<ge>) (tab d)"
    using assms(4) by (auto simp: dev_wf_def)
  have fit: "tab d ! l = cap_for (tab d) ?cap"
    using c cap_for_none [OF wf(2,1), of ?cap] cap_for_first [OF wf(2), of l ?cap] l wf(1) assms(5)
    by (auto simp: chosen_level_def limit_step_off [OF assms(7)])
  have st: "unat (of_nat l :: u32) = l" using l by (rule unat_of_nat_u32)
  have cap: "unat ?cap = max (unat mf) (unat (tab d ! 0) * min (unat pct) 100 div 100)"
    by (simp add: unat_floored pct_def)
  note eq = cpu_limits_target [OF assms(1-3), of psy attrs qos mf post, unfolded r option.map(2)
      prod.case]
  show ?thesis
    by (intro exI conjI, rule eq, rule cap) (simp add: st fit)
qed

definition no_step :: cpu_limits_params where
  "no_step = cpu_limits_defaults\<lparr>cpu_limits_max_step := 0\<rparr>"

theorem cap_is_best_fit_witness:
  "\<exists>ret evs st cap. cpu_limits_set_level no_step None thermal_attrs_init (\<lambda>_ _. 1) 1 600000
     [demo_dev] = Some (ret, [demo_dev\<lparr>cpufreq_state := st\<rparr>], evs) \<and>
     tab demo_dev ! unat st = cap_for (tab demo_dev) cap"
  using cap_is_best_fit [of no_step "[]" 1 demo_dev 600000 "\<lambda>_ _. 1" None thermal_attrs_init "[]"]
    demo_dev_wf by (auto simp: no_step_def cpu_limits_defaults_def)

lemma limit_step_bound:
  assumes "l0 \<le> unat (max_level d)" and "cpu_limits_max_step p \<noteq> 0"
    and "t < sint (cpu_limits_hot_temp p)"
    and "unat (cpufreq_state d) + unat (cpu_limits_max_step p) < 2 ^ 32"
  shows "limit_step p t d l0 \<le> unat (cpufreq_state d) + unat (cpu_limits_max_step p)"
proof -
  have sum: "unat (cpufreq_state d + cpu_limits_max_step p) =
      unat (cpufreq_state d) + unat (cpu_limits_max_step p)"
    using assms(4) by (simp add: unat_add_lem [symmetric])
  show ?thesis
  proof (cases "of_nat l0 > cpufreq_state d + cpu_limits_max_step p")
    case True
    then show ?thesis using sum assms by (simp add: limit_step_def)
  next
    case False
    then have "l0 \<le> unat (cpufreq_state d + cpu_limits_max_step p)"
      using unat_of_nat_u32 [OF assms(1)] by (simp add: word_le_nat_alt not_less)
    then show ?thesis using sum False by (auto simp: limit_step_def)
  qed
qed

text \<open>C19: the step limit. On a cool device a request that some table frequency satisfies
  deepens the level by at most \<open>cpu_limits_max_step\<close>, as long as the sum of level and limit
  fits in 32 bits.\<close>

theorem step_bound:
  fixes d :: cpufreq_device
  assumes "cpu_limits_enable p" and "\<forall>x \<in> set pre. covers x cpu = Some False"
    and "covers d cpu = Some True" and "dev_wf d" and "\<And>r f. qos r f \<noteq> - ENODEV"
    and "cpu_limits_max_step p \<noteq> 0"
    and "mi_thermal_get_device_temp psy attrs < sint (cpu_limits_hot_temp p)"
    and "unat (cpufreq_state d) + unat (cpu_limits_max_step p) < 2 ^ 32"
    and "\<exists>f \<in> set (tab d). f \<le> mf"
  shows "\<exists>ret evs st. cpu_limits_set_level p psy attrs qos cpu mf (pre @ d # post) =
      Some (ret, pre @ d\<lparr>cpufreq_state := st\<rparr> # post, evs) \<and>
    unat st \<le> unat (cpufreq_state d) + unat (cpu_limits_max_step p)"
proof -
  let ?t = "mi_thermal_get_device_temp psy attrs"
  obtain l where l: "l \<le> unat (max_level d)"
    and r: "cpu_limits_device p ?t qos mf d =
      Some (if unat (cpufreq_state d) = l then 0 else qos (qos_req d) (tab d ! l),
            d\<lparr>cpufreq_state := of_nat l\<rparr>,
            if unat (cpufreq_state d) = l then [] else [Qos_update (qos_req d) (tab d ! l)])"
    and c: "chosen_level p ?t mf d l"
    using assms(4,5) by (rule device_result)
  have wf: "length (tab d) = Suc (unat (max_level d))" using assms(4) by (auto simp: dev_wf_def)
  obtain i where i: "i \<le> unat (max_level d)" "tab d ! i \<le> mf"
    using assms(9) wf by (auto simp: in_set_conv_nth less_Suc_eq_le)
  then have "\<not> floored p ?t mf d < tab d ! i" by (auto simp: floored_def less_max_iff_disj)
  then have "l = 0 \<or> (\<exists>l0 \<le> unat (max_level d). l = limit_step p ?t d l0)"
    using c i(1) by (auto simp: chosen_level_def split: if_splits)
  then have "l \<le> unat (cpufreq_state d) + unat (cpu_limits_max_step p)"
    using limit_step_bound [OF _ assms(6-8)] by auto
  moreover have "unat (of_nat l :: u32) = l" using l by (rule unat_of_nat_u32)
  ultimately show ?thesis
    using cpu_limits_target [OF assms(1-3), of psy attrs qos mf post] r by auto
qed

theorem step_bound_witness:
  "\<exists>ret evs st. cpu_limits_set_level cpu_limits_defaults None thermal_attrs_init (\<lambda>_ _. 1) 1 600000
     [demo_dev] = Some (ret, [demo_dev\<lparr>cpufreq_state := st\<rparr>], evs) \<and> unat st \<le> 1"
proof -
  have "mi_thermal_get_device_temp None thermal_attrs_init < 47"
    by (simp add: device_temp_init)
  moreover have "cpu_limits_enable cpu_limits_defaults" "cpu_limits_max_step cpu_limits_defaults = 1"
    "sint (cpu_limits_hot_temp cpu_limits_defaults) = 47"
    by (simp_all add: cpu_limits_defaults_def)
  moreover have "\<exists>f \<in> set (tab demo_dev). f \<le> 600000" "unat (cpufreq_state demo_dev) = 0"
    by (simp_all add: demo_dev_def)
  ultimately show ?thesis
    using step_bound [of cpu_limits_defaults "[]" 1 demo_dev "\<lambda>_ _. 1" None thermal_attrs_init
        600000 "[]"] demo_dev_wf by auto
qed

section \<open>Where the cap is not what the parameters say\<close>

definition flat_dev :: cpufreq_device where
  "flat_dev = \<lparr>dev_id = 0, cpufreq_state = 0, max_level = 3,
     freq_table = Some [1000000, 990000, 980000, 970000], policy = Some demo_pol, qos_req = 0\<rparr>"

lemma cool_init:
  "cpu_limits_set_level cpu_limits_defaults None thermal_attrs_init qos cpu mf [d] =
     cpu_limits_walk cpu_limits_defaults 0 qos cpu mf [d]"
  by (simp add: cpu_limits_set_level_def device_temp_init cpu_limits_defaults_def)

lemmas cap_eval = cpu_limits_device_def apply_floor_def Let_def freq_at_def mult_frac_def
  cpu_limits_effective_floor_pct_def cpu_limits_defaults_def limit_step_def
  cpufreq_set_level_def first_level.simps covers_def cpumask_test_cpu_def demo_pol_def

text \<open>The step limit does not cover every path. With the default parameters (one level per
  update) and a cool device, a request below the whole table takes the fallback to the last
  level: this device goes from level 0 to level 3 in a single update.\<close>

theorem step_limit_bypassed:
  "cpu_limits_max_step cpu_limits_defaults = 1 \<and>
   cpu_limits_set_level cpu_limits_defaults None thermal_attrs_init (\<lambda>_ _. 1) 0 1 [flat_dev] =
     Some (1, [flat_dev\<lparr>cpufreq_state := 3\<rparr>], [Qos_update 0 970000])"
  by (simp add: cool_init) (simp add: cap_eval flat_dev_def)

text \<open>The floor is not a minimum cap. The parameter's description promises a minimum cap
  in percent of the maximum, but the floor only raises the request: the level is then rounded
  down to a table frequency, which can lie below the floor. With the default of 92 percent this
  device is capped at half of its maximum.\<close>

theorem floor_undercut:
  "cpu_limits_floor_pct cpu_limits_defaults = 92 \<and>
   cpu_limits_set_level cpu_limits_defaults None thermal_attrs_init (\<lambda>_ _. 1) 0 600000 [demo_dev] =
     Some (1, [demo_dev\<lparr>cpufreq_state := 1\<rparr>], [Qos_update 0 500000])"
  by (simp add: cool_init) (simp add: cap_eval demo_dev_def)

text \<open>A cold battery selects the critical floor. The power supply class reports tenths of
  a degree, but the parser takes a reading below 100 as degrees: with the default parameters a
  battery between 5.3 and 9.9 degrees makes every cap use the floor meant for 53 degrees and
  more.\<close>

theorem cold_battery_critical_floor:
  assumes "53 \<le> v" and "v < 100"
  shows "cpu_limits_effective_floor_pct cpu_limits_defaults
           (mi_thermal_get_device_temp (Some (Inr v)) attrs) =
         cpu_limits_crit_floor_pct cpu_limits_defaults"
proof -
  have "mi_thermal_get_battery_temp (Some (Inr v)) = v"
    using assms by (intro battery_temp_small) (auto simp: is_s32_def)
  then have "53 \<le> mi_thermal_get_device_temp (Some (Inr v)) attrs"
    using device_temp_ge_battery [of "Some (Inr v)" attrs] assms(1) by simp
  then show ?thesis
    by (simp add: cpu_limits_effective_floor_pct_def cpu_limits_defaults_def)
qed

theorem cold_battery_critical_floor_witness:
  "cpu_limits_effective_floor_pct cpu_limits_defaults
     (mi_thermal_get_device_temp (Some (Inr 95)) thermal_attrs_init) = 75"
  using cold_battery_critical_floor [of 95 thermal_attrs_init]
  by (simp add: cpu_limits_defaults_def)

section \<open>The sysfs file\<close>

lemma sscanf_two:
  "sscanf [Uint, White, Uint] (fmt_u c @ '' '' @ fmt_u f @ [LF]) = [of_nat c, of_nat f]"
  using sscanf_Uint_num_str [of "[LF]" "[]" f]
    sscanf_Uint_num_str [of "'' '' @ fmt_u f @ [LF]" "[White, Uint]" c]
    skip_spaces_num_str [of 10 f "[LF]"]
  by (simp add: fmt_u_def skip_spaces_def isspace_def del: sscanf.simps(4))

lemma sscanf_no_prefix: "sscanf cpu_limits_fmt (fmt_u c @ s) = []"
proof -
  obtain d ds where "d < 10" and "num_str 10 c = digit_char d # ds"
    by (rule num_str_hd [of 10 c]) simp_all
  then show ?thesis
    using isdigit_digit_char [of d] by (auto simp: cpu_limits_fmt_def fmt_u_def isdigit_def)
qed

lemma cpu_limits_parse_u:
  assumes "c < 2 ^ 32" and "pre = ''cpu'' \<or> pre = []"
  shows "cpu_limits_parse (pre @ fmt_u c @ '' '' @ fmt_u f @ [LF]) = Some (c, of_nat f)"
proof -
  have "sscanf cpu_limits_fmt (''cpu'' @ fmt_u c @ '' '' @ fmt_u f @ [LF]) = [of_nat c, of_nat f]"
    using sscanf_two [of c f] by (simp add: cpu_limits_fmt_def)
  moreover have "unat (of_nat c :: u32) = c" using assms(1) by (simp add: unat_of_nat)
  ultimately show ?thesis
    using assms(2) sscanf_two [of c f] sscanf_no_prefix by (auto simp: cpu_limits_parse_def)
qed

text \<open>The write handler accepts both documented forms. \<open>cpu<c> <f>\<close> and \<open><c> <f>\<close>, in
  decimal and with the newline \<open>echo\<close> appends, set the cap \<open>f\<close> for CPU \<open>c\<close> and report the
  whole write consumed, for all 32-bit numbers; the result of setting the cap is dropped.\<close>

theorem cpu_limits_store_forms:
  assumes "c < 2 ^ 32" and "cpu_limits_enable p" and "pre = ''cpu'' \<or> pre = []"
  shows "cpu_limits_store p psy attrs qos (pre @ fmt_u c @ '' '' @ fmt_u f @ [LF]) devs =
    map_option (\<lambda>(_, devs', evs). (int (length (pre @ fmt_u c @ '' '' @ fmt_u f @ [LF])), devs', evs))
      (cpu_limits_set_level p psy attrs qos c (of_nat f) devs)"
  using cpu_limits_parse_u [OF assms(1,3), of f] assms(2) by (simp add: cpu_limits_store_def)

theorem cpu_limits_store_forms_witness:
  "cpu_limits_store cpu_limits_defaults None thermal_attrs_init (\<lambda>_ _. 1)
     (''cpu'' @ fmt_u 1 @ '' '' @ fmt_u 0 @ [LF]) [] =
   Some (int (length (''cpu'' @ fmt_u 1 @ '' '' @ fmt_u 0 @ [LF])), [], [])"
  using cpu_limits_store_forms [of 1 cpu_limits_defaults "''cpu''" None thermal_attrs_init
      "\<lambda>_ _. 1" 0 "[]"]
  by (simp add: cpu_limits_defaults_def cpu_limits_set_level_def)

text \<open>A write without a CPU number. A text whose first character is neither white space,
  a digit nor the letter c is rejected with \<open>-EINVAL\<close>, whatever the parameters, and no device
  is touched.\<close>

theorem cpu_limits_store_malformed:
  assumes "\<not> isspace c" and "\<not> isdigit c" and "c \<noteq> CHR ''c''"
  shows "cpu_limits_store p psy attrs qos (c # s) devs = Some (- EINVAL, devs, [])"
  using assms
  by (simp add: cpu_limits_store_def cpu_limits_parse_def cpu_limits_fmt_def skip_spaces_def)

theorem cpu_limits_store_malformed_witness:
  "cpu_limits_store cpu_limits_defaults None thermal_attrs_init (\<lambda>_ _. 1) ''-1 0'' [demo_dev] =
     Some (- EINVAL, [demo_dev], [])"
  using cpu_limits_store_malformed [of "CHR ''-''" cpu_limits_defaults None thermal_attrs_init
      "\<lambda>_ _. 1" "''1 0''" "[demo_dev]"]
  by (simp add: isspace_def isdigit_def)

text \<open>The CPU number is not validated. Any writer of the file can name a CPU beyond the
  storage of the masks; the walk then tests a bit outside the mask of the first device.\<close>

theorem cpu_limits_store_mask_overrun:
  assumes "policy d = Some pol" and "mask_bits (related_cpus pol) \<le> c" and "c < 2 ^ 32"
    and "cpu_limits_enable p"
  shows "cpu_limits_store p psy attrs qos (''cpu'' @ fmt_u c @ '' '' @ fmt_u f @ [LF]) (d # ds) = None"
proof -
  have "covers d c = None" using assms(1,2) by (simp add: covers_def cpumask_test_cpu_def)
  then show ?thesis
    using assms(4) cpu_limits_parse_u [OF assms(3), of "''cpu''" f]
    by (simp add: cpu_limits_store_def cpu_limits_set_level_def)
qed

theorem cpu_limits_store_mask_overrun_witness:
  "cpu_limits_store cpu_limits_defaults None thermal_attrs_init (\<lambda>_ _. 1)
     (''cpu'' @ fmt_u 4096 @ '' '' @ fmt_u 0 @ [LF]) [demo_dev] = None"
  using cpu_limits_store_mask_overrun [of demo_dev demo_pol 4096 cpu_limits_defaults None
      thermal_attrs_init "\<lambda>_ _. 1" 0 "[]"]
  by (simp add: cpu_limits_defaults_def demo_dev_def demo_pol_def)

section \<open>The frequency table\<close>

definition below :: "u32 list \<Rightarrow> u32 \<Rightarrow> u32 set" where
  "below table prev = {f \<in> set (valid_entries table). 0 < f \<and> f < prev}"

lemma finite_below [simp]: "finite (below table prev)"
  by (simp add: below_def)

lemma fold_next_max:
  "fold (\<lambda>pos mx. if pos > mx \<and> pos < prev then pos else mx) xs (m::u32) =
     Max (insert m {f \<in> set xs. m < f \<and> f < prev})"
proof (induction xs arbitrary: m)
  case (Cons x xs)
  show ?case
  proof (cases "x > m \<and> x < prev")
    case True
    let ?A = "insert x {f \<in> set xs. x < f \<and> f < prev}"
      and ?B = "insert m {f \<in> set (x # xs). m < f \<and> f < prev}"
    have "Max ?B = Max ?A"
    proof (rule Max_eqI)
      show "y \<le> Max ?A" if "y \<in> ?B" for y
        using that True by (cases "y \<le> x") (auto intro: Max_ge order_trans [OF _ Max_ge])
      have "Max ?A \<in> ?A" by (rule Max_in) auto
      then show "Max ?A \<in> ?B" using True by auto
    qed simp
    then show ?thesis using Cons.IH [of x] True by simp
  next
    case False
    then have "{f \<in> set (x # xs). m < f \<and> f < prev} = {f \<in> set xs. m < f \<and> f < prev}" by auto
    moreover have "(if x > m \<and> x < prev then x else m) = m" using False by (rule if_not_P)
    ultimately show ?thesis using Cons.IH [of m] by (simp only: fold_simps)
  qed
qed simp

lemma find_next_max_eq: "find_next_max table prev = (if below table prev = {} then 0 else Max (below table prev))"
proof -
  have "find_next_max table prev = Max (insert 0 (below table prev))"
    by (simp add: find_next_max_def fold_next_max below_def)
  then show ?thesis by (simp add: max_def)
qed

lemma below_zero [simp]: "below table 0 = {}"
  by (simp add: below_def)

lemma not_max_word_less: "(f::u32) \<noteq> 4294967295 \<Longrightarrow> f < 4294967295"
proof -
  have m: "(4294967295::u32) = - 1" by simp
  show "f \<noteq> 4294967295 \<Longrightarrow> f < 4294967295"
    unfolding m using word_n1_ge [of f] by (simp add: order_le_less)
qed

lemma below_Max:
  assumes "below table prev \<noteq> {}"
  shows "below table (Max (below table prev)) = below table prev - {Max (below table prev)}"
proof -
  have "Max (below table prev) \<in> below table prev" using assms by (intro Max_in) auto
  moreover have "f \<le> Max (below table prev)" if "f \<in> below table prev" for f using that by simp
  moreover from calculation have "Max (below table prev) < prev" by (simp add: below_def)
  ultimately show ?thesis by (force simp: below_def order_le_less)
qed

lemma sorted_list_of_set_Max:
  assumes "finite A" and "A \<noteq> {}"
  shows "sorted_list_of_set A = sorted_list_of_set (A - {Max A}) @ [Max A]"
proof -
  let ?xs = "sorted_list_of_set (A - {Max A}) @ [Max A]"
  have s: "set ?xs = A" using assms Max_in by auto
  have "sorted ?xs" "distinct ?xs" using assms by (auto simp: sorted_append)
  then have "sorted_list_of_set (set ?xs) = ?xs"
    by (rule sorted_list_of_set.idem_if_sorted_distinct)
  then show ?thesis by (simp only: s)
qed

lemma fill_table_eq:
  "fill_table table n prev =
     take n (rev (sorted_list_of_set (below table prev))) @ replicate (n - card (below table prev)) 0"
proof (induction n arbitrary: prev)
  case (Suc n)
  show ?case
  proof (cases "below table prev = {}")
    case True
    then show ?thesis using Suc [of 0] by (simp add: find_next_max_eq Let_def)
  next
    case False
    let ?m = "Max (below table prev)"
    have "card (below table prev) = Suc (card (below table prev - {?m}))"
      using False by (intro card.remove) simp_all
    then show ?thesis
      using Suc [of ?m] False sorted_list_of_set_Max [OF finite_below False]
      by (simp add: find_next_max_eq Let_def below_Max)
  qed
qed simp

lemma device_table_eq:
  "fill_table table (length (valid_entries table)) 4294967295 =
     rev (sorted_list_of_set (set (valid_entries table) - {0})) @
     replicate (length (valid_entries table) - card (set (valid_entries table) - {0})) 0"
proof -
  let ?V = "valid_entries table"
  have "below table 4294967295 = set ?V - {0}"
    by (auto simp: below_def valid_entries_def word_neq_0_conv not_max_word_less)
  moreover have "card (set ?V - {0}) \<le> length ?V"
    using card_length [of ?V] card_Diff1_le [of "set ?V" 0] by simp
  ultimately show ?thesis by (simp add: fill_table_eq)
qed

text \<open>C16: the table of a device. The loop that repeatedly asks for the next smaller frequency
  sorts the policy's valid frequencies in descending order without duplicates; when the table
  has duplicate or zero entries the rest is filled with zeros, so the table always has one
  entry per valid entry of the policy.\<close>

theorem device_table_sorted:
  "fill_table table (length (valid_entries table)) 4294967295 =
     rev (sorted_list_of_set (set (valid_entries table) - {0})) @
     replicate (length (valid_entries table) - card (set (valid_entries table) - {0})) 0"
  by (rule device_table_eq)

section \<open>Setup and teardown of the device list\<close>

text \<open>What a device holds, and the invariant of the list against the ledger.\<close>

definition owned :: "cpufreq_device \<Rightarrow> freq_res list" where
  "owned d = [Qos_req (qos_req d), Policy_ref (qos_req d), Table_mem (qos_req d), Dev_mem (qos_req d)]"

definition devices_wf :: "cpufreq_device list \<Rightarrow> bool" where
  "devices_wf ds \<longleftrightarrow> (\<forall>d \<in> set ds. dev_wf d \<and> policy d \<noteq> None)"

definition freq_inv :: "cpufreq_sys \<Rightarrow> bool" where
  "freq_inv s \<longleftrightarrow>
     run_ledger {#} (freq_log s) = Some (mset (concat (map owned (cpufreq_dev_list s)))) \<and>
     devices_wf (cpufreq_dev_list s)"

definition tables_small :: "cpufreq_env \<Rightarrow> bool" where
  "tables_small env \<longleftrightarrow>
     (\<forall>cpu \<in> set (possible_cpus env).
        case cpufreq_cpu_get env cpu of None \<Rightarrow> True | Some pol \<Rightarrow> length (pol_freq_table pol) < 2 ^ 32)"

lemma fill_table_length: "length (fill_table table n prev) = n"
  by (induction n arbitrary: prev) (simp_all add: Let_def)

lemma fill_table_desc:
  "sorted_wrt (\<ge>) (fill_table table (length (valid_entries table)) 4294967295)"
proof -
  let ?A = "set (valid_entries table) - {0}"
  have "sorted_wrt (\<ge>) (rev (sorted_list_of_set ?A))"
    by (simp add: sorted_wrt_rev)
  moreover have "sorted_wrt (\<ge>) (replicate k (0::u32))" for k by (induction k) auto
  ultimately show ?thesis unfolding device_table_eq by (simp add: sorted_wrt_append)
qed

lemma new_device_wf:
  assumes "valid_entries table \<noteq> []" and "length table < 2 ^ 32"
  defines "n \<equiv> length (valid_entries table)"
  shows "dev_wf \<lparr>dev_id = i, cpufreq_state = 0, max_level = of_nat (n - 1),
    freq_table = Some (fill_table table n 4294967295), policy = q, qos_req = r\<rparr>"
proof -
  have "n \<le> length table" by (simp add: n_def valid_entries_def)
  then have "unat (of_nat (n - 1) :: u32) = n - 1" using assms(2) by (simp add: unat_of_nat)
  moreover have "0 < n" using assms(1) by (simp add: n_def)
  ultimately show ?thesis
    using fill_table_desc [of table] by (simp add: dev_wf_def fill_table_length n_def)
qed

lemma init_cpu_inv:
  assumes "freq_inv s" and "init_cpufreq_cpu env cpu s = (r, s')"
    and "\<And>pol. cpufreq_cpu_get env cpu = Some pol \<Longrightarrow> length (pol_freq_table pol) < 2 ^ 32"
  shows "freq_inv s'"
proof -
  have l: "run_ledger {#} (freq_log s @ es) =
      run_ledger (mset (concat (map owned (cpufreq_dev_list s)))) es" for es
    using assms(1) by (simp add: freq_inv_def run_ledger_append)
  show ?thesis
  proof (cases "cpufreq_cpu_get env cpu")
    case None
    then show ?thesis using assms by (simp add: init_cpufreq_cpu_def)
  next
    case (Some pol)
    then show ?thesis
      using assms(1,2) new_device_wf [of "pol_freq_table pol" "pol_cpu pol" "Some pol" cpu]
        assms(3) [OF Some]
      by (auto simp: init_cpufreq_cpu_def Let_def freq_inv_def devices_wf_def l owned_def
          split: if_splits)
  qed
qed

lemma init_cpus_inv:
  assumes "freq_inv s" and "init_cpufreq_cpus env cpus ret0 s = (ret, s')"
    and "\<forall>cpu \<in> set cpus. case cpufreq_cpu_get env cpu of None \<Rightarrow> True
           | Some pol \<Rightarrow> length (pol_freq_table pol) < 2 ^ 32"
  shows "freq_inv s'"
  using assms
proof (induction env cpus ret0 s rule: init_cpufreq_cpus.induct)
  case (2 env cpu cpus ret s)
  obtain r s1 where 1: "init_cpufreq_cpu env cpu s = (r, s1)" by fastforce
  have "freq_inv s1" using "2.prems" by (intro init_cpu_inv [OF _ 1]) (auto split: option.splits)
  then show ?case using "2.prems" "2.IH" 1 by (cases r) auto
qed simp

lemma dev_wf_table: "dev_wf d \<Longrightarrow> freq_table d \<noteq> None"
  by (auto simp: dev_wf_def)

lemma release_ledger:
  "policy d \<noteq> None \<Longrightarrow> freq_table d \<noteq> None \<Longrightarrow> run_ledger (mset (owned d) + M) (release_device d) = Some M"
  by (simp add: owned_def release_device_def)

lemma release_all:
  "devices_wf ds \<Longrightarrow>
     run_ledger (mset (concat (map owned ds))) (concat (map release_device ds)) = Some {#}"
  by (induction ds) (auto simp: run_ledger_append release_ledger devices_wf_def dest!: dev_wf_table)

lemma cpufreq_setup_inv:
  assumes "freq_inv s" and "tables_small env" and "mi_thermal_init_cpufreq env s = (ret, s')"
  shows "freq_inv s'"
  using assms init_cpus_inv [of s env "possible_cpus env" 0 ret s']
  by (simp add: mi_thermal_init_cpufreq_def tables_small_def)

lemma destroy_balanced:
  assumes "freq_inv s"
  shows "balanced (freq_log (mi_thermal_destroy_cpufreq s))"
    and "cpufreq_dev_list (mi_thermal_destroy_cpufreq s) = []"
  using assms release_all
  by (simp_all add: mi_thermal_destroy_cpufreq_def balanced_def run_ledger_append freq_inv_def)

text \<open>C7: setting up the devices never leaks. Whatever CPU the setup fails at and for whatever
  reason (no policy, an empty table, no memory, a rejected request), the list holds well-formed
  devices and owns exactly the policy references, allocations and requests that are still held;
  tearing the list down then releases every one of them, none twice, and leaves it empty.\<close>

theorem cpufreq_setup_teardown:
  assumes "freq_inv s" and "tables_small env" and "mi_thermal_init_cpufreq env s = (ret, s')"
  shows "freq_inv s' \<and> balanced (freq_log (mi_thermal_destroy_cpufreq s')) \<and>
    cpufreq_dev_list (mi_thermal_destroy_cpufreq s') = []"
  using cpufreq_setup_inv [OF assms] destroy_balanced [of s'] by simp

definition no_devices :: cpufreq_sys where
  "no_devices = \<lparr>cpufreq_dev_list = [], freq_log = []\<rparr>"

text \<open>Two CPUs of one policy; the request of the second is rejected.\<close>

definition demo_env :: "int \<Rightarrow> cpufreq_env" where
  "demo_env r = \<lparr>possible_cpus = [0, 1], cpufreq_cpu_get = (\<lambda>_. Some demo_pol),
     kzalloc_ok = (\<lambda>_. True), kmalloc_ok = (\<lambda>_. True),
     freq_qos_add_request = (\<lambda>cpu _. if cpu = 1 then r else 1)\<rparr>"

lemma demo_env_small: "tables_small (demo_env r)" "freq_inv no_devices"
  by (simp_all add: tables_small_def demo_env_def demo_pol_def freq_inv_def no_devices_def
      devices_wf_def)

theorem cpufreq_setup_teardown_witness:
  "fst (mi_thermal_init_cpufreq (demo_env (- 22)) no_devices) = - 22 \<and>
   balanced (freq_log (mi_thermal_destroy_cpufreq
     (snd (mi_thermal_init_cpufreq (demo_env (- 22)) no_devices))))"
proof
  show "balanced (freq_log (mi_thermal_destroy_cpufreq
     (snd (mi_thermal_init_cpufreq (demo_env (- 22)) no_devices))))"
    using cpufreq_setup_teardown [OF demo_env_small(2,1) surjective_pairing] by blast
qed (simp add: mi_thermal_init_cpufreq_def demo_env_def init_cpufreq_cpu_def demo_pol_def
      valid_entries_def Let_def)

lemma init_cpu_ok:
  "init_cpufreq_cpu env cpu s = (Inr r, s') \<Longrightarrow>
     \<exists>pol. cpufreq_cpu_get env cpu = Some pol \<and>
       policy (hd (cpufreq_dev_list s')) = Some pol \<and>
       cpufreq_dev_list s' = hd (cpufreq_dev_list s') # cpufreq_dev_list s"
  by (auto simp: init_cpufreq_cpu_def Let_def split: option.splits if_splits)

lemma init_cpu_err: "init_cpufreq_cpu env cpu s = (Inl r, s') \<Longrightarrow> r < 0"
  by (auto simp: init_cpufreq_cpu_def Let_def split: option.splits if_splits)

definition masks_sound :: "cpufreq_env \<Rightarrow> bool" where
  "masks_sound env \<longleftrightarrow>
     (\<forall>cpu \<in> set (possible_cpus env).
        case cpufreq_cpu_get env cpu of None \<Rightarrow> True
        | Some pol \<Rightarrow> cpumask_test_cpu cpu (related_cpus pol) = Some True)"

lemma init_cpus_covers:
  assumes "init_cpufreq_cpus env cpus ret0 s = (ret, s')" and "0 \<le> ret"
    and "\<forall>cpu \<in> set cpus. case cpufreq_cpu_get env cpu of None \<Rightarrow> True
           | Some pol \<Rightarrow> cpumask_test_cpu cpu (related_cpus pol) = Some True"
  shows "set (cpufreq_dev_list s) \<subseteq> set (cpufreq_dev_list s') \<and>
    (\<forall>cpu \<in> set cpus. \<exists>d \<in> set (cpufreq_dev_list s'). covers d cpu = Some True)"
  using assms
proof (induction env cpus ret0 s rule: init_cpufreq_cpus.induct)
  case (2 env cpu cpus ret0 s)
  obtain r s1 where 1: "init_cpufreq_cpu env cpu s = (r, s1)" by fastforce
  with "2.prems"(1,2) obtain r' where r: "r = Inr r'" using init_cpu_err
    by (cases r) force+
  obtain pol d where d: "cpufreq_cpu_get env cpu = Some pol" "policy d = Some pol"
    "cpufreq_dev_list s1 = d # cpufreq_dev_list s"
    using init_cpu_ok [OF 1 [unfolded r]] by blast
  have IH: "set (cpufreq_dev_list s1) \<subseteq> set (cpufreq_dev_list s') \<and>
      (\<forall>cpu \<in> set cpus. \<exists>d \<in> set (cpufreq_dev_list s'). covers d cpu = Some True)"
    using "2.IH" [OF 1 [symmetric, unfolded r] refl] "2.prems" 1 r by simp
  have "covers d cpu = Some True" using d "2.prems"(3) by (simp add: covers_def)
  then show ?case using IH d(3) by auto
qed simp

text \<open>Masks that have room for \<open>n\<close> CPUs keep it: the devices point to the policies' masks.\<close>

definition masks_sized :: "nat \<Rightarrow> cpufreq_env \<Rightarrow> bool" where
  "masks_sized n env \<longleftrightarrow>
     (\<forall>cpu \<in> set (possible_cpus env).
        case cpufreq_cpu_get env cpu of None \<Rightarrow> True | Some pol \<Rightarrow> n \<le> mask_bits (related_cpus pol))"

lemma init_cpu_mask_ok:
  assumes "init_cpufreq_cpu env cpu s = (r, s')" and "\<forall>d \<in> set (cpufreq_dev_list s). mask_ok c d"
    and "\<And>pol. cpufreq_cpu_get env cpu = Some pol \<Longrightarrow> c < mask_bits (related_cpus pol)"
  shows "\<forall>d \<in> set (cpufreq_dev_list s'). mask_ok c d"
proof (cases "cpufreq_cpu_get env cpu")
  case None
  then show ?thesis using assms(1,2) by (simp add: init_cpufreq_cpu_def)
next
  case (Some pol)
  then show ?thesis
    using assms(1,2) assms(3) [OF Some]
    by (auto simp: init_cpufreq_cpu_def Let_def mask_ok_def split: if_splits)
qed

lemma init_cpus_mask_ok:
  assumes "init_cpufreq_cpus env cpus ret0 s = (ret, s')"
    and "\<forall>d \<in> set (cpufreq_dev_list s). mask_ok c d"
    and "\<forall>cpu \<in> set cpus. case cpufreq_cpu_get env cpu of None \<Rightarrow> True
           | Some pol \<Rightarrow> c < mask_bits (related_cpus pol)"
  shows "\<forall>d \<in> set (cpufreq_dev_list s'). mask_ok c d"
  using assms
proof (induction env cpus ret0 s rule: init_cpufreq_cpus.induct)
  case (2 env cpu cpus ret0 s)
  obtain r s1 where 1: "init_cpufreq_cpu env cpu s = (r, s1)" by fastforce
  have "\<forall>d \<in> set (cpufreq_dev_list s1). mask_ok c d"
    using "2.prems" by (intro init_cpu_mask_ok [OF 1]) (auto split: option.splits)
  then show ?case using "2.prems" "2.IH" 1 by (cases r) auto
qed simp

text \<open>On a device the walk finds, the result is that of the quality-of-service call.\<close>

lemma covered_result:
  assumes "cpu_limits_enable p" and "\<forall>d \<in> set devs. dev_wf d" and "\<forall>d \<in> set devs. mask_ok cpu d"
    and "d0 \<in> set devs" and "covers d0 cpu = Some True" and "\<And>r f. qos r f \<noteq> - ENODEV"
  shows "\<exists>ret devs' evs. cpu_limits_set_level p psy attrs qos cpu mf devs = Some (ret, devs', evs) \<and>
    ret \<noteq> - ENODEV"
  using split_covering [OF assms(3)]
proof (elim disjE exE conjE)
  assume "\<forall>d \<in> set devs. covers d cpu = Some False"
  then show ?thesis using assms(4,5) by auto
next
  fix pre d post
  assume d: "devs = pre @ d # post" "\<forall>x \<in> set pre. covers x cpu = Some False"
    "covers d cpu = Some True"
  then have "dev_wf d" using assms(2) by simp
  then obtain l where r: "cpu_limits_device p (mi_thermal_get_device_temp psy attrs) qos mf d =
      Some (if unat (cpufreq_state d) = l then 0 else qos (qos_req d) (tab d ! l),
            d\<lparr>cpufreq_state := of_nat l\<rparr>,
            if unat (cpufreq_state d) = l then [] else [Qos_update (qos_req d) (tab d ! l)])"
    using assms(6) by (rule device_result)
  have "(if unat (cpufreq_state d) = l then 0 else qos (qos_req d) (tab d ! l)) \<noteq> - ENODEV"
    using assms(6) by simp
  then show ?thesis
    unfolding d(1) cpu_limits_target [OF assms(1) d(2,3)] r by auto
qed

text \<open>A successful setup covers every CPU. When the setup does not report an error and
  every policy's mask contains the CPU it was looked up for, each possible CPU has a device in
  the list that covers it.\<close>

theorem cpufreq_setup_covers:
  assumes "mi_thermal_init_cpufreq env s = (ret, s')" and "0 \<le> ret" and "masks_sound env"
    and "cpu \<in> set (possible_cpus env)"
  shows "\<exists>d \<in> set (cpufreq_dev_list s'). covers d cpu = Some True"
  using assms init_cpus_covers [of env "possible_cpus env" 0 s ret s']
  by (simp add: mi_thermal_init_cpufreq_def masks_sound_def)

theorem cpufreq_setup_covers_witness:
  "\<exists>d \<in> set (cpufreq_dev_list (snd (mi_thermal_init_cpufreq (demo_env 1) no_devices))).
     covers d 1 = Some True"
proof -
  have "masks_sound (demo_env 1)"
    by (simp add: masks_sound_def demo_env_def demo_pol_def cpumask_test_cpu_def)
  moreover have "0 \<le> fst (mi_thermal_init_cpufreq (demo_env 1) no_devices)"
    by (simp add: mi_thermal_init_cpufreq_def demo_env_def init_cpufreq_cpu_def demo_pol_def
        valid_entries_def Let_def)
  moreover have "1 \<in> set (possible_cpus (demo_env 1))" by (simp add: demo_env_def)
  ultimately show ?thesis
    using cpufreq_setup_covers [OF surjective_pairing] by blast
qed

end
