(* ===== verification/Thermal_Module.thy ===== *)
theory Thermal_Module
  imports Thermal_Cpufreq
begin

text \<open>
  The sysfs nodes, the screen and USB events and the life of the module in
  \<open>mi_thermal_interface.c\<close>. Kernel objects, attribute groups, notifiers and references are
  resources in a ledger; what the kernel answers is in an environment record. The panel
  callback and the work it queues run concurrently, so the screen state is a step relation
  whose steps are the single reads, writes and queue operations.
\<close>

section \<open>Sysfs nodes\<close>

datatype node_res = Kernfs_class | Kernfs_target | Class_ref | Class_kobj | Class_group | Kobj | Group

record mi_thermal_device =
  md_kobj :: bool
  md_class_kobj :: bool
  node_log :: "node_res ev list"

text \<open>The answers of sysfs for one node; \<open>thermal_dir\<close> is \<open>Some priv\<close> when the directory exists.\<close>

record sysfs_env =
  kernel_sd :: bool
  class_dir :: bool
  thermal_dir :: "bool option"
  add_class_kobj :: bool
  class_group_ret :: int
  add_kobj :: bool
  group_ret :: int

abbreviation log_node :: "node_res ev list \<Rightarrow> mi_thermal_device \<Rightarrow> mi_thermal_device" where
  "log_node es d \<equiv> d\<lparr>node_log := node_log d @ es\<rparr>"

definition mi_thermal_get_class_kobj :: "sysfs_env \<Rightarrow> mi_thermal_device \<Rightarrow> bool \<times> mi_thermal_device" where
  "mi_thermal_get_class_kobj env d =
     (if \<not> kernel_sd env then (False, d)
      else if \<not> class_dir env then (False, d)
      else
        (case thermal_dir env of
           None \<Rightarrow> (False, log_node [Get Kernfs_class, Put Kernfs_class] d)
         | Some False \<Rightarrow>
             (False, log_node [Get Kernfs_class, Get Kernfs_target, Put Kernfs_class, Put Kernfs_target] d)
         | Some True \<Rightarrow>
             (True, log_node [Get Kernfs_class, Get Kernfs_target, Put Kernfs_class, Get Class_ref,
                              Put Kernfs_target] d)))"

definition mi_thermal_create_class_node :: "sysfs_env \<Rightarrow> mi_thermal_device \<Rightarrow> int \<times> mi_thermal_device" where
  "mi_thermal_create_class_node env d =
     (case mi_thermal_get_class_kobj env d of
        (False, d1) \<Rightarrow> (- ENODEV, d1)
      | (True, d1) \<Rightarrow>
          if \<not> add_class_kobj env
          then (- ENOMEM, log_node [Put Class_ref] (d1\<lparr>md_class_kobj := False\<rparr>))
          else if class_group_ret env \<noteq> 0
          then (class_group_ret env,
                log_node [Get Class_kobj, Put Class_ref, Put Class_kobj] (d1\<lparr>md_class_kobj := False\<rparr>))
          else (0, log_node [Get Class_kobj, Put Class_ref, Get Class_group]
                     (d1\<lparr>md_class_kobj := True\<rparr>)))"

definition mi_thermal_destroy_class_node :: "mi_thermal_device \<Rightarrow> mi_thermal_device" where
  "mi_thermal_destroy_class_node d =
     (if \<not> md_class_kobj d then d
      else log_node [Put Class_group, Put Class_kobj] (d\<lparr>md_class_kobj := False\<rparr>))"

definition mi_thermal_notify :: "mi_thermal_device \<Rightarrow> string \<Rightarrow> (node_res \<times> string) list" where
  "mi_thermal_notify d attr =
     (if md_class_kobj d then [(Class_kobj, attr)] else []) @
     (if md_kobj d then [(Kobj, attr)] else [])"

text \<open>
  The two node pairs have the same shape: a node below \<open>/sys/class/thermal\<close> whose failure is
  only reported, and a fallback below \<open>/sys/kernel\<close> whose failure counts when there is no
  other node.
\<close>

definition create_thermal_message_node :: "sysfs_env \<Rightarrow> mi_thermal_device \<Rightarrow> int \<times> mi_thermal_device" where
  "create_thermal_message_node env d =
     (let (_, d1) = mi_thermal_create_class_node env d
      in if \<not> add_kobj env
         then (if \<not> md_class_kobj d1 then - ENOMEM else 0, d1\<lparr>md_kobj := False\<rparr>)
         else if group_ret env \<noteq> 0
         then (if \<not> md_class_kobj d1 then group_ret env else 0,
               log_node [Get Kobj, Put Kobj] (d1\<lparr>md_kobj := False\<rparr>))
         else (0, log_node [Get Kobj, Get Group] (d1\<lparr>md_kobj := True\<rparr>)))"

definition destroy_thermal_message_node :: "mi_thermal_device \<Rightarrow> mi_thermal_device" where
  "destroy_thermal_message_node d =
     (let d1 = mi_thermal_destroy_class_node d
      in if md_kobj d1 then log_node [Put Group, Put Kobj] (d1\<lparr>md_kobj := False\<rparr>) else d1)"

definition create_mi_powersave_node :: "sysfs_env \<Rightarrow> mi_thermal_device \<Rightarrow> int \<times> mi_thermal_device" where
  "create_mi_powersave_node env d =
     (let (_, d1) = mi_thermal_create_class_node env d
      in if \<not> add_kobj env
         then (if \<not> md_class_kobj d1 then - ENOMEM else 0, d1\<lparr>md_kobj := False\<rparr>)
         else if group_ret env \<noteq> 0
         then (if \<not> md_class_kobj d1 then group_ret env else 0,
               log_node [Get Kobj, Put Kobj] (d1\<lparr>md_kobj := False\<rparr>))
         else (0, log_node [Get Kobj, Get Group] (d1\<lparr>md_kobj := True\<rparr>)))"

definition destroy_mi_powersave_node :: "mi_thermal_device \<Rightarrow> mi_thermal_device" where
  "destroy_mi_powersave_node d =
     (let d1 = mi_thermal_destroy_class_node d
      in if md_kobj d1 then log_node [Put Group, Put Kobj] (d1\<lparr>md_kobj := False\<rparr>) else d1)"

definition node_idle :: "mi_thermal_device \<Rightarrow> bool" where
  "node_idle d \<longleftrightarrow> \<not> md_kobj d \<and> \<not> md_class_kobj d"

text \<open>The resources a node in a given state holds.\<close>

definition node_owned :: "mi_thermal_device \<Rightarrow> node_res list" where
  "node_owned d = (if md_class_kobj d then [Class_kobj, Class_group] else [])
     @ (if md_kobj d then [Kobj, Group] else [])"

lemma same_create: "create_mi_powersave_node = create_thermal_message_node"
  by (simp add: fun_eq_iff create_mi_powersave_node_def create_thermal_message_node_def)

lemma same_destroy: "destroy_mi_powersave_node = destroy_thermal_message_node"
  by (simp add: fun_eq_iff destroy_mi_powersave_node_def destroy_thermal_message_node_def)

lemma class_node_result:
  assumes "node_idle d"
  obtains ret l d1 where "mi_thermal_create_class_node env d = (ret, d1)"
    and "node_log d1 = node_log d @ l" and "\<not> md_kobj d1"
    and "holds_exactly l (if md_class_kobj d1 then [Class_kobj, Class_group] else [])"
    and "ret = 0 \<longleftrightarrow> md_class_kobj d1"
proof -
  obtain ret d1 where r: "mi_thermal_create_class_node env d = (ret, d1)" by fastforce
  then have "\<exists>l. node_log d1 = node_log d @ l \<and>
      holds_exactly l (if md_class_kobj d1 then [Class_kobj, Class_group] else []) \<and>
      \<not> md_kobj d1 \<and> (ret = 0 \<longleftrightarrow> md_class_kobj d1)"
    using assms
    by (auto simp: mi_thermal_create_class_node_def mi_thermal_get_class_kobj_def node_idle_def
        holds_exactly_def split: if_splits option.splits bool.splits)
  then show ?thesis using that r by blast
qed

lemma create_node_result:
  assumes "node_idle d" and "create_thermal_message_node env d = (ret, d')"
  obtains l where "node_log d' = node_log d @ l" and "holds_exactly l (node_owned d')"
    and "ret = 0 \<longleftrightarrow> \<not> node_idle d'"
proof -
  obtain cret l d1 where c: "mi_thermal_create_class_node env d = (cret, d1)"
    "node_log d1 = node_log d @ l" "\<not> md_kobj d1"
    "holds_exactly l (if md_class_kobj d1 then [Class_kobj, Class_group] else [])"
    using assms(1) by (rule class_node_result)
  have "\<exists>l. node_log d' = node_log d @ l \<and> holds_exactly l (node_owned d') \<and>
      (ret = 0 \<longleftrightarrow> \<not> node_idle d')"
    using assms(2) c
    by (auto simp: create_thermal_message_node_def holds_exactly_def run_ledger_append
        node_owned_def node_idle_def split: if_splits)
  then show ?thesis using that by blast
qed

lemma destroy_node_result:
  "\<exists>l. node_log (destroy_thermal_message_node d) = node_log d @ l \<and>
     run_ledger (mset (node_owned d)) l = Some {#} \<and> node_idle (destroy_thermal_message_node d)"
  by (auto simp: destroy_thermal_message_node_def mi_thermal_destroy_class_node_def Let_def
      node_owned_def node_idle_def)

text \<open>Both node pairs satisfy the contract of a module with the loader.\<close>

interpretation message_node: module_lifecycle
  create_thermal_message_node destroy_thermal_message_node node_log node_idle
proof
  fix s e ret s'
  assume i: "node_idle s" and c: "create_thermal_message_node e s = (ret, s')" and "ret \<noteq> 0"
  obtain l where l: "node_log s' = node_log s @ l" "holds_exactly l (node_owned s')"
    "ret = 0 \<longleftrightarrow> \<not> node_idle s'"
    using i c by (rule create_node_result)
  then have "node_idle s'" using \<open>ret \<noteq> 0\<close> by simp
  moreover from this have "balanced l"
    using l(2) by (simp add: node_owned_def node_idle_def holds_exactly_balanced)
  ultimately show "node_idle s' \<and> (\<exists>l. node_log s' = node_log s @ l \<and> balanced l)"
    using l(1) by blast
next
  fix s e s'
  assume i: "node_idle s" and c: "create_thermal_message_node e s = (0, s')"
  obtain l where l: "node_log s' = node_log s @ l" "holds_exactly l (node_owned s')"
    using i c by (rule create_node_result)
  then show "node_idle (destroy_thermal_message_node s') \<and>
      (\<exists>l. node_log (destroy_thermal_message_node s') = node_log s @ l \<and> balanced l)"
    using destroy_node_result [of s']
    by (auto simp: holds_exactly_def balanced_def run_ledger_append)
qed

interpretation powersave_node: module_lifecycle
  create_mi_powersave_node destroy_mi_powersave_node node_log node_idle
  unfolding same_create same_destroy by (rule message_node.module_lifecycle_axioms)

text \<open>Creating the thermal message node is all or nothing. It reports success exactly when
  one of the two places has the node afterwards; when it reports an error it has released every
  kernel object, directory reference and attribute group it took on the way.\<close>

theorem message_node_all_or_nothing:
  assumes "node_idle d" and "create_thermal_message_node env d = (ret, d')"
  shows "(ret = 0 \<longleftrightarrow> md_kobj d' \<or> md_class_kobj d') \<and>
    (ret \<noteq> 0 \<longrightarrow> (\<exists>l. node_log d' = node_log d @ l \<and> balanced l))"
proof -
  have "ret = 0 \<longleftrightarrow> \<not> node_idle d'" using assms by (rule create_node_result)
  then show ?thesis using message_node.failed_load [OF assms] by (auto simp: node_idle_def)
qed

definition no_node :: mi_thermal_device where
  "no_node = \<lparr>md_kobj = False, md_class_kobj = False, node_log = []\<rparr>"

definition sysfs_ok :: sysfs_env where
  "sysfs_ok = \<lparr>kernel_sd = True, class_dir = True, thermal_dir = Some True, add_class_kobj = True,
     class_group_ret = 0, add_kobj = True, group_ret = 0\<rparr>"

text \<open>The class node cannot get its group and the fallback object cannot be created.\<close>

definition sysfs_full :: sysfs_env where
  "sysfs_full = sysfs_ok\<lparr>class_group_ret := - ENOMEM, add_kobj := False\<rparr>"

lemma no_node_idle [simp]: "node_idle no_node"
  by (simp add: node_idle_def no_node_def)

theorem message_node_all_or_nothing_witness:
  "fst (create_thermal_message_node sysfs_full no_node) = - ENOMEM \<and>
   (\<exists>l. node_log (snd (create_thermal_message_node sysfs_full no_node)) = l \<and> balanced l)"
proof -
  have r: "fst (create_thermal_message_node sysfs_full no_node) = - ENOMEM"
    by (simp add: create_thermal_message_node_def mi_thermal_create_class_node_def
        mi_thermal_get_class_kobj_def sysfs_full_def sysfs_ok_def no_node_def)
  then show ?thesis
    using message_node_all_or_nothing [OF no_node_idle surjective_pairing, of sysfs_full]
    by (auto simp: no_node_def)
qed

section \<open>The screen state\<close>

datatype panel_event = Panel_unblank | Panel_blank | Panel_other

text \<open>
  \<open>dw_running\<close> is the value that a running work item has read and not yet stored;
  \<open>callbacks\<close> counts the callbacks that have set \<open>screen_light\<close> and not yet queued the work.
\<close>

record screen_sys =
  screen_light :: bool
  screen_state :: bool
  dw_pending :: bool
  dw_running :: "bool option"
  callbacks :: nat
  screen_notes :: "(node_res \<times> string) list"
  seen :: "bool list"

definition screen_init :: screen_sys where
  "screen_init = \<lparr>screen_light = False, screen_state = False, dw_pending = False,
     dw_running = None, callbacks = 0, screen_notes = [], seen = []\<rparr>"

text \<open>The callback up to the switch; the flag tells whether it goes on to queue the work.\<close>

definition screen_callback_set :: "panel_event option \<Rightarrow> screen_sys \<Rightarrow> bool \<times> screen_sys" where
  "screen_callback_set notif s =
     (case notif of
        None \<Rightarrow> (False, s)
      | Some Panel_unblank \<Rightarrow> (True, s\<lparr>screen_light := True\<rparr>)
      | Some Panel_blank \<Rightarrow> (True, s\<lparr>screen_light := False\<rparr>)
      | Some Panel_other \<Rightarrow> (False, s))"

definition queue_screen_work :: "screen_sys \<Rightarrow> screen_sys" where
  "queue_screen_work s = s\<lparr>dw_pending := True\<rparr>"

text \<open>\<open>screen_state_for_thermal_callback\<close> as one call.\<close>

definition screen_state_for_thermal_callback :: "panel_event option \<Rightarrow> screen_sys \<Rightarrow> screen_sys" where
  "screen_state_for_thermal_callback notif s =
     (case screen_callback_set notif s of
        (go, s') \<Rightarrow> if go then queue_screen_work s' else s')"

text \<open>The work item after it has read \<open>screen_light\<close> into \<open>new_state\<close>.\<close>

definition screen_check_store :: "mi_thermal_device \<Rightarrow> bool \<Rightarrow> screen_sys \<Rightarrow> screen_sys" where
  "screen_check_store d new_state s =
     (if screen_state s = new_state then s
      else s\<lparr>screen_state := new_state,
             screen_notes := screen_notes s @ mi_thermal_notify d ''screen_state'',
             seen := seen s @ [new_state]\<rparr>)"

definition screen_state_check :: "mi_thermal_device \<Rightarrow> screen_sys \<Rightarrow> screen_sys" where
  "screen_state_check d s = screen_check_store d (screen_light s) s"

text \<open>
  The interleavings: callbacks may overlap each other and the work item, the work item does not
  overlap itself, and it is taken off the queue before it starts.
\<close>

inductive screen_step :: "mi_thermal_device \<Rightarrow> screen_sys \<Rightarrow> screen_sys \<Rightarrow> bool" for d where
  Event: "screen_callback_set notif s = (True, s') \<Longrightarrow>
     screen_step d s (s'\<lparr>callbacks := Suc (callbacks s')\<rparr>)"
| Ignored: "screen_callback_set notif s = (False, s') \<Longrightarrow> screen_step d s s'"
| Queue: "callbacks s = Suc n \<Longrightarrow> screen_step d s ((queue_screen_work s)\<lparr>callbacks := n\<rparr>)"
| Start: "dw_pending s \<Longrightarrow> dw_running s = None \<Longrightarrow>
     screen_step d s (s\<lparr>dw_pending := False, dw_running := Some (screen_light s)\<rparr>)"
| Finish: "dw_running s = Some v \<Longrightarrow>
     screen_step d s ((screen_check_store d v s)\<lparr>dw_running := None\<rparr>)"

inductive_cases screen_stepE: "screen_step d s s'"

inductive screen_reach :: "mi_thermal_device \<Rightarrow> screen_sys \<Rightarrow> bool" for d where
  screen_reach_init: "screen_reach d screen_init"
| screen_reach_step: "screen_reach d s \<Longrightarrow> screen_step d s s' \<Longrightarrow> screen_reach d s'"

definition screen_quiet :: "screen_sys \<Rightarrow> bool" where
  "screen_quiet s \<longleftrightarrow> \<not> dw_pending s \<and> dw_running s = None \<and> callbacks s = 0"

definition screen_inv :: "screen_sys \<Rightarrow> bool" where
  "screen_inv s \<longleftrightarrow>
     (case dw_running s of
        None \<Rightarrow> dw_pending s \<or> 0 < callbacks s \<or> screen_light s = screen_state s
      | Some v \<Rightarrow> dw_pending s \<or> 0 < callbacks s \<or> screen_light s = v)"

definition alternates :: "bool list \<Rightarrow> bool" where
  "alternates l \<longleftrightarrow> (\<forall>i < length l. l ! i = even i)"

definition notes_inv :: "mi_thermal_device \<Rightarrow> screen_sys \<Rightarrow> bool" where
  "notes_inv d s \<longleftrightarrow> alternates (seen s) \<and> screen_state s = odd (length (seen s)) \<and>
     screen_notes s = concat (replicate (length (seen s)) (mi_thermal_notify d ''screen_state''))"

lemma callback_set_cases:
  "screen_callback_set notif s = (go, s') \<Longrightarrow>
     (go \<longrightarrow> (\<exists>b. s' = s\<lparr>screen_light := b\<rparr>)) \<and> (\<not> go \<longrightarrow> s' = s)"
  by (auto simp: screen_callback_set_def split: option.splits panel_event.splits)

lemma screen_inv_step: "screen_step d s s' \<Longrightarrow> screen_inv s \<Longrightarrow> screen_inv s'"
  by (erule screen_stepE; (drule callback_set_cases)?)
    (auto simp: screen_inv_def queue_screen_work_def screen_check_store_def split: option.splits)

lemma alternates_snoc: "alternates (l @ [b]) \<longleftrightarrow> alternates l \<and> b = even (length l)"
  by (auto simp: alternates_def nth_append less_Suc_eq)

lemma concat_replicate_shift: "concat (replicate n x) @ x = x @ concat (replicate n x)"
  by (induction n) auto

lemma notes_inv_store: "notes_inv d s \<Longrightarrow> notes_inv d (screen_check_store d v s)"
  by (auto simp: notes_inv_def screen_check_store_def alternates_snoc concat_replicate_shift)

lemma notes_inv_irrelevant:
  "notes_inv d (s\<lparr>screen_light := b\<rparr>) = notes_inv d s"
  "notes_inv d (s\<lparr>dw_pending := b\<rparr>) = notes_inv d s"
  "notes_inv d (s\<lparr>dw_running := r\<rparr>) = notes_inv d s"
  "notes_inv d (s\<lparr>callbacks := n\<rparr>) = notes_inv d s"
  by (simp_all add: notes_inv_def)

lemma notes_inv_step: "screen_step d s s' \<Longrightarrow> notes_inv d s \<Longrightarrow> notes_inv d s'"
  by (erule screen_stepE; (drule callback_set_cases)?)
    (auto simp: notes_inv_irrelevant queue_screen_work_def notes_inv_store)

lemma screen_reach_inv: "screen_reach d s \<Longrightarrow> screen_inv s \<and> notes_inv d s"
proof (induction rule: screen_reach.induct)
  case screen_reach_init
  then show ?case by (simp add: screen_inv_def notes_inv_def screen_init_def alternates_def)
next
  case (screen_reach_step s s')
  then show ?case using screen_inv_step notes_inv_step by blast
qed

text \<open>The screen state never lags for good. However panel events, the queueing of the work
  and the work itself interleave, a state in which no callback is in flight and the work is
  neither queued nor running shows the value of the last panel event: an event that arrives
  while the work runs is never lost.\<close>

theorem screen_state_catches_up:
  assumes "screen_reach d s" and "screen_quiet s"
  shows "screen_state s = screen_light s"
  using screen_reach_inv [OF assms(1)] assms(2) by (auto simp: screen_inv_def screen_quiet_def)

lemma screen_demo:
  "screen_reach d
     (screen_check_store d True (screen_init\<lparr>screen_light := True\<rparr>))"
proof -
  let ?s1 = "screen_init\<lparr>screen_light := True, callbacks := 1\<rparr>"
  let ?s2 = "screen_init\<lparr>screen_light := True, dw_pending := True\<rparr>"
  let ?s3 = "screen_init\<lparr>screen_light := True, dw_running := Some True\<rparr>"
  have "screen_step d screen_init ?s1"
    using screen_step.Event [of "Some Panel_unblank" screen_init _ d]
    by (simp add: screen_callback_set_def screen_init_def)
  moreover have "screen_step d ?s1 ?s2"
    using screen_step.Queue [of ?s1 0 d] by (simp add: queue_screen_work_def screen_init_def)
  moreover have "screen_step d ?s2 ?s3"
    using screen_step.Start [of ?s2 d] by (simp add: screen_init_def)
  moreover have "screen_step d ?s3 (screen_check_store d True (screen_init\<lparr>screen_light := True\<rparr>))"
    using screen_step.Finish [of ?s3 True d]
    by (simp add: screen_init_def screen_check_store_def)
  ultimately show ?thesis by (meson screen_reach.intros)
qed

theorem screen_state_catches_up_witness:
  "screen_state (screen_check_store no_node True (screen_init\<lparr>screen_light := True\<rparr>)) = True"
  using screen_state_catches_up [OF screen_demo, of no_node]
  by (simp add: screen_quiet_def screen_check_store_def screen_init_def)

text \<open>C40: Pollers see every change and only changes. The values stored in \<open>screen_state\<close>
  alternate, starting with a switched-on screen, and each of them is announced exactly once on
  every sysfs node that exists.\<close>

theorem screen_changes_notified:
  assumes "screen_reach d s"
  shows "alternates (seen s) \<and> screen_state s = odd (length (seen s)) \<and>
    screen_notes s = concat (replicate (length (seen s)) (mi_thermal_notify d ''screen_state''))"
  using screen_reach_inv [OF assms] by (simp add: notes_inv_def)

theorem screen_changes_notified_witness:
  "screen_notes (screen_check_store (no_node\<lparr>md_kobj := True\<rparr>) True
     (screen_init\<lparr>screen_light := True\<rparr>)) = [(Kobj, ''screen_state'')]"
  using screen_changes_notified [OF screen_demo, of "no_node\<lparr>md_kobj := True\<rparr>"]
  by (simp add: screen_check_store_def screen_init_def mi_thermal_notify_def no_node_def)

section \<open>The USB state\<close>

text \<open>
  \<open>usb_psy\<close> is the reference to the supply, kept once it has been found; \<open>usb_online\<close> is the
  value the attribute shows.
\<close>

record usb_sys =
  usb_psy :: bool
  usb_online :: int
  usb_pending :: bool
  usb_notes :: "(node_res \<times> string) list"

text \<open>The supply: whether it can be looked up, and what reading \<open>ONLINE\<close> gives.\<close>

definition usb_online_work ::
  "mi_thermal_device \<Rightarrow> bool \<Rightarrow> int + int \<Rightarrow> usb_sys \<Rightarrow> usb_sys" where
  "usb_online_work d found prop s =
     (let s1 = (if \<not> usb_psy s then s\<lparr>usb_psy := found\<rparr> else s)
      in if \<not> usb_psy s1 then s1
         else (case prop of
                 Inl ret \<Rightarrow> s1
               | Inr v \<Rightarrow> s1\<lparr>usb_online := v,
                              usb_notes := usb_notes s1 @ mi_thermal_notify d ''usb_online''\<rparr>))"

text \<open>The argument is the name of the supply that changed, if there is one.\<close>

definition usb_online_callback :: "string option \<Rightarrow> usb_sys \<Rightarrow> usb_sys" where
  "usb_online_callback psy s = (if psy = Some ''usb'' then s\<lparr>usb_pending := True\<rparr> else s)"

definition thermal_screen_state_show :: "bool \<Rightarrow> string" where
  "thermal_screen_state_show st = scnprintf PAGE_SIZE (fmt_d (if st then 1 else 0) @ [LF])"

definition thermal_usb_online_show :: "usb_sys \<Rightarrow> string" where
  "thermal_usb_online_show s = scnprintf PAGE_SIZE (fmt_d (usb_online s) @ [LF])"

definition thermal_sensor_show :: "string option \<Rightarrow> string" where
  "thermal_sensor_show sensor =
     scnprintf PAGE_SIZE ((case sensor of None \<Rightarrow> ''invalid'' | Some n \<Rightarrow> n) @ [LF])"

definition thermal_sconfig_show :: string where
  "thermal_sconfig_show = scnprintf PAGE_SIZE (fmt_d (- 1) @ [LF])"

text \<open>The value written to \<open>sconfig\<close> is parsed and dropped: the mode is set back to -1.\<close>

definition thermal_sconfig_store :: "string \<Rightarrow> int \<Rightarrow> int \<times> int" where
  "thermal_sconfig_store buf switch_mode =
     (let val = to_s32 (simple_strtol buf) in (int (length buf), - 1))"

section \<open>The module\<close>

datatype wq = Wq_null | Wq_live | Wq_destroyed

datatype mod_res = Wq | Psy_notifier | Panel_reg | Of_node

record thermal_sys =
  freq :: cpufreq_sys
  message :: mi_thermal_device
  powersave :: mi_thermal_device
  screen_state_wq :: wq
  panel_cookie :: bool
  panel_registered :: bool
  board_sensor :: "string option"
  ambient_sensor :: "string option"
  screen :: screen_sys
  usb :: usb_sys
  mod_log :: "mod_res ev list"

text \<open>The device tree node, with the two properties it may have.\<close>

type_synonym of_node = "(string option \<times> string option) option"

definition of_parse_thermal_message :: "of_node \<Rightarrow> thermal_sys \<Rightarrow> int \<times> thermal_sys" where
  "of_parse_thermal_message np s =
     (case np of
        None \<Rightarrow> (0, s\<lparr>board_sensor := Some ''board-sensor'', ambient_sensor := Some ''ABT-SENSOR''\<rparr>)
      | Some (bs, as) \<Rightarrow>
          let b = (case bs of Some n \<Rightarrow> Some n | None \<Rightarrow> board_sensor s);
              a = (case as of Some n \<Rightarrow> Some n | None \<Rightarrow> ambient_sensor s)
          in (0, s\<lparr>board_sensor := (if b = None then Some ''board-sensor'' else b),
                   ambient_sensor := (if a = None then Some ''ABT-SENSOR'' else a),
                   mod_log := mod_log s @ [Get Of_node, Put Of_node]\<rparr>))"

record thermal_env =
  params :: cpu_limits_params
  freq_env :: cpufreq_env
  of_message :: of_node
  wq_ok :: bool
  message_env :: sysfs_env
  powersave_env :: sysfs_env
  psy_reg_ret :: int
  panel_ok :: bool

definition mi_thermal_interface_init :: "thermal_env \<Rightarrow> thermal_sys \<Rightarrow> int \<times> thermal_sys" where
  "mi_thermal_interface_init env s =
     (let s = (if cpu_limits_enable (params env)
               then s\<lparr>freq := snd (mi_thermal_init_cpufreq (freq_env env) (freq s))\<rparr> else s);
          s = snd (of_parse_thermal_message (of_message env) s)
      in if \<not> wq_ok env then (- ENOMEM, s\<lparr>screen_state_wq := Wq_null\<rparr>)
         else
           (let s = s\<lparr>screen_state_wq := Wq_live, mod_log := mod_log s @ [Get Wq]\<rparr>
            in case create_thermal_message_node (message_env env) (message s) of (ret, m) \<Rightarrow>
               let s = s\<lparr>message := m\<rparr>
               in if ret \<noteq> 0
                  then (ret, s\<lparr>screen_state_wq := Wq_null, mod_log := mod_log s @ [Put Wq]\<rparr>)
                  else
                    (let s = s\<lparr>powersave :=
                           snd (create_mi_powersave_node (powersave_env env) (powersave s))\<rparr>;
                         s = (if psy_reg_ret env = 0
                              then s\<lparr>mod_log := mod_log s @ [Get Psy_notifier]\<rparr> else s);
                         s = s\<lparr>panel_cookie := panel_ok env, panel_registered := panel_ok env\<rparr>;
                         s = (if panel_ok env then s\<lparr>mod_log := mod_log s @ [Get Panel_reg]\<rparr> else s)
                     in (0, s))))"

text \<open>
  The exit handler, one action per statement, so that panel events can fall between them.
  Cancelling waits for a running work item; destroying the queue also runs a queued one.
\<close>

datatype exit_action =
    Cancel_screen | Cancel_usb | Destroy_wq | Unregister_panel
  | Destroy_message | Destroy_powersave | Destroy_cpufreq

definition finish_work :: "mi_thermal_device \<Rightarrow> screen_sys \<Rightarrow> screen_sys" where
  "finish_work d s =
     (case dw_running s of
        None \<Rightarrow> s | Some v \<Rightarrow> (screen_check_store d v s)\<lparr>dw_running := None\<rparr>)"

definition drain_work :: "mi_thermal_device \<Rightarrow> screen_sys \<Rightarrow> screen_sys" where
  "drain_work d s =
     (let s1 = finish_work d s
      in if dw_pending s1 then (screen_state_check d s1)\<lparr>dw_pending := False\<rparr> else s1)"

fun exit_do :: "exit_action \<Rightarrow> thermal_sys \<Rightarrow> thermal_sys" where
  "exit_do Cancel_screen s =
     s\<lparr>screen := finish_work (message s) ((screen s)\<lparr>dw_pending := False\<rparr>)\<rparr>"
| "exit_do Cancel_usb s = s\<lparr>usb := (usb s)\<lparr>usb_pending := False\<rparr>\<rparr>"
| "exit_do Destroy_wq s =
     (if screen_state_wq s \<noteq> Wq_null
      then s\<lparr>screen := drain_work (message s) (screen s), screen_state_wq := Wq_destroyed,
             mod_log := mod_log s @ [Put Wq]\<rparr> else s)"
| "exit_do Unregister_panel s =
     (if panel_cookie s
      then s\<lparr>panel_registered := False, mod_log := mod_log s @ [Put Panel_reg]\<rparr> else s)"
| "exit_do Destroy_message s = s\<lparr>message := destroy_thermal_message_node (message s)\<rparr>"
| "exit_do Destroy_powersave s = s\<lparr>powersave := destroy_mi_powersave_node (powersave s)\<rparr>"
| "exit_do Destroy_cpufreq s = s\<lparr>freq := mi_thermal_destroy_cpufreq (freq s)\<rparr>"

definition exit_plan :: "exit_action list" where
  "exit_plan = [Cancel_screen, Cancel_usb, Destroy_wq, Unregister_panel, Destroy_message,
     Destroy_powersave, Destroy_cpufreq]"

definition mi_thermal_interface_exit :: "thermal_sys \<Rightarrow> thermal_sys" where
  "mi_thermal_interface_exit s = fold exit_do exit_plan s"

section \<open>Loading and unloading\<close>

definition thermal_idle :: "thermal_sys \<Rightarrow> bool" where
  "thermal_idle s \<longleftrightarrow>
     freq_inv (freq s) \<and> cpufreq_dev_list (freq s) = [] \<and>
     node_idle (message s) \<and> balanced (node_log (message s)) \<and>
     node_idle (powersave s) \<and> balanced (node_log (powersave s)) \<and>
     \<not> panel_cookie s \<and> \<not> panel_registered s \<and> balanced (mod_log s)"

lemma of_parse_frame:
  "of_parse_thermal_message np s = (r, s') \<Longrightarrow>
     freq s' = freq s \<and> message s' = message s \<and> powersave s' = powersave s \<and>
     panel_cookie s' = panel_cookie s \<and> (\<exists>l. mod_log s' = mod_log s @ l \<and> balanced l)"
  by (auto simp: of_parse_thermal_message_def Let_def balanced_def split: option.splits)

lemma exit_unfold: "mi_thermal_interface_exit s =
  (let s = exit_do Unregister_panel (exit_do Destroy_wq (exit_do Cancel_usb (exit_do Cancel_screen s)))
   in s\<lparr>message := destroy_thermal_message_node (message s),
        powersave := destroy_mi_powersave_node (powersave s),
        freq := mi_thermal_destroy_cpufreq (freq s)\<rparr>)"
  by (simp add: mi_thermal_interface_exit_def exit_plan_def Let_def)

lemma exit_fields:
  defines "s' \<equiv> \<lambda>s. mi_thermal_interface_exit s"
  shows "message (s' s) = destroy_thermal_message_node (message s)"
    and "powersave (s' s) = destroy_mi_powersave_node (powersave s)"
    and "freq (s' s) = mi_thermal_destroy_cpufreq (freq s)"
    and "mod_log (s' s) = mod_log s @ (if screen_state_wq s \<noteq> Wq_null then [Put Wq] else []) @
      (if panel_cookie s then [Put Panel_reg] else [])"
  by (simp_all add: s'_def exit_unfold Let_def)

text \<open>What a load attempt leaves behind: the devices stay even when it fails.\<close>

lemma init_fields:
  assumes "mi_thermal_interface_init env s = (ret, s')"
  shows "freq s' = (if cpu_limits_enable (params env)
      then snd (mi_thermal_init_cpufreq (freq_env env) (freq s)) else freq s)"
    and "ret = 0 \<Longrightarrow> create_thermal_message_node (message_env env) (message s) = (0, message s') \<and>
      powersave s' = snd (create_mi_powersave_node (powersave_env env) (powersave s)) \<and>
      panel_cookie s' = panel_ok env \<and> screen_state_wq s' = Wq_live \<and>
      (\<exists>l. balanced l \<and> mod_log s' = mod_log s @ l @ [Get Wq] @
         (if psy_reg_ret env = 0 then [Get Psy_notifier] else []) @
         (if panel_ok env then [Get Panel_reg] else []))"
proof -
  define s0 where "s0 = (if cpu_limits_enable (params env)
      then s\<lparr>freq := snd (mi_thermal_init_cpufreq (freq_env env) (freq s))\<rparr> else s)"
  define s1 where "s1 = snd (of_parse_thermal_message (of_message env) s0)"
  obtain l where s1: "freq s1 = freq s0" "message s1 = message s0" "powersave s1 = powersave s0"
    "mod_log s1 = mod_log s0 @ l" "balanced l"
    using of_parse_frame [OF surjective_pairing, of "of_message env" s0] unfolding s1_def by blast
  have s0: "message s0 = message s" "powersave s0 = powersave s" "mod_log s0 = mod_log s"
    "freq s0 = (if cpu_limits_enable (params env)
      then snd (mi_thermal_init_cpufreq (freq_env env) (freq s)) else freq s)"
    by (simp_all add: s0_def)
  obtain r m where m: "create_thermal_message_node (message_env env) (message s) = (r, m)"
    by fastforce
  note init = assms [unfolded mi_thermal_interface_init_def Let_def s0_def [symmetric]
      s1_def [symmetric]]
  show "freq s' = (if cpu_limits_enable (params env)
      then snd (mi_thermal_init_cpufreq (freq_env env) (freq s)) else freq s)"
    using init s0 s1 m by (auto split: if_splits)
  show "create_thermal_message_node (message_env env) (message s) = (0, message s') \<and>
      powersave s' = snd (create_mi_powersave_node (powersave_env env) (powersave s)) \<and>
      panel_cookie s' = panel_ok env \<and> screen_state_wq s' = Wq_live \<and>
      (\<exists>l. balanced l \<and> mod_log s' = mod_log s @ l @ [Get Wq] @
         (if psy_reg_ret env = 0 then [Get Psy_notifier] else []) @
         (if panel_ok env then [Get Panel_reg] else []))" if "ret = 0"
    using init s0 s1 m that by (auto split: if_splits)
qed

lemma node_cycle_balanced:
  assumes "node_idle d" and "balanced (node_log d)"
  shows "balanced (node_log (destroy_thermal_message_node
    (snd (create_thermal_message_node env d))))"
proof -
  obtain ret d' where c: "create_thermal_message_node env d = (ret, d')" by fastforce
  obtain l where l: "node_log d' = node_log d @ l" "holds_exactly l (node_owned d')"
    using assms(1) c by (rule create_node_result)
  obtain l' where "node_log (destroy_thermal_message_node d') = node_log d' @ l'"
    "run_ledger (mset (node_owned d')) l' = Some {#}"
    using destroy_node_result [of d'] by blast
  then show ?thesis
    using assms(2) l c by (simp add: balanced_def holds_exactly_def run_ledger_append)
qed

text \<open>Unloading releases everything but the power supply notifier. After a successful load
  and an unload, the frequency devices and both node pairs have released exactly what they took
  and so have the workqueue and the panel registration; the notifier registered with the power
  supply core is still registered, so its callback points into the unloaded module.\<close>

theorem thermal_unload_leaves_notifier:
  assumes "thermal_idle s" and "tables_small (freq_env env)"
    and "mi_thermal_interface_init env s = (0, s')"
  defines "t \<equiv> mi_thermal_interface_exit s'"
  shows "balanced (freq_log (freq t)) \<and> cpufreq_dev_list (freq t) = [] \<and>
    balanced (node_log (message t)) \<and> balanced (node_log (powersave t)) \<and>
    holds_exactly (mod_log t) (if psy_reg_ret env = 0 then [Psy_notifier] else [])"
proof -
  note f = init_fields(1) [OF assms(3)] and g = init_fields(2) [OF assms(3) refl]
  have inv: "freq_inv (freq s')"
    using f assms(1,2) cpufreq_setup_inv [OF _ assms(2) surjective_pairing, of "freq s"]
    by (auto simp: thermal_idle_def)
  then have "balanced (freq_log (freq t))" "cpufreq_dev_list (freq t) = []"
    using destroy_balanced by (simp_all add: t_def exit_fields)
  moreover have "balanced (node_log (message t))"
    using node_cycle_balanced [of "message s" "message_env env"] assms(1) g
    by (simp add: t_def exit_fields thermal_idle_def)
  moreover have "balanced (node_log (powersave t))"
    using node_cycle_balanced [of "powersave s" "powersave_env env"] assms(1) g
    by (simp add: t_def exit_fields thermal_idle_def same_create same_destroy)
  moreover have "holds_exactly (mod_log t) (if psy_reg_ret env = 0 then [Psy_notifier] else [])"
    using g assms(1)
    by (auto simp: t_def exit_fields thermal_idle_def holds_exactly_def balanced_def
        run_ledger_append)
  ultimately show ?thesis by blast
qed

definition thermal_start :: thermal_sys where
  "thermal_start = \<lparr>freq = no_devices, message = no_node, powersave = no_node,
     screen_state_wq = Wq_null, panel_cookie = False, panel_registered = False,
     board_sensor = None, ambient_sensor = None, screen = screen_init,
     usb = \<lparr>usb_psy = False, usb_online = 0, usb_pending = False, usb_notes = []\<rparr>, mod_log = []\<rparr>"

definition thermal_env_ok :: thermal_env where
  "thermal_env_ok = \<lparr>params = cpu_limits_defaults, freq_env = demo_env 1, of_message = None,
     wq_ok = True, message_env = sysfs_ok, powersave_env = sysfs_ok, psy_reg_ret = 0,
     panel_ok = True\<rparr>"

lemma thermal_start_idle: "thermal_idle thermal_start"
  using demo_env_small(2)
  by (simp add: thermal_idle_def thermal_start_def) (simp add: no_devices_def no_node_def)

lemma sysfs_ok_create: "create_thermal_message_node sysfs_ok no_node =
  (0, \<lparr>md_kobj = True, md_class_kobj = True,
       node_log = [Get Kernfs_class, Get Kernfs_target, Put Kernfs_class, Get Class_ref,
         Put Kernfs_target, Get Class_kobj, Put Class_ref, Get Class_group, Get Kobj, Get Group]\<rparr>)"
  by (simp add: create_thermal_message_node_def mi_thermal_create_class_node_def
      mi_thermal_get_class_kobj_def sysfs_ok_def no_node_def)

lemma thermal_env_ok_init: "fst (mi_thermal_interface_init thermal_env_ok thermal_start) = 0"
  by (simp add: mi_thermal_interface_init_def thermal_env_ok_def thermal_start_def
      of_parse_thermal_message_def Let_def sysfs_ok_create)

theorem thermal_unload_leaves_notifier_witness:
  "holds_exactly (mod_log (mi_thermal_interface_exit
     (snd (mi_thermal_interface_init thermal_env_ok thermal_start)))) [Psy_notifier]"
proof -
  have "mi_thermal_interface_init thermal_env_ok thermal_start =
      (0, snd (mi_thermal_interface_init thermal_env_ok thermal_start))"
    using thermal_env_ok_init by (metis prod.collapse)
  moreover have "tables_small (freq_env thermal_env_ok)" "psy_reg_ret thermal_env_ok = 0"
    using demo_env_small(1) by (simp_all add: thermal_env_ok_def)
  ultimately show ?thesis
    using thermal_unload_leaves_notifier [OF thermal_start_idle, of thermal_env_ok
        "snd (mi_thermal_interface_init thermal_env_ok thermal_start)"] by simp
qed

text \<open>A failed load leaks the frequency devices. Every error path of the module's init
  leaves the device list as the setup of the frequency devices built it; when it built any
  device, their policy references, allocations and requests stay behind, and the memory of the
  requests goes away with the module.\<close>

theorem thermal_failed_load_leaks:
  assumes "thermal_idle s" and "tables_small (freq_env env)"
    and "mi_thermal_interface_init env s = (ret, s')" and "ret \<noteq> 0"
    and "cpu_limits_enable (params env)"
    and "cpufreq_dev_list (snd (mi_thermal_init_cpufreq (freq_env env) (freq s))) \<noteq> []"
  shows "cpufreq_dev_list (freq s') \<noteq> [] \<and> \<not> balanced (freq_log (freq s'))"
proof -
  have f: "freq s' = snd (mi_thermal_init_cpufreq (freq_env env) (freq s))"
    using init_fields(1) [OF assms(3)] assms(5) by simp
  then have "freq_inv (freq s')"
    using assms(1) cpufreq_setup_inv [OF _ assms(2) surjective_pairing, of "freq s"]
    by (simp add: thermal_idle_def)
  moreover have "cpufreq_dev_list (freq s') \<noteq> []" using f assms(6) by simp
  ultimately show ?thesis
    by (cases "cpufreq_dev_list (freq s')") (auto simp: freq_inv_def balanced_def owned_def)
qed

theorem thermal_failed_load_leaks_witness:
  "\<not> balanced (freq_log (freq (snd
     (mi_thermal_interface_init (thermal_env_ok\<lparr>wq_ok := False\<rparr>) thermal_start))))"
proof -
  have "fst (mi_thermal_interface_init (thermal_env_ok\<lparr>wq_ok := False\<rparr>) thermal_start) \<noteq> 0"
    by (simp add: mi_thermal_interface_init_def Let_def)
  moreover have "cpufreq_dev_list (snd (mi_thermal_init_cpufreq (demo_env 1) no_devices)) \<noteq> []"
    by (simp add: mi_thermal_init_cpufreq_def demo_env_def init_cpufreq_cpu_def demo_pol_def
        valid_entries_def Let_def)
  ultimately show ?thesis
    using thermal_failed_load_leaks [OF thermal_start_idle, of "thermal_env_ok\<lparr>wq_ok := False\<rparr>"
        "fst (mi_thermal_interface_init (thermal_env_ok\<lparr>wq_ok := False\<rparr>) thermal_start)"
        "snd (mi_thermal_interface_init (thermal_env_ok\<lparr>wq_ok := False\<rparr>) thermal_start)"]
      demo_env_small(1)
    by (simp add: thermal_env_ok_def cpu_limits_defaults_def thermal_start_def)
qed

end
