(* ===== verification/Thermal_Events.thy ===== *)
theory Thermal_Events
  imports Thermal_Module
begin

text \<open>
  What happens after a panel or USB event in \<open>mi_thermal_interface.c\<close>. The callbacks only set a
  flag and queue a work item; the attribute changes when the item has run. The locale
  \<open>work_system\<close> is what a system of callbacks and work items promises: every step of its own
  makes it lighter, and it is stuck exactly when it is quiet. It gives that, once the events
  stop, every schedule comes to a quiet state within a bound. The screen work and the USB work
  interpret it; the invariants of their step relations then say what the quiet state shows.
\<close>

locale work_system =
  fixes step :: "'s \<Rightarrow> 's \<Rightarrow> bool" and weight :: "'s \<Rightarrow> nat" and quiet :: "'s \<Rightarrow> bool"
  assumes step_weight: "step s t \<Longrightarrow> weight t < weight s"
    and quiet_stuck: "quiet s \<longleftrightarrow> (\<nexists>t. step s t)"
begin

lemma steps_wf: "wf {(t, s). step s t}"
  by (rule wf_subset [OF wf_measure [of weight]]) (auto simp: step_weight)

lemma run_bound: "(step ^^ n) s t \<Longrightarrow> n + weight t \<le> weight s"
proof (induction n arbitrary: t)
  case (Suc n)
  then obtain u where "(step ^^ n) s u" "step u t" by auto
  then show ?case using Suc.IH [of u] step_weight [of u t] by simp
qed simp

lemma settles: "\<exists>t. step\<^sup>*\<^sup>* s t \<and> quiet t"
proof (induction s rule: measure_induct_rule [of weight])
  case (less s)
  show ?case
  proof (cases "quiet s")
    case False
    then obtain u where "step s u" using quiet_stuck by blast
    then show ?thesis using less [OF step_weight] converse_rtranclp_into_rtranclp by metis
  qed auto
qed

end

section \<open>The screen work\<close>

text \<open>The steps of \<open>screen_step\<close> that need no panel event: a callback queues the work, the work
  starts, the work stores what it has read.\<close>

inductive screen_work :: "mi_thermal_device \<Rightarrow> screen_sys \<Rightarrow> screen_sys \<Rightarrow> bool" for d where
  Work_queue: "callbacks s = Suc n \<Longrightarrow> screen_work d s ((queue_screen_work s)\<lparr>callbacks := n\<rparr>)"
| Work_start: "dw_pending s \<Longrightarrow> dw_running s = None \<Longrightarrow>
     screen_work d s (s\<lparr>dw_pending := False, dw_running := Some (screen_light s)\<rparr>)"
| Work_finish: "dw_running s = Some v \<Longrightarrow>
     screen_work d s ((screen_check_store d v s)\<lparr>dw_running := None\<rparr>)"

inductive_cases screen_workE: "screen_work d s t"

definition screen_weight :: "screen_sys \<Rightarrow> nat" where
  "screen_weight s = 3 * callbacks s + (if dw_pending s then 2 else 0) +
     (if dw_running s = None then 0 else 1)"

lemma check_store_keeps [simp]:
  "callbacks (screen_check_store d v s) = callbacks s"
  "dw_pending (screen_check_store d v s) = dw_pending s"
  "screen_light (screen_check_store d v s) = screen_light s"
  by (simp_all add: screen_check_store_def)

lemma screen_work_is_step: "screen_work d s t \<Longrightarrow> screen_step d s t \<and> screen_light t = screen_light s"
proof (erule screen_workE)
  show "screen_step d s t \<and> screen_light t = screen_light s"
    if "t = (queue_screen_work s)\<lparr>callbacks := n\<rparr>" "callbacks s = Suc n" for n
    using that screen_step.Queue [OF that(2)] by (simp add: queue_screen_work_def)
qed (auto intro: screen_step.intros)

interpretation screen_works: work_system "screen_work d" screen_weight screen_quiet
proof
  show "screen_weight t < screen_weight s" if "screen_work d s t" for s t
    using that by (rule screen_workE) (auto simp: screen_weight_def queue_screen_work_def)
  show "screen_quiet s \<longleftrightarrow> (\<nexists>t. screen_work d s t)" for s
  proof
    show "\<nexists>t. screen_work d s t" if "screen_quiet s"
      using that by (auto simp: screen_quiet_def elim: screen_workE)
    show "screen_quiet s" if "\<nexists>t. screen_work d s t"
    proof -
      have "callbacks s = 0" using that Work_queue [of s _ d] by (cases "callbacks s") auto
      moreover have "dw_running s = None" using that Work_finish [of s _ d] by (cases "dw_running s") auto
      ultimately show ?thesis using that Work_start [of s d] by (auto simp: screen_quiet_def)
    qed
  qed
qed

lemma screen_work_run:
  "(screen_work d)\<^sup>*\<^sup>* s t \<Longrightarrow> screen_reach d s \<Longrightarrow> screen_reach d t \<and> screen_light t = screen_light s"
proof (induction rule: rtranclp_induct)
  case (step t u)
  then show ?case using screen_work_is_step [OF step.hyps(2)] screen_reach_step by auto
qed simp

text \<open>C4: the screen state settles. In every state that panel events and the work can reach, when
  no further event comes, the module comes to rest, after at most three steps per callback in
  flight and three more, however these are scheduled; at rest the attribute shows the last event.\<close>

theorem screen_work_settles:
  assumes "screen_reach d s"
  shows "(\<exists>t. (screen_work d)\<^sup>*\<^sup>* s t \<and> screen_quiet t) \<and>
    (\<forall>n t. (screen_work d ^^ n) s t \<longrightarrow> n \<le> 3 * callbacks s + 3) \<and>
    (\<forall>t. (screen_work d)\<^sup>*\<^sup>* s t \<and> (\<nexists>u. screen_work d t u) \<longrightarrow> screen_state t = screen_light s)"
proof (intro conjI allI impI)
  show "\<exists>t. (screen_work d)\<^sup>*\<^sup>* s t \<and> screen_quiet t" by (rule screen_works.settles)
next
  fix n t assume "(screen_work d ^^ n) s t"
  from screen_works.run_bound [OF this] show "n \<le> 3 * callbacks s + 3"
    by (simp add: screen_weight_def split: if_splits)
next
  fix t assume t: "(screen_work d)\<^sup>*\<^sup>* s t \<and> (\<nexists>u. screen_work d t u)"
  then have "screen_quiet t" using screen_works.quiet_stuck by blast
  moreover have "screen_reach d t" "screen_light t = screen_light s"
    using screen_work_run t assms by blast+
  ultimately show "screen_state t = screen_light s"
    using screen_reach_inv [of d t] by (auto simp: screen_inv_def screen_quiet_def)
qed

theorem screen_work_settles_witness:
  "\<exists>t. (screen_work no_node)\<^sup>*\<^sup>* (screen_init\<lparr>screen_light := True, callbacks := 1\<rparr>) t \<and>
     screen_quiet t \<and> screen_state t"
proof -
  let ?s = "screen_init\<lparr>screen_light := True, callbacks := 1\<rparr>"
  have "screen_step no_node screen_init ?s"
    using screen_step.Event [of "Some Panel_unblank" screen_init _ no_node]
    by (simp add: screen_callback_set_def screen_init_def)
  then have r: "screen_reach no_node ?s" by (meson screen_reach.intros)
  from screen_work_settles [OF r] obtain t where
    "(screen_work no_node)\<^sup>*\<^sup>* ?s t" "screen_quiet t"
    and q: "\<forall>t. (screen_work no_node)\<^sup>*\<^sup>* ?s t \<and> (\<nexists>u. screen_work no_node t u) \<longrightarrow> screen_state t"
    by auto
  then show ?thesis using screen_works.quiet_stuck by blast
qed

section \<open>The USB work\<close>

text \<open>
  The work looks up the supply, reads its property and stores the value, and the supply can
  change between the accesses. \<open>reading\<close> is what reading the property gives at the moment, an error
  or a value; \<open>calls\<close> counts the changes whose notifier call is still to come.
\<close>

datatype usb_pc = At_rest | Looked_up | Has_read "int + int"

record usb_conc =
  usys :: usb_sys
  reading :: "int + int"
  calls :: nat
  usb_pc :: usb_pc
  changed :: bool

definition usb_start :: "int + int \<Rightarrow> usb_conc" where
  "usb_start v = \<lparr>usys = \<lparr>usb_psy = False, usb_online = 0, usb_pending = False, usb_notes = []\<rparr>,
     reading = v, calls = 0, usb_pc = At_rest, changed = False\<rparr>"

text \<open>\<open>usb_online_work\<close> in the pieces between which the supply can change.\<close>

definition usb_lookup :: "bool \<Rightarrow> usb_sys \<Rightarrow> bool \<times> usb_sys" where
  "usb_lookup found s = (let s1 = (if \<not> usb_psy s then s\<lparr>usb_psy := found\<rparr> else s) in (usb_psy s1, s1))"

definition usb_store :: "mi_thermal_device \<Rightarrow> int + int \<Rightarrow> usb_sys \<Rightarrow> usb_sys" where
  "usb_store d r s =
     (case r of
        Inl ret \<Rightarrow> s
      | Inr v \<Rightarrow> s\<lparr>usb_online := v, usb_notes := usb_notes s @ mi_thermal_notify d ''usb_online''\<rparr>)"

lemma usb_work_pieces:
  "usb_online_work d found r s =
     (case usb_lookup found s of (ok, s1) \<Rightarrow> if ok then usb_store d r s1 else s1)"
  by (simp add: usb_online_work_def usb_lookup_def usb_store_def Let_def)

text \<open>The steps of the module: a notifier call, and the pieces of the work.\<close>

inductive usb_work :: "mi_thermal_device \<Rightarrow> bool \<Rightarrow> usb_conc \<Rightarrow> usb_conc \<Rightarrow> bool" for d found where
  Usb_deliver: "calls c = Suc n \<Longrightarrow>
     usb_work d found c (c\<lparr>usys := usb_online_callback (Some ''usb'') (usys c), calls := n\<rparr>)"
| Usb_begin: "usb_pending (usys c) \<Longrightarrow> usb_pc c = At_rest \<Longrightarrow>
     usb_lookup found ((usys c)\<lparr>usb_pending := False\<rparr>) = (ok, s) \<Longrightarrow>
     usb_work d found c (c\<lparr>usys := s, usb_pc := (if ok then Looked_up else At_rest)\<rparr>)"
| Usb_read: "usb_pc c = Looked_up \<Longrightarrow> usb_work d found c (c\<lparr>usb_pc := Has_read (reading c)\<rparr>)"
| Usb_finish: "usb_pc c = Has_read r \<Longrightarrow>
     usb_work d found c (c\<lparr>usys := usb_store d r (usys c), usb_pc := At_rest\<rparr>)"

inductive_cases usb_workE: "usb_work d found c c'"

text \<open>With the supply: it changes and owes a call; other supplies call the notifier as well.\<close>

inductive usb_step :: "mi_thermal_device \<Rightarrow> bool \<Rightarrow> usb_conc \<Rightarrow> usb_conc \<Rightarrow> bool" for d found where
  Usb_change: "usb_step d found c (c\<lparr>reading := v, calls := Suc (calls c), changed := True\<rparr>)"
| Usb_other: "psy \<noteq> Some ''usb'' \<Longrightarrow>
     usb_step d found c (c\<lparr>usys := usb_online_callback psy (usys c)\<rparr>)"
| Usb_internal: "usb_work d found c c' \<Longrightarrow> usb_step d found c c'"

inductive_cases usb_stepE: "usb_step d found c c'"

definition usb_quiet :: "usb_conc \<Rightarrow> bool" where
  "usb_quiet c \<longleftrightarrow> calls c = 0 \<and> \<not> usb_pending (usys c) \<and> usb_pc c = At_rest"

definition usb_weight :: "usb_conc \<Rightarrow> nat" where
  "usb_weight c = 4 * calls c + (if usb_pending (usys c) then 3 else 0) +
     (case usb_pc c of At_rest \<Rightarrow> 0 | Looked_up \<Rightarrow> 2 | Has_read r \<Rightarrow> 1)"

lemma usb_lookup_keeps:
  "usb_lookup found s = (ok, s') \<Longrightarrow> usb_pending s' = usb_pending s \<and> usb_online s' = usb_online s"
  by (auto simp: usb_lookup_def Let_def split: if_splits)

lemma usb_store_keeps [simp]: "usb_pending (usb_store d r s) = usb_pending s"
  by (simp add: usb_store_def split: sum.split)

interpretation usb_works: work_system "usb_work d found" usb_weight usb_quiet
proof
  show "usb_weight c' < usb_weight c" if "usb_work d found c c'" for c c'
    using that
    by (rule usb_workE) (auto simp: usb_weight_def usb_online_callback_def dest: usb_lookup_keeps)
  show "usb_quiet c \<longleftrightarrow> (\<nexists>c'. usb_work d found c c')" for c
  proof
    show "\<nexists>c'. usb_work d found c c'" if "usb_quiet c"
      using that by (auto simp: usb_quiet_def elim: usb_workE)
    show "usb_quiet c" if stuck: "\<nexists>c'. usb_work d found c c'"
    proof -
      have "calls c = 0" using stuck Usb_deliver [of c _ d found] by (cases "calls c") auto
      moreover have "usb_pc c = At_rest"
        using stuck Usb_read [of c d found] Usb_finish [of c _ d found] by (cases "usb_pc c") auto
      ultimately show ?thesis
        using stuck Usb_begin [OF _ _ surjective_pairing] by (auto simp: usb_quiet_def)
    qed
  qed
qed

text \<open>What the work still has to do is enough to catch up with the supply.\<close>

definition usb_inv :: "usb_conc \<Rightarrow> bool" where
  "usb_inv c \<longleftrightarrow> changed c \<longrightarrow> 0 < calls c \<or> usb_pending (usys c) \<or>
     (case usb_pc c of
        At_rest \<Rightarrow> (\<forall>v. reading c = Inr v \<longrightarrow> usb_online (usys c) = v)
      | Looked_up \<Rightarrow> True
      | Has_read r \<Rightarrow> r = reading c)"

lemma usb_lookup_found: "usb_lookup True s = (ok, s') \<Longrightarrow> ok"
  by (auto simp: usb_lookup_def Let_def split: if_splits)

lemma usb_inv_work: "usb_work d True c c' \<Longrightarrow> usb_inv c \<Longrightarrow> usb_inv c'"
  by (erule usb_workE)
    (auto simp: usb_inv_def usb_online_callback_def usb_store_def dest: usb_lookup_found
      split: sum.splits usb_pc.splits)

lemma usb_inv_step: "usb_step d True c c' \<Longrightarrow> usb_inv c \<Longrightarrow> usb_inv c'"
proof (erule usb_stepE)
  show "usb_inv c'" if "c' = c\<lparr>reading := v, calls := Suc (calls c), changed := True\<rparr>" for v
    using that by (simp add: usb_inv_def)
  show "usb_inv c'" if "usb_inv c" "c' = c\<lparr>usys := usb_online_callback psy (usys c)\<rparr>"
    "psy \<noteq> Some ''usb''" for psy
    using that by (simp add: usb_online_callback_def)
qed (rule usb_inv_work)

lemma usb_reach_inv: "(usb_step d True)\<^sup>*\<^sup>* (usb_start v) c \<Longrightarrow> usb_inv c"
proof (induction rule: rtranclp_induct)
  case base
  show ?case by (simp add: usb_start_def usb_inv_def)
qed (rule usb_inv_step)

lemma usb_work_run:
  "(usb_work d found)\<^sup>*\<^sup>* c c' \<Longrightarrow>
     (usb_step d found)\<^sup>*\<^sup>* c c' \<and> reading c' = reading c \<and> changed c' = changed c"
proof (induction rule: rtranclp_induct)
  case (step t u)
  have "reading u = reading t \<and> changed u = changed t"
    using step.hyps(2) by (rule usb_workE) simp_all
  then show ?case
    using step.IH Usb_internal [OF step.hyps(2)] rtranclp.rtrancl_into_rtrancl by metis
qed simp

text \<open>C17: the USB attribute catches up. Let the USB supply change any number of times, with its
  notifier calls and the accesses of the work interleaved in any way, and the supply be there to
  be looked up. When no more changes come, every schedule comes to rest, and then the attribute
  has the value the supply has, provided it changed at all since the module was loaded and
  reading it does not fail.\<close>

theorem usb_online_catches_up:
  assumes "(usb_step d True)\<^sup>*\<^sup>* (usb_start v0) c" and "changed c" and "reading c = Inr v"
  shows "(\<exists>t. (usb_work d True)\<^sup>*\<^sup>* c t \<and> usb_quiet t) \<and>
    (\<forall>n t. (usb_work d True ^^ n) c t \<longrightarrow> n \<le> 4 * calls c + 5) \<and>
    (\<forall>t. (usb_work d True)\<^sup>*\<^sup>* c t \<and> usb_quiet t \<longrightarrow> usb_online (usys t) = v)"
proof (intro conjI allI impI)
  show "\<exists>t. (usb_work d True)\<^sup>*\<^sup>* c t \<and> usb_quiet t" by (rule usb_works.settles)
next
  fix n t assume "(usb_work d True ^^ n) c t"
  from usb_works.run_bound [OF this] show "n \<le> 4 * calls c + 5"
    by (simp add: usb_weight_def split: if_splits usb_pc.splits)
next
  fix t assume t: "(usb_work d True)\<^sup>*\<^sup>* c t \<and> usb_quiet t"
  then have "usb_inv t" using usb_work_run usb_reach_inv assms(1) rtranclp_trans by metis
  then show "usb_online (usys t) = v"
    using t usb_work_run [of d True c t] assms(2,3) by (simp add: usb_inv_def usb_quiet_def)
qed

theorem usb_online_catches_up_witness:
  "\<exists>t. (usb_work no_node True)\<^sup>*\<^sup>* ((usb_start (Inr 0))\<lparr>reading := Inr 1, calls := 1, changed := True\<rparr>) t \<and>
     usb_quiet t \<and> usb_online (usys t) = 1"
proof -
  let ?c = "(usb_start (Inr 0))\<lparr>reading := Inr 1, calls := 1, changed := True\<rparr>"
  have "usb_step no_node True (usb_start (Inr 0)) ?c"
    using Usb_change [of no_node True "usb_start (Inr 0)" "Inr 1"] by (simp add: usb_start_def)
  then have r: "(usb_step no_node True)\<^sup>*\<^sup>* (usb_start (Inr 0)) ?c" by blast
  show ?thesis using usb_online_catches_up [OF r, of 1] by auto
qed

text \<open>Until the supply reports a change, the attribute shows 0: loading does not queue the work.\<close>

lemma usb_online_unset: "usb_quiet (usb_start (Inr 1)) \<and> usb_online (usys (usb_start (Inr 1))) = 0"
  by (simp add: usb_quiet_def usb_start_def)

text \<open>C38: the deferred work always ends. There is no infinite run of steps of the module's own,
  neither of the screen work nor of the USB work, from any state at all, also when the supply
  cannot be looked up.\<close>

theorem event_work_terminates:
  "wf {(t, s). screen_work d s t} \<and> wf {(t, c). usb_work d found c t}"
  using screen_works.steps_wf usb_works.steps_wf by blast

end
