(* ===== verification/Thermal_Files.thy ===== *)
theory Thermal_Files
  imports Thermal_Events
begin

text \<open>
  The two sysfs directories of \<open>mi_thermal_interface.c\<close> as user space sees them: the attribute
  tables \<open>mi_thermal_attrs\<close> and \<open>mi_powersave_attrs\<close> in the order of the source, and the dispatch
  from a file name to the show or store handler of the attribute. An attribute declared without
  a store handler is answered with \<open>-EIO\<close> by the kernel object layer. Writing is an option:
  \<open>None\<close> is a fault in the walk over the frequency devices.
\<close>

section \<open>Files\<close>

datatype thermal_file =
    Int_file int_attr | Str_file str_attr | Board_temp_file | Cpu_limits_file | Sconfig_file
  | Screen_state_file | Usb_online_file | Board_sensor_file | Ambient_sensor_file

record thermal_files =
  tf_attrs :: thermal_attrs
  switch_mode :: int
  tf_screen :: screen_sys
  tf_usb :: usb_sys
  tf_board :: "string option"
  tf_ambient :: "string option"
  tf_devs :: "cpufreq_device list"
  tf_caps :: "cap_event list"

fun file_show :: "thermal_file \<Rightarrow> thermal_files \<Rightarrow> string" where
  "file_show (Int_file a) s = thermal_int_show a (tf_attrs s)"
| "file_show (Str_file a) s = thermal_string_show a (tf_attrs s)"
| "file_show Board_temp_file s = mi_string_show (str_vals (tf_attrs s) Board_sensor_temp)"
| "file_show Cpu_limits_file s = cpu_limits_show"
| "file_show Sconfig_file s = thermal_sconfig_show"
| "file_show Screen_state_file s = thermal_screen_state_show (screen_state (tf_screen s))"
| "file_show Usb_online_file s = thermal_usb_online_show (tf_usb s)"
| "file_show Board_sensor_file s = thermal_sensor_show (tf_board s)"
| "file_show Ambient_sensor_file s = thermal_sensor_show (tf_ambient s)"

fun file_store ::
  "cpu_limits_params \<Rightarrow> battery \<Rightarrow> qos_update \<Rightarrow> thermal_file \<Rightarrow> string \<Rightarrow> thermal_files \<Rightarrow>
     (int \<times> thermal_files) option" where
  "file_store p psy qos (Int_file a) buf s =
     Some (map_prod id (\<lambda>t. s\<lparr>tf_attrs := t\<rparr>) (thermal_int_store a buf (tf_attrs s)))"
| "file_store p psy qos (Str_file a) buf s =
     Some (map_prod id (\<lambda>t. s\<lparr>tf_attrs := t\<rparr>) (thermal_string_store a buf (tf_attrs s)))"
| "file_store p psy qos Board_temp_file buf s =
     Some (map_prod id (\<lambda>t. s\<lparr>tf_attrs := t\<rparr>) (thermal_board_sensor_temp_store buf (tf_attrs s)))"
| "file_store p psy qos Cpu_limits_file buf s =
     map_option (\<lambda>(r, devs, evs). (r, s\<lparr>tf_devs := devs, tf_caps := tf_caps s @ evs\<rparr>))
       (cpu_limits_store p psy (tf_attrs s) qos buf (tf_devs s))"
| "file_store p psy qos Sconfig_file buf s =
     Some (map_prod id (\<lambda>m. s\<lparr>switch_mode := m\<rparr>) (thermal_sconfig_store buf (switch_mode s)))"
| "file_store p psy qos _ buf s = Some (- EIO, s)"

text \<open>The tables, with the modes 0664 and 0444.\<close>

definition mi_thermal_attrs :: "(string \<times> nat \<times> thermal_file) list" where
  "mi_thermal_attrs =
    [(''temp_state'', 436, Int_file Temp_state), (''cpu_limits'', 436, Cpu_limits_file),
     (''sconfig'', 436, Sconfig_file), (''screen_state'', 292, Screen_state_file),
     (''boost'', 436, Str_file Boost), (''board_sensor'', 292, Board_sensor_file),
     (''board_sensor_temp'', 436, Board_temp_file),
     (''board_sensor_second_temp'', 436, Str_file Board_sensor_second_temp),
     (''board_sensor_other_temp'', 436, Str_file Board_sensor_other_temp),
     (''balance_mode'', 436, Int_file Balance_mode), (''modem_limit'', 436, Int_file Modem_limit),
     (''wifi_limit'', 436, Int_file Wifi_limit), (''flash_state'', 436, Int_file Flash_state),
     (''torch_level'', 436, Int_file Torch_level),
     (''torch_real_level'', 436, Int_file Torch_real_level),
     (''thermal_max_brightness'', 436, Int_file Thermal_max_brightness),
     (''display_therm_temp'', 436, Int_file Display_therm_temp),
     (''voice_limit'', 436, Int_file Voice_limit), (''super_hdr'', 436, Int_file Super_hdr),
     (''cloud_game'', 436, Int_file Cloud_game), (''dynamic_tj'', 436, Int_file Dynamic_tj),
     (''market_download_limit'', 436, Int_file Market_download_limit),
     (''board_sensor_temp_comp'', 436, Int_file Board_sensor_temp_comp),
     (''poor_modem_limit'', 436, Int_file Poor_modem_limit),
     (''cpu_nolimit_temp'', 436, Int_file Cpu_nolimit_temp),
     (''ntn_limit'', 436, Int_file Ntn_limit), (''modem_level'', 436, Int_file Modem_level),
     (''ambient_sensor'', 292, Ambient_sensor_file),
     (''ambient_sensor_temp'', 436, Str_file Ambient_sensor_temp),
     (''boot_complete'', 436, Int_file Boot_complete),
     (''charger_temp'', 436, Int_file Charger_temp), (''usb_online'', 292, Usb_online_file)]"

definition mi_powersave_attrs :: "(string \<times> nat \<times> thermal_file) list" where
  "mi_powersave_attrs =
    [(''powersave_mode'', 436, Int_file Powersave_mode),
     (''power_level'', 436, Int_file Power_level)]"

datatype thermal_dir = Thermal_message | Mi_powersave

definition lookup_file :: "thermal_dir \<times> string \<Rightarrow> (nat \<times> thermal_file) option" where
  "lookup_file x =
     map_of (case fst x of Thermal_message \<Rightarrow> mi_thermal_attrs | Mi_powersave \<Rightarrow> mi_powersave_attrs)
       (snd x)"

definition sysfs_read :: "thermal_dir \<times> string \<Rightarrow> thermal_files \<Rightarrow> string option" where
  "sysfs_read x s = map_option (\<lambda>(mode, f). file_show f s) (lookup_file x)"

definition sysfs_write ::
  "cpu_limits_params \<Rightarrow> battery \<Rightarrow> qos_update \<Rightarrow> thermal_dir \<times> string \<Rightarrow> string \<Rightarrow> thermal_files \<Rightarrow>
     (int \<times> thermal_files) option" where
  "sysfs_write p psy qos x buf s =
     (case lookup_file x of
        None \<Rightarrow> Some (- ENOENT, s)
      | Some (mode, f) \<Rightarrow> file_store p psy qos f buf s)"

section \<open>Every file has its own attribute\<close>

definition read_only :: "thermal_file \<Rightarrow> bool" where
  "read_only f \<longleftrightarrow> f \<in> {Screen_state_file, Usb_online_file, Board_sensor_file, Ambient_sensor_file}"

lemmas thermal_tables = mi_thermal_attrs_def mi_powersave_attrs_def

lemma files_distinct: "distinct (map (snd \<circ> snd) (mi_thermal_attrs @ mi_powersave_attrs))"
  by (simp add: thermal_tables)

lemma files_modes:
  "list_all (\<lambda>(n, mode, f). mode = (if read_only f then 292 else 436) \<and> f \<noteq> Str_file Board_sensor_temp)
     (mi_thermal_attrs @ mi_powersave_attrs)"
  by (simp add: thermal_tables read_only_def)

lemma lookup_mem:
  assumes "lookup_file x = Some e"
  shows "(snd x, e) \<in> set (mi_thermal_attrs @ mi_powersave_attrs)"
    and "(snd x, e) \<in> set (case fst x of Thermal_message \<Rightarrow> mi_thermal_attrs
           | Mi_powersave \<Rightarrow> mi_powersave_attrs)"
  using assms map_of_SomeD [of _ "snd x" e]
  by (auto simp: lookup_file_def split: thermal_dir.splits)

text \<open>Two names never lead to the same attribute, in one directory or in both.\<close>

lemma lookup_inj:
  assumes "lookup_file x = Some (m, f)" and "lookup_file y = Some (m', f)"
  shows "x = y"
proof -
  let ?all = "mi_thermal_attrs @ mi_powersave_attrs"
  have inj: "inj_on (snd \<circ> snd) (set ?all)" using files_distinct by (simp only: distinct_map)
  have e: "(snd x, m, f) = (snd y, m', f)"
    using inj_onD [OF inj _ lookup_mem(1) [OF assms(1)] lookup_mem(1) [OF assms(2)]] by simp
  have "set mi_thermal_attrs \<inter> set mi_powersave_attrs = {}"
    using files_distinct by (force simp: distinct_map)
  then have "fst x = fst y"
    using lookup_mem(2) [OF assms(1)] lookup_mem(2) [OF assms(2)] e
    by (cases "fst x"; cases "fst y") auto
  then show ?thesis using e by (simp add: prod_eq_iff)
qed

lemma lookup_not_board_temp: "lookup_file x = Some (m, f) \<Longrightarrow> f \<noteq> Str_file Board_sensor_temp"
  using lookup_mem(1) files_modes by (fastforce simp: list_all_iff)

text \<open>A store changes what no other attribute shows.\<close>

lemma store_frame:
  assumes "file_store p psy qos f buf s = Some (r, s')" and "g \<noteq> f"
    and "f \<noteq> Str_file Board_sensor_temp" and "g \<noteq> Str_file Board_sensor_temp"
  shows "file_show g s' = file_show g s"
  using assms
  by (cases f; cases g)
    (auto simp: thermal_int_store_def thermal_string_store_def thermal_board_sensor_temp_store_def
      thermal_int_show_def thermal_string_show_def thermal_sconfig_store_def Let_def)

lemma store_result:
  assumes "file_store p psy qos f buf s = Some (r, s')"
  shows "(if read_only f then r = - EIO \<and> s' = s
          else r = int (length buf) \<or> f = Cpu_limits_file \<and> r = - EINVAL \<and> s' = s)"
  using assms
  by (cases f) (auto simp: read_only_def thermal_int_store_def thermal_string_store_def
      thermal_board_sensor_temp_store_def thermal_sconfig_store_def Let_def cpu_limits_store_def
      split: option.splits if_splits prod.splits)

text \<open>C23: files are independent and answer writes in a fixed way. Whatever text is written to
  whatever name in one of the two directories, a write that does not fault changes the contents
  of no other file. A name that is no file gives \<open>-ENOENT\<close>, one of the four read-only files
  \<open>-EIO\<close>, and every other file takes the whole text, except that \<open>cpu_limits\<close> may refuse it with
  \<open>-EINVAL\<close>; with an error nothing has changed.\<close>

theorem thermal_files_independent:
  assumes "sysfs_write p psy qos x buf s = Some (r, s')"
  shows "(\<forall>y. y \<noteq> x \<longrightarrow> sysfs_read y s' = sysfs_read y s) \<and>
    (case lookup_file x of
       None \<Rightarrow> r = - ENOENT \<and> s' = s
     | Some (mode, f) \<Rightarrow>
         if read_only f then r = - EIO \<and> s' = s
         else r = int (length buf) \<or> f = Cpu_limits_file \<and> r = - EINVAL \<and> s' = s)"
proof (cases "lookup_file x")
  case (Some e)
  obtain mode f where e: "e = (mode, f)" by fastforce
  have st: "file_store p psy qos f buf s = Some (r, s')"
    using assms Some e by (simp add: sysfs_write_def)
  have "sysfs_read y s' = sysfs_read y s" if "y \<noteq> x" for y
  proof (cases "lookup_file y")
    case (Some e')
    obtain mode' g where e': "e' = (mode', g)" by fastforce
    have "g \<noteq> f" using lookup_inj [of x mode f y mode'] \<open>lookup_file x = Some e\<close> Some e e' that by auto
    then have "file_show g s' = file_show g s"
      using store_frame [OF st] lookup_not_board_temp \<open>lookup_file x = Some e\<close> Some e e' by blast
    then show ?thesis using Some e' by (simp add: sysfs_read_def)
  qed (simp add: sysfs_read_def)
  then show ?thesis using Some e store_result [OF st] by simp
qed (use assms in \<open>simp add: sysfs_write_def\<close>)

section \<open>Reading back\<close>

text \<open>The texts a file gives back: numbers as they are printed, and clean lines.\<close>

fun text_ok :: "thermal_file \<Rightarrow> string \<Rightarrow> bool" where
  "text_ok (Int_file a) line \<longleftrightarrow> (case kstrtoint line of Inl e \<Rightarrow> False | Inr v \<Rightarrow> line = fmt_d v)"
| "text_ok (Str_file a) line \<longleftrightarrow> NUL \<notin> set line \<and> (line = [] \<or> \<not> isspace (last line)) \<and>
     length line < MI_THERMAL_BUF_LEN - 1"
| "text_ok Board_temp_file line \<longleftrightarrow> NUL \<notin> set line \<and> (line = [] \<or> \<not> isspace (last line)) \<and>
     length line < MI_THERMAL_BUF_LEN - 1"
| "text_ok _ line \<longleftrightarrow> False"

lemma string_store_show:
  assumes "attrs_wf t" and "NUL \<notin> set line" and "line = [] \<or> \<not> isspace (last line)"
    and "length line < MI_THERMAL_BUF_LEN - 1"
  shows "thermal_string_show a (snd (thermal_string_store a (line @ [LF]) t)) = line @ [LF]"
proof -
  have "length (str_vals t a) = MI_THERMAL_BUF_LEN" using assms(1) by (simp add: attrs_wf_def)
  then have "cstr (mi_string_store (str_vals t a) (line @ [LF])) = line"
    using assms(2-4) by (intro mi_str.read_back) auto
  then show ?thesis
    using assms(4)
    by (simp add: thermal_string_show_def thermal_string_store_def mi_string_show_def scnprintf_def)
qed

lemma int_store_show:
  assumes "is_s32 v"
  shows "thermal_int_show a (snd (thermal_int_store a (fmt_d v @ [LF]) t)) = fmt_d v @ [LF]"
  using assms simple_strtol_fmt_d [OF is_s64_s32 [OF assms], of "[LF]"]
  by (simp add: thermal_int_store_def thermal_int_show_def mi_int_store_def mi_int_show_text)

lemma store_show:
  assumes "attrs_wf (tf_attrs s)" and "text_ok f line"
  shows "\<exists>s'. file_store p psy qos f (line @ [LF]) s = Some (int (length line) + 1, s') \<and>
    file_show f s' = line @ [LF] \<and> attrs_wf (tf_attrs s')"
proof (cases f)
  case (Int_file a)
  then obtain v where v: "kstrtoint line = Inr v" "line = fmt_d v"
    using assms(2) by (auto split: sum.splits)
  then have "is_s32 v" using kstrtoint_s32 by blast
  then show ?thesis
    using Int_file v(2) int_store_show attrs_wf_int_store [OF assms(1), of a]
    by (auto simp: thermal_int_store_def map_prod_def)
next
  case (Str_file a)
  then show ?thesis
    using string_store_show [OF assms(1)] attrs_wf_string_store [OF assms(1), of a] assms(2)
    by (auto simp: thermal_string_store_def map_prod_def)
next
  case Board_temp_file
  then show ?thesis
    using string_store_show [OF assms(1), of line Board_sensor_temp]
      attrs_wf_string_store [OF assms(1), of Board_sensor_temp] assms(2)
    by (auto simp: board_sensor_temp_store_is_string_store thermal_string_store_def
        thermal_string_show_def map_prod_def)
qed (use assms(2) in auto)

text \<open>C32: what is written is read back, file by file. For each of the 23 integer and 5 text files
  of both directories, writing a number as it is printed, or a clean line, with the newline
  \<open>echo\<close> appends, is accepted in full and read back unchanged, and keeps the buffers well formed.\<close>

theorem thermal_files_roundtrip:
  assumes "attrs_wf (tf_attrs s)" and "lookup_file x = Some (mode, f)" and "text_ok f line"
  shows "\<exists>s'. sysfs_write p psy qos x (line @ [LF]) s = Some (int (length line) + 1, s') \<and>
    sysfs_read x s' = Some (line @ [LF]) \<and> attrs_wf (tf_attrs s')"
  using store_show [OF assms(1,3)] assms(2) by (simp add: sysfs_write_def sysfs_read_def)

definition files_start :: thermal_files where
  "files_start = \<lparr>tf_attrs = thermal_attrs_init, switch_mode = 0, tf_screen = screen_init,
     tf_usb = \<lparr>usb_psy = False, usb_online = 0, usb_pending = False, usb_notes = []\<rparr>,
     tf_board = None, tf_ambient = None, tf_devs = [], tf_caps = []\<rparr>"

theorem thermal_files_independent_witness:
  "(case sysfs_write cpu_limits_defaults None (\<lambda>_ _. 1) (Thermal_message, ''boost'') ''1'' files_start of
      None \<Rightarrow> False
    | Some (r, s') \<Rightarrow> r = 1 \<and> sysfs_read (Thermal_message, ''wifi_limit'') s' =
        sysfs_read (Thermal_message, ''wifi_limit'') files_start)"
proof -
  have l: "lookup_file (Thermal_message, ''boost'') = Some (436, Str_file Boost)"
    by (simp add: lookup_file_def mi_thermal_attrs_def)
  obtain r s' where w: "sysfs_write cpu_limits_defaults None (\<lambda>_ _. 1) (Thermal_message, ''boost'') ''1''
      files_start = Some (r, s')"
    using l by (simp add: sysfs_write_def thermal_string_store_def)
  from thermal_files_independent [OF w] show ?thesis using l w by (simp add: read_only_def)
qed

theorem thermal_files_roundtrip_witness:
  "\<exists>s'. sysfs_write cpu_limits_defaults None (\<lambda>_ _. 1) (Mi_powersave, ''power_level'') (''-7'' @ [LF])
       files_start = Some (3, s') \<and>
     sysfs_read (Mi_powersave, ''power_level'') s' = Some (''-7'' @ [LF])"
proof -
  have l: "lookup_file (Mi_powersave, ''power_level'') = Some (436, Int_file Power_level)"
    by (simp add: lookup_file_def mi_powersave_attrs_def)
  have f: "fmt_d (- 7) = ''-7''" by code_simp
  have "text_ok (Int_file Power_level) (fmt_d (- 7))"
    using kstrtoint_fmt_d [of "- 7" "[]"] by (simp add: is_s32_def)
  from thermal_files_roundtrip [OF _ l this, of files_start cpu_limits_defaults None "\<lambda>_ _. 1"]
  show ?thesis using attrs_wf_init by (auto simp: f files_start_def)
qed

end
