(* ===== verification/Thermal_Exit.thy ===== *)
theory Thermal_Exit
  imports Thermal_Module
begin

text \<open>
  Unloading \<open>mi_thermal_interface.c\<close> while panel events arrive. The statements of the exit handler
  (\<open>exit_plan\<close> of \<open>Thermal_Module\<close>) run one after the other; between them callbacks are delivered
  and, in a later step of their own, queue the work, and the workqueue runs it. The notifier of the
  panels is code outside the repository: whether its unregister function waits for callbacks that
  are running is the parameter \<open>waits\<close>. The theorem holds for both.
\<close>

section \<open>The exit handler among callbacks\<close>

text \<open>
  What the exit handler has still to do, and the state. \<open>callbacks\<close> of \<open>screen\<close> counts the callbacks
  that have stored the flag and not yet queued the work.
\<close>

type_synonym exiting = "exit_action list \<times> thermal_sys"

datatype exit_event = Next | Deliver "panel_event option" | Queue_work | Work_start | Work_finish

text \<open>The next statement of the handler; an unregister function that waits does not return yet.\<close>

definition exit_next :: "bool \<Rightarrow> exiting \<Rightarrow> exiting" where
  "exit_next waits x =
     (case x of
        ([], s) \<Rightarrow> ([], s)
      | (a # as, s) \<Rightarrow>
          if waits \<and> a = Unregister_panel \<and> panel_cookie s \<and> 0 < callbacks (screen s) then (a # as, s)
          else (as, exit_do a s))"

text \<open>An event is delivered while the callback is registered.\<close>

definition panel_deliver :: "panel_event option \<Rightarrow> thermal_sys \<Rightarrow> thermal_sys" where
  "panel_deliver notif s =
     (if \<not> panel_registered s then s
      else (case screen_callback_set notif (screen s) of
              (go, sc) \<Rightarrow> s\<lparr>screen := (if go then sc\<lparr>callbacks := Suc (callbacks sc)\<rparr> else sc)\<rparr>))"

text \<open>A callback goes on to queue the work; on a queue that is not there any more this is \<open>None\<close>.\<close>

definition panel_queue :: "thermal_sys \<Rightarrow> thermal_sys option" where
  "panel_queue s =
     (case callbacks (screen s) of
        0 \<Rightarrow> Some s
      | Suc n \<Rightarrow>
          if screen_state_wq s = Wq_live
          then Some (s\<lparr>screen := (queue_screen_work (screen s))\<lparr>callbacks := n\<rparr>\<rparr>) else None)"

definition work_start :: "screen_sys \<Rightarrow> screen_sys" where
  "work_start s =
     (if dw_pending s \<and> dw_running s = None then s\<lparr>dw_pending := False, dw_running := Some (screen_light s)\<rparr>
      else s)"

fun exit_event_do :: "bool \<Rightarrow> exit_event \<Rightarrow> exiting \<Rightarrow> exiting option" where
  "exit_event_do waits Next x = Some (exit_next waits x)"
| "exit_event_do waits (Deliver n) (as, s) = Some (as, panel_deliver n s)"
| "exit_event_do waits Queue_work (as, s) = map_option (Pair as) (panel_queue s)"
| "exit_event_do waits Work_start (as, s) = Some (as, s\<lparr>screen := work_start (screen s)\<rparr>)"
| "exit_event_do waits Work_finish (as, s) = Some (as, s\<lparr>screen := finish_work (message s) (screen s)\<rparr>)"

fun run_exit :: "bool \<Rightarrow> exit_event list \<Rightarrow> exiting \<Rightarrow> exiting option" where
  "run_exit waits [] x = Some x"
| "run_exit waits (e # es) x = Option.bind (exit_event_do waits e x) (run_exit waits es)"

lemma run_exit_append:
  "run_exit waits (xs @ ys) x = Option.bind (run_exit waits xs x) (run_exit waits ys)"
  by (induction xs arbitrary: x) (auto split: bind_split)

lemma split_Cons:
  "(\<exists>pre f post. e # es = pre @ f # post \<and> P pre f) \<longleftrightarrow>
     P [] e \<or> (\<exists>pre f post. es = pre @ f # post \<and> P (e # pre) f)" (is "?l \<longleftrightarrow> ?r")
proof
  assume ?l
  then obtain pre f post where p: "e # es = pre @ f # post" "P pre f" by blast
  then show ?r by (cases pre) auto
next
  assume ?r
  then show ?l
  proof
    assume "P [] e"
    then show ?l by (intro exI [of _ "[]"] exI [of _ e] exI [of _ es]) simp
  next
    assume "\<exists>pre f post. es = pre @ f # post \<and> P (e # pre) f"
    then obtain pre f post where "es = pre @ f # post" "P (e # pre) f" by blast
    then show ?l by (intro exI [of _ "e # pre"] exI [of _ f] exI [of _ post]) simp
  qed
qed

lemma run_exit_None:
  "run_exit waits es x = None \<longleftrightarrow>
     (\<exists>pre e post. es = pre @ e # post \<and>
        (\<exists>y. run_exit waits pre x = Some y \<and> exit_event_do waits e y = None))"
proof (induction es arbitrary: x)
  case (Cons e es)
  show ?case
    unfolding split_Cons by (cases "exit_event_do waits e x") (simp_all add: Cons.IH)
qed simp

section \<open>The state between two statements\<close>

text \<open>The module is loaded and both the queue and the panel callback are there.\<close>

definition panel_ready :: "thermal_sys \<Rightarrow> bool" where
  "panel_ready s \<longleftrightarrow> screen_state_wq s = Wq_live \<and> panel_registered s \<and> panel_cookie s"

definition exit_inv :: "bool \<Rightarrow> exiting \<Rightarrow> bool" where
  "exit_inv waits x \<longleftrightarrow>
     (\<exists>k \<le> length exit_plan. fst x = drop k exit_plan) \<and> panel_cookie (snd x) \<and>
     (screen_state_wq (snd x) = Wq_live \<longleftrightarrow> Destroy_wq \<in> set (fst x)) \<and>
     (Unregister_panel \<in> set (fst x) \<or> \<not> panel_registered (snd x) \<and> (waits \<longrightarrow> callbacks (screen (snd x)) = 0))"

lemma finish_work_callbacks [simp]: "callbacks (finish_work d s) = callbacks s"
  by (simp add: finish_work_def screen_check_store_def split: option.split)

lemma drain_work_callbacks [simp]: "callbacks (drain_work d s) = callbacks s"
  by (simp add: drain_work_def screen_state_check_def screen_check_store_def Let_def)

lemma callback_keeps: "screen_callback_set n s = (go, s') \<Longrightarrow> callbacks s' = callbacks s"
  by (auto simp: screen_callback_set_def split: option.splits panel_event.splits)

lemma exit_plan_positions:
  "k \<le> length exit_plan \<Longrightarrow> k \<in> {0, 1, 2, 3, 4, 5, 6, 7}"
  by (auto simp: exit_plan_def)

lemma exit_inv_next:
  assumes "exit_inv waits x"
  shows "exit_inv waits (exit_next waits x)"
proof -
  obtain k where k: "k \<le> length exit_plan" "fst x = drop k exit_plan"
    using assms by (auto simp: exit_inv_def)
  obtain s where x: "x = (drop k exit_plan, s)" using k(2) by (cases x) auto
  show ?thesis
  proof (cases "exit_next waits x = x")
    case False
    then have "k < length exit_plan" using k(1) x by (cases "k = length exit_plan") (auto simp: exit_next_def)
    then have "\<exists>j \<le> length exit_plan. fst (exit_next waits x) = drop j exit_plan"
      using False x by (auto simp: exit_next_def Cons_nth_drop_Suc [symmetric] split: if_splits
          intro!: exI [of _ "Suc k"])
    moreover have "k \<in> {0, 1, 2, 3, 4, 5, 6}"
      using exit_plan_positions [OF k(1)] \<open>k < length exit_plan\<close> by (auto simp: exit_plan_def)
    ultimately show ?thesis
      using assms False x
      by (auto simp: exit_inv_def exit_next_def exit_plan_def split: if_splits)
  qed (use assms in simp)
qed

lemma exit_inv_event:
  assumes "exit_inv waits x" and "exit_event_do waits e x = Some y"
  shows "exit_inv waits y"
proof -
  obtain as s where x: "x = (as, s)" by fastforce
  show ?thesis
  proof (cases e)
    case Next
    then show ?thesis using assms exit_inv_next [of waits x] by simp
  next
    case (Deliver n)
    obtain go sc where "screen_callback_set n (screen s) = (go, sc)" by fastforce
    then show ?thesis using assms Deliver x by (auto simp: exit_inv_def panel_deliver_def split: if_splits)
  next
    case Queue_work
    then show ?thesis using assms x
      by (auto simp: exit_inv_def panel_queue_def queue_screen_work_def split: nat.splits if_splits)
  qed (use assms x in \<open>auto simp: exit_inv_def work_start_def\<close>)
qed

lemma exit_inv_run: "exit_inv waits x \<Longrightarrow> run_exit waits es x = Some y \<Longrightarrow> exit_inv waits y"
proof (induction es arbitrary: x)
  case (Cons e es)
  then show ?case using exit_inv_event by (fastforce simp: bind_eq_Some_conv)
qed simp

lemma exit_inv_start: "panel_ready s \<Longrightarrow> exit_inv waits (exit_plan, s)"
  by (auto simp: exit_inv_def panel_ready_def exit_plan_def)

text \<open>Only queueing the work can go wrong.\<close>

lemma event_None:
  assumes "exit_inv waits (as, s)"
  shows "exit_event_do waits e (as, s) = None \<longleftrightarrow>
    e = Queue_work \<and> 0 < callbacks (screen s) \<and> Destroy_wq \<notin> set as"
  using assms by (cases e) (auto simp: exit_inv_def panel_queue_def split: nat.split)

text \<open>C37: The unload races with panel events. For every loaded state in which the panel callback is
  registered, and whether or not unregistering it waits for running callbacks, there is an
  interleaving in which a callback queues its work on the workqueue that \<open>exit_plan\<close> has destroyed.
  It happens exactly when a callback that has stored the flag goes on to queue the work after the
  queue is destroyed; when unregistering waits, this is only possible before the callback is
  unregistered, so that the two statements in the other order would be safe.\<close>

theorem thermal_exit_race:
  assumes "panel_ready s"
  shows "(\<exists>es. run_exit waits es (exit_plan, s) = None) \<and>
    (run_exit waits es (exit_plan, s) = None \<longleftrightarrow>
      (\<exists>pre post as t. es = pre @ Queue_work # post \<and> run_exit waits pre (exit_plan, s) = Some (as, t) \<and>
        0 < callbacks (screen t) \<and> Destroy_wq \<notin> set as \<and> (waits \<longrightarrow> Unregister_panel \<in> set as)))"
proof
  note inv = exit_inv_run [OF exit_inv_start [OF assms]]
  show "run_exit waits es (exit_plan, s) = None \<longleftrightarrow>
      (\<exists>pre post as t. es = pre @ Queue_work # post \<and> run_exit waits pre (exit_plan, s) = Some (as, t) \<and>
        0 < callbacks (screen t) \<and> Destroy_wq \<notin> set as \<and> (waits \<longrightarrow> Unregister_panel \<in> set as))"
    (is "_ \<longleftrightarrow> ?late")
  proof
    assume "run_exit waits es (exit_plan, s) = None"
    then obtain pre e post y where r: "es = pre @ e # post" "run_exit waits pre (exit_plan, s) = Some y"
      "exit_event_do waits e y = None"
      unfolding run_exit_None by blast
    obtain as t where y: "y = (as, t)" by fastforce
    have i: "exit_inv waits (as, t)" using inv [OF r(2)] y by simp
    have l: "e = Queue_work" "0 < callbacks (screen t)" "Destroy_wq \<notin> set as"
      using event_None [OF i, of e] r(3) y by simp_all
    moreover have "waits \<longrightarrow> Unregister_panel \<in> set as"
      using i l(2) by (auto simp: exit_inv_def)
    ultimately show ?late using r y by blast
  next
    assume ?late
    then obtain pre post as t where r: "es = pre @ Queue_work # post"
      "run_exit waits pre (exit_plan, s) = Some (as, t)" "0 < callbacks (screen t)" "Destroy_wq \<notin> set as"
      by blast
    have "exit_event_do waits Queue_work (as, t) = None"
      using event_None [OF inv [OF r(2)], of Queue_work] r(3,4) by simp
    then show "run_exit waits es (exit_plan, s) = None"
      using r(1,2) by (simp only: run_exit_append bind.bind_lunit run_exit.simps bind.bind_lzero)
  qed
  have "run_exit waits [Next, Next, Next, Deliver (Some Panel_blank), Queue_work] (exit_plan, s) = None"
    using assms by (simp add: exit_plan_def exit_next_def panel_ready_def panel_deliver_def panel_queue_def
        screen_callback_set_def)
  then show "\<exists>es. run_exit waits es (exit_plan, s) = None" by blast
qed

theorem thermal_exit_race_witness:
  "run_exit True [Deliver (Some Panel_unblank), Next, Next, Queue_work, Next, Deliver (Some Panel_blank), Next,
     Queue_work] (exit_plan, thermal_start\<lparr>screen_state_wq := Wq_live, panel_registered := True,
       panel_cookie := True, screen := screen_init\<rparr>) = None"
proof -
  let ?s = "thermal_start\<lparr>screen_state_wq := Wq_live, panel_registered := True, panel_cookie := True,
      screen := screen_init\<rparr>"
  let ?pre = "[Deliver (Some Panel_unblank), Next, Next, Queue_work, Next, Deliver (Some Panel_blank), Next]"
  have "panel_ready ?s" by (simp add: panel_ready_def)
  moreover have "\<exists>as t. run_exit True ?pre (exit_plan, ?s) = Some (as, t) \<and> 0 < callbacks (screen t) \<and>
      Destroy_wq \<notin> set as \<and> Unregister_panel \<in> set as"
    by (simp add: exit_plan_def exit_next_def panel_deliver_def panel_queue_def screen_callback_set_def
        queue_screen_work_def screen_init_def)
  moreover have "?pre @ [Queue_work] = ?pre @ Queue_work # []" by simp
  ultimately have "run_exit True (?pre @ [Queue_work]) (exit_plan, ?s) = None"
    using iffD2 [OF conjunct2 [OF thermal_exit_race [of ?s True "?pre @ [Queue_work]"]]] by blast
  then show ?thesis by (simp only: append.simps)
qed

end
