(* ===== verification/Module_Params.thy ===== *)
theory Module_Params
  imports Kernel_Lib
begin

text \<open>
  Module parameters. Every module of the repository declares its settings with
  \<open>module_param\<close>, \<open>module_param_named\<close> or \<open>module_param_array\<close>; the kernel shows each as a file
  below \<open>/sys/module\<close> and sets it from the command line when the module is loaded. A
  declaration is a \<open>kparam\<close>: the name, the type, the mode of the file and the value of the C
  variable at load.

  The operations that turn a text into a value belong to the kernel. They are a parameter \<open>ko\<close> of
  the model, of which \<open>param_ops_ok\<close> names the documented behaviour: a value of the C type is
  stored whatever the text is, an unsigned parameter takes what \<open>kstrtouint\<close> makes of the text, Y
  and N switch a bool, a list of numbers fills the front of an array. \<open>linux_param_set\<close> is one
  such function, for the witnesses.

  The locale \<open>kernel_params\<close> is the contract of a table of parameters: different names and
  initial values of the declared types. It gives that every variable is assigned through its own
  file only and what the texts user space writes do. The table of each module interprets it beside
  the module's model.
\<close>

section \<open>Types and values\<close>

text \<open>An array parameter has unsigned elements, a capacity, and may have a counter variable.\<close>

datatype ptype = P_uint | P_int | P_ulong | P_bool | P_charp | P_array nat bool

datatype pval = Num int | Flag bool | Text "string option" | Arr "int list" "nat option"

record kparam =
  pname :: string
  pty :: ptype
  pmode :: nat
  pinit :: pval

type_synonym params = "string \<Rightarrow> pval option"

definition is_u32 :: "int \<Rightarrow> bool" where
  "is_u32 v \<longleftrightarrow> 0 \<le> v \<and> v < 2 ^ 32"

definition is_u64 :: "int \<Rightarrow> bool" where
  "is_u64 v \<longleftrightarrow> 0 \<le> v \<and> v < 2 ^ 64"

fun has_type :: "ptype \<Rightarrow> pval \<Rightarrow> bool" where
  "has_type P_uint (Num v) = is_u32 v"
| "has_type P_int (Num v) = is_s32 v"
| "has_type P_ulong (Num v) = is_u64 v"
| "has_type P_bool (Flag b) = True"
| "has_type P_charp (Text t) = (case t of None \<Rightarrow> True | Some s \<Rightarrow> NUL \<notin> set s)"
| "has_type (P_array mx counted) (Arr xs num) =
     (length xs = mx \<and> list_all is_u32 xs \<and>
      (case num of None \<Rightarrow> \<not> counted | Some n \<Rightarrow> counted \<and> n \<le> mx))"
| "has_type _ _ = False"

section \<open>The operations of the kernel\<close>

text \<open>The text of a list.\<close>

fun join_nums :: "int list \<Rightarrow> string" where
  "join_nums [] = []"
| "join_nums [v] = fmt_d v @ [LF]"
| "join_nums (v # w # vs) = fmt_d v @ CHR '','' # join_nums (w # vs)"

text \<open>
  The set operations the kernel attaches to the types: whether memory for the copy of a string
  could be had, the type, the text, the old value; the error number and the new value. What is used
  of them is documented in \<open>linux/moduleparam.h\<close>.
\<close>

type_synonym param_ops = "bool \<Rightarrow> ptype \<Rightarrow> string \<Rightarrow> pval \<Rightarrow> int \<times> pval"

definition set_num :: "int + int \<Rightarrow> pval \<Rightarrow> int \<times> pval" where
  "set_num r old = (case r of Inl e \<Rightarrow> (e, old) | Inr v \<Rightarrow> (0, Num v))"

definition param_ops_ok :: "param_ops \<Rightarrow> bool" where
  "param_ops_ok ko \<longleftrightarrow>
     (\<forall>alloc t val old. has_type t old \<and> NUL \<notin> set val \<longrightarrow> has_type t (snd (ko alloc t val old))) \<and>
     (\<forall>alloc val old. ko alloc P_uint val old = set_num (map_sum id int (kstrtouint val)) old) \<and>
     (\<forall>alloc b old. ko alloc P_bool ((if b then ''Y'' else ''N'') @ [LF]) old = (0, Flag b)) \<and>
     (\<forall>alloc mx counted vs ys m. vs \<noteq> [] \<and> list_all is_u32 vs \<and> length vs \<le> mx \<and> length ys = mx \<longrightarrow>
        ko alloc (P_array mx counted) (join_nums vs) (Arr ys m) =
          (0, Arr (vs @ drop (length vs) ys) (if counted then Some (length vs) else None)))"

section \<open>The files of a module\<close>

definition param_of :: "kparam list \<Rightarrow> string \<Rightarrow> kparam option" where
  "param_of tab name = find (\<lambda>p. pname p = name) tab"

definition params_init :: "kparam list \<Rightarrow> params" where
  "params_init tab = map_of (map (\<lambda>p. (pname p, pinit p)) tab)"

text \<open>A file without a write bit has no store operation.\<close>

definition writable :: "kparam \<Rightarrow> bool" where
  "writable p \<longleftrightarrow> pmode p div 128 mod 2 = 1 \<or> pmode p div 16 mod 2 = 1 \<or> pmode p div 2 mod 2 = 1"

definition param_assign ::
  "param_ops \<Rightarrow> bool \<Rightarrow> kparam \<Rightarrow> string \<Rightarrow> params \<Rightarrow> int \<times> params" where
  "param_assign ko alloc p val st =
     (case st (pname p) of
        None \<Rightarrow> (- ENOENT, st)
      | Some old \<Rightarrow>
          (case ko alloc (pty p) (cstr val) old of (r, v) \<Rightarrow> (r, st(pname p \<mapsto> v))))"

definition param_store ::
  "param_ops \<Rightarrow> kparam list \<Rightarrow> bool \<Rightarrow> string \<Rightarrow> string \<Rightarrow> params \<Rightarrow> int \<times> params" where
  "param_store ko tab alloc name buf st =
     (case param_of tab name of
        None \<Rightarrow> (- ENOENT, st)
      | Some p \<Rightarrow>
          if \<not> writable p then (- EIO, st)
          else (case param_assign ko alloc p buf st of
                  (r, st') \<Rightarrow> (if r = 0 then int (length buf) else r, st')))"

text \<open>The assignment of an argument of the command line when the module is loaded.\<close>

definition param_load ::
  "param_ops \<Rightarrow> kparam list \<Rightarrow> bool \<Rightarrow> string \<Rightarrow> string \<Rightarrow> params \<Rightarrow> int \<times> params" where
  "param_load ko tab alloc name val st =
     (case param_of tab name of
        None \<Rightarrow> (- ENOENT, st)
      | Some p \<Rightarrow> param_assign ko alloc p val st)"

text \<open>The operations user space has.\<close>

datatype param_op = Store bool string string | Load bool string string

fun param_do :: "param_ops \<Rightarrow> kparam list \<Rightarrow> param_op \<Rightarrow> params \<Rightarrow> params" where
  "param_do ko tab (Store alloc name buf) st = snd (param_store ko tab alloc name buf st)"
| "param_do ko tab (Load alloc name val) st = snd (param_load ko tab alloc name val st)"

definition params_typed :: "kparam list \<Rightarrow> params \<Rightarrow> bool" where
  "params_typed tab st \<longleftrightarrow> list_all (\<lambda>p. \<exists>v. st (pname p) = Some v \<and> has_type (pty p) v) tab"

section \<open>One kernel\<close>

text \<open>The loop over the comma separated pieces: the error, the elements written and the array.\<close>

function param_array :: "nat \<Rightarrow> nat \<Rightarrow> string \<Rightarrow> int list \<Rightarrow> int \<times> nat \<times> int list" where
  "param_array mx i val xs =
     (if i = mx then (- EINVAL, i, xs)
      else (case kstrtouint (takeWhile (\<lambda>c. c \<noteq> CHR '','') val) of
              Inl e \<Rightarrow> (e, i, xs)
            | Inr v \<Rightarrow>
                (case dropWhile (\<lambda>c. c \<noteq> CHR '','') val of
                   [] \<Rightarrow> (0, Suc i, xs[i := int v])
                 | _ # rest \<Rightarrow> param_array mx (Suc i) rest (xs[i := int v]))))"
  by pat_completeness auto
termination
proof (relation "measure (\<lambda>(mx, i, val, xs). length val)")
  fix mx i :: nat and val :: string and xs :: "int list" and v c rest
  assume "dropWhile (\<lambda>c. c \<noteq> CHR '','') val = c # rest"
  then show "((mx, Suc i, rest, xs[i := int v]), mx, i, val, xs) \<in> measure (\<lambda>(mx, i, val, xs). length val)"
    using length_dropWhile_le [of "\<lambda>c. c \<noteq> CHR '',''" val] by simp
qed simp

declare param_array.simps [simp del]

text \<open>\<open>alloc\<close> tells whether memory for the copy of a string parameter could be had.\<close>

fun linux_param_set ::
  "(string \<Rightarrow> int + bool) \<Rightarrow> bool \<Rightarrow> ptype \<Rightarrow> string \<Rightarrow> pval \<Rightarrow> int \<times> pval" where
  "linux_param_set kb alloc P_uint val old = set_num (map_sum id int (kstrtouint val)) old"
| "linux_param_set kb alloc P_int val old = set_num (kstrtoint val) old"
| "linux_param_set kb alloc P_ulong val old = set_num (map_sum id int (kstrtoull val)) old"
| "linux_param_set kb alloc P_bool val old =
     (case kb val of Inl e \<Rightarrow> (e, old) | Inr b \<Rightarrow> (0, Flag b))"
| "linux_param_set kb alloc P_charp val old =
     (if length val > 1024 then (- ENOSPC, old)
      else if \<not> alloc then (- ENOMEM, Text None) else (0, Text (Some val)))"
| "linux_param_set kb alloc (P_array mx counted) val old =
     (case old of
        Arr xs num \<Rightarrow>
          (case param_array mx 0 val xs of
             (r, n, xs') \<Rightarrow> (r, Arr xs' (if counted then Some n else None)))
      | _ \<Rightarrow> (- EINVAL, old))"


lemma kstrtouint_u32: "kstrtouint s = Inr v \<Longrightarrow> is_u32 (int v)"
  by (auto simp: kstrtouint_def is_u32_def split: sum.splits if_splits)

lemma kstrtouint_num_u32: "map_sum id int (kstrtouint s) = Inr v \<Longrightarrow> is_u32 v"
  using kstrtouint_u32 [of s] by (cases "kstrtouint s") auto

lemma kstrtoull_num_u64: "map_sum id int (kstrtoull s) = Inr v \<Longrightarrow> is_u64 v"
  by (auto simp: kstrtoull_def kstrtoull_digits_def is_u64_def split: prod.splits if_splits)

lemma list_all_update: "list_all P xs \<Longrightarrow> P v \<Longrightarrow> list_all P (xs[i := v])"
  using set_update_subset_insert [of xs i v] by (auto simp: list_all_iff)

text \<open>The array keeps its length and its elements their type, and the counter its bound,
  whether the text is accepted or not.\<close>

lemma param_array_bounds:
  "param_array mx i val xs = (r, n, xs') \<Longrightarrow> i \<le> mx \<Longrightarrow> list_all is_u32 xs \<Longrightarrow>
     i \<le> n \<and> n \<le> mx \<and> length xs' = length xs \<and> list_all is_u32 xs'"
proof (induction mx i val xs rule: param_array.induct)
  case (1 mx i val xs)
  show ?case
  proof (cases "i = mx")
    case True
    then show ?thesis using "1.prems" by (subst (asm) param_array.simps) simp
  next
    case False
    show ?thesis
    proof (cases "kstrtouint (takeWhile (\<lambda>c. c \<noteq> CHR '','') val)")
      case (Inl e)
      then show ?thesis using "1.prems" False by (subst (asm) param_array.simps) simp
    next
      case (Inr v)
      have u: "list_all is_u32 (xs[i := int v])"
        using "1.prems"(3) kstrtouint_u32 [OF Inr] by (rule list_all_update)
      show ?thesis
      proof (cases "dropWhile (\<lambda>c. c \<noteq> CHR '','') val")
        case Nil
        have "(0, Suc i, xs[i := int v]) = (r, n, xs')"
          using "1.prems"(1) False
          by (simp only: param_array.simps [of mx i val xs] Inr Nil sum.case list.case if_False)
        then show ?thesis using "1.prems"(2) False u by auto
      next
        case (Cons c rest)
        then have "param_array mx (Suc i) rest (xs[i := int v]) = (r, n, xs')"
          using "1.prems"(1) False Inr param_array.simps [of mx i val xs] by simp
        then show ?thesis
          using "1.IH" [OF False Inr Cons] "1.prems"(2) False u by fastforce
      qed
    qed
  qed
qed

text \<open>Type preservation of a single assignment.\<close>

lemma linux_param_set_typed:
  assumes "has_type t old" and "NUL \<notin> set val"
  shows "has_type t (snd (linux_param_set kb alloc t val old))"
proof (cases t)
  case (P_array mx counted)
  then obtain xs num where old: "old = Arr xs num" "length xs = mx" "list_all is_u32 xs"
    using assms(1) by (cases old) auto
  obtain r n xs' where r: "param_array mx 0 val xs = (r, n, xs')" using prod_cases3 by blast
  then show ?thesis using param_array_bounds [OF r] old P_array by simp
qed (use assms kstrtouint_num_u32 kstrtoull_num_u64 kstrtoint_s32 in
    \<open>auto simp: set_num_def split: sum.splits\<close>)

lemma not_digits [simp]: "\<not> isdigit (CHR '','')" "\<not> isdigit NUL" "\<not> isdigit LF"
  by (simp_all add: isdigit_def)

lemma fmt_d_nat: "0 \<le> v \<Longrightarrow> fmt_d v = num_str 10 (nat v)"
  by (simp add: fmt_d_def)

lemma num_str_free: "CHR '','' \<notin> set (num_str 10 n)" "NUL \<notin> set (num_str 10 n)"
  using num_str_digits not_digits by blast+

text \<open>Reading back a list of numbers fills the array from the position reached.\<close>

lemma param_array_join:
  "vs \<noteq> [] \<Longrightarrow> list_all is_u32 vs \<Longrightarrow> i + length vs \<le> mx \<Longrightarrow> length xs = mx \<Longrightarrow>
     param_array mx i (join_nums vs) xs =
       (0, i + length vs, take i xs @ vs @ drop (i + length vs) xs)"
proof (induction vs arbitrary: i xs rule: join_nums.induct)
  case (2 v)
  then have v: "is_u32 v" "i < mx" by auto
  have c: "CHR '','' \<notin> set (num_str 10 (nat v) @ [LF])" using num_str_free by auto
  have "kstrtouint (num_str 10 (nat v) @ [LF]) = Inr (nat v)"
    using v(1) by (intro kstrtouint_num_str) (auto simp: is_u32_def nat_less_iff)
  moreover have "takeWhile (\<lambda>c. c \<noteq> CHR '','') (num_str 10 (nat v) @ [LF]) = num_str 10 (nat v) @ [LF]"
    "dropWhile (\<lambda>c. c \<noteq> CHR '','') (num_str 10 (nat v) @ [LF]) = []"
    using c by (auto simp: takeWhile_eq_all_conv dropWhile_eq_Nil_conv)
  ultimately show ?case
    using v "2.prems"(4)
    by (subst param_array.simps) (simp add: fmt_d_nat is_u32_def upd_conv_take_nth_drop)
next
  case (3 v w vs)
  then have v: "is_u32 v" "i < mx" by auto
  have c: "CHR '','' \<notin> set (num_str 10 (nat v))" by (rule num_str_free)
  have "kstrtouint (num_str 10 (nat v)) = Inr (nat v)"
    using v(1) kstrtouint_num_str [of "nat v" "[]"] by (simp add: is_u32_def nat_less_iff)
  moreover have
    "takeWhile (\<lambda>c. c \<noteq> CHR '','') (num_str 10 (nat v) @ CHR '','' # join_nums (w # vs)) = num_str 10 (nat v)"
    "dropWhile (\<lambda>c. c \<noteq> CHR '','') (num_str 10 (nat v) @ CHR '','' # join_nums (w # vs)) =
       CHR '','' # join_nums (w # vs)"
    using c by (auto simp: takeWhile_tail takeWhile_eq_all_conv dropWhile_append2 dropWhile_append3)
  ultimately have "param_array mx i (join_nums (v # w # vs)) xs =
      param_array mx (Suc i) (join_nums (w # vs)) (xs[i := v])"
    using v by (subst param_array.simps) (simp add: fmt_d_nat is_u32_def)
  then show ?case
    using "3.IH" [of "Suc i" "xs[i := v]"] "3.prems" v
    by (simp add: upd_conv_take_nth_drop add.commute)
qed simp

definition kb_yes_no :: "(string \<Rightarrow> int + bool) \<Rightarrow> bool" where
  "kb_yes_no kb \<longleftrightarrow>
     (\<forall>t. kb (CHR ''Y'' # t) = Inr True \<and> kb (CHR ''N'' # t) = Inr False \<and>
          kb (CHR ''1'' # t) = Inr True \<and> kb (CHR ''0'' # t) = Inr False)"

lemma join_nums_no_nul: "list_all is_u32 vs \<Longrightarrow> NUL \<notin> set (join_nums vs)"
  by (induction vs rule: join_nums.induct) (auto simp: is_u32_def fmt_d_nat num_str_free)

lemma cstr_id: "NUL \<notin> set s \<Longrightarrow> cstr s = s"
  by (auto simp: cstr_def takeWhile_eq_all_conv)

lemma linux_param_set_ok:
  assumes "kb_yes_no kb"
  shows "param_ops_ok (linux_param_set kb)"
  unfolding param_ops_ok_def
proof (intro conjI allI impI)
  fix alloc mx counted vs and ys :: "int list" and m
  assume "vs \<noteq> [] \<and> list_all is_u32 vs \<and> length vs \<le> mx \<and> length ys = mx"
  then show "linux_param_set kb alloc (P_array mx counted) (join_nums vs) (Arr ys m) =
      (0, Arr (vs @ drop (length vs) ys) (if counted then Some (length vs) else None))"
    using param_array_join [of vs 0 mx ys] by simp
qed (use assms linux_param_set_typed in \<open>auto simp: kb_yes_no_def\<close>)

text \<open>The laws one by one.\<close>

lemma ops_typed: "param_ops_ok ko \<Longrightarrow> has_type t old \<Longrightarrow> NUL \<notin> set val \<Longrightarrow> has_type t (snd (ko alloc t val old))"
  unfolding param_ops_ok_def by blast

lemma ops_uint: "param_ops_ok ko \<Longrightarrow> ko alloc P_uint val old = set_num (map_sum id int (kstrtouint val)) old"
  unfolding param_ops_ok_def by blast

lemma ops_bool: "param_ops_ok ko \<Longrightarrow> ko alloc P_bool ((if b then ''Y'' else ''N'') @ [LF]) old = (0, Flag b)"
  unfolding param_ops_ok_def by blast

lemma ops_list:
  "param_ops_ok ko \<Longrightarrow> vs \<noteq> [] \<Longrightarrow> list_all is_u32 vs \<Longrightarrow> length vs \<le> mx \<Longrightarrow> length ys = mx \<Longrightarrow>
     ko alloc (P_array mx counted) (join_nums vs) (Arr ys m) =
       (0, Arr (vs @ drop (length vs) ys) (if counted then Some (length vs) else None))"
  unfolding param_ops_ok_def by blast

section \<open>The contract of a parameter table\<close>

locale kernel_params =
  fixes tab :: "kparam list"
  assumes names_distinct: "distinct (map pname tab)"
    and inits_typed: "list_all (\<lambda>p. has_type (pty p) (pinit p)) tab"
begin

lemma name_inj: "p \<in> set tab \<Longrightarrow> q \<in> set tab \<Longrightarrow> pname p = pname q \<Longrightarrow> p = q"
  using names_distinct by (simp add: distinct_map inj_on_def)

lemma param_of_mem:
  assumes "p \<in> set tab"
  shows "param_of tab (pname p) = Some p"
proof (cases "param_of tab (pname p)")
  case None
  then show ?thesis using assms by (auto simp: param_of_def find_None_iff)
next
  case (Some q)
  then have "q \<in> set tab" "pname q = pname p" by (auto simp: param_of_def find_Some_iff)
  then show ?thesis using Some name_inj assms by blast
qed

lemma param_of_Some: "param_of tab n = Some p \<Longrightarrow> p \<in> set tab \<and> pname p = n"
  by (auto simp: param_of_def find_Some_iff)

lemma init_value:
  assumes "p \<in> set tab"
  shows "params_init tab (pname p) = Some (pinit p)"
  using assms names_distinct by (auto simp: params_init_def o_def intro!: map_of_is_SomeI)

lemma init_typed: "params_typed tab (params_init tab)"
  using inits_typed init_value by (auto simp: params_typed_def list_all_iff)

text \<open>An assignment touches one variable and keeps it in its type.\<close>

lemma update_typed:
  assumes "params_typed tab st" and "p \<in> set tab" and "has_type (pty p) v"
  shows "params_typed tab (st(pname p \<mapsto> v))"
proof -
  have "\<exists>w. (st(pname p \<mapsto> v)) (pname q) = Some w \<and> has_type (pty q) w" if "q \<in> set tab" for q
    using assms that name_inj [OF that assms(2)]
    by (cases "pname q = pname p") (auto simp: params_typed_def list_all_iff)
  then show ?thesis by (simp add: params_typed_def list_all_iff)
qed

lemma assign_typed:
  assumes "param_ops_ok ko" and "params_typed tab st" and "p \<in> set tab"
  shows "params_typed tab (snd (param_assign ko alloc p val st))"
proof -
  obtain old where old: "st (pname p) = Some old" "has_type (pty p) old"
    using assms by (auto simp: params_typed_def list_all_iff)
  obtain r v where r: "ko alloc (pty p) (cstr val) old = (r, v)" by fastforce
  have "has_type (pty p) (snd (ko alloc (pty p) (cstr val) old))"
    using ops_typed [OF assms(1) old(2)] by simp
  then have "has_type (pty p) v" using r by simp
  moreover have "snd (param_assign ko alloc p val st) = st(pname p \<mapsto> v)"
    using old(1) r by (simp add: param_assign_def)
  ultimately show ?thesis using update_typed [OF assms(2,3)] by simp
qed

lemma do_typed:
  assumes "param_ops_ok ko" and "params_typed tab st"
  shows "params_typed tab (param_do ko tab op st)"
proof (cases op)
  case (Store alloc n buf)
  then show ?thesis
    using assms(2) assign_typed [OF assms, of _ alloc buf]
    by (auto simp: param_store_def case_prod_beta split: option.split dest!: param_of_Some)
next
  case (Load alloc n val)
  then show ?thesis
    using assms(2) assign_typed [OF assms, of _ alloc val]
    by (auto simp: param_load_def split: option.split dest!: param_of_Some)
qed

lemma history_typed: "param_ops_ok ko \<Longrightarrow> params_typed tab st \<Longrightarrow> params_typed tab (fold (param_do ko tab) ops st)"
  by (induction ops arbitrary: st) (simp_all add: do_typed)

lemma do_other: "(\<forall>a v. op \<noteq> Store a n v \<and> op \<noteq> Load a n v) \<Longrightarrow> param_do ko tab op st n = st n"
  by (cases op) (auto simp: param_store_def param_load_def param_assign_def
      split: option.splits prod.splits dest: param_of_Some)

lemma typed_value:
  assumes "params_typed tab st" and "p \<in> set tab"
  obtains v where "st (pname p) = Some v" and "has_type (pty p) v"
  using assms by (auto simp: params_typed_def list_all_iff)

text \<open>The texts \<open>echo\<close> writes: a number, a truth value, a list.\<close>

lemma store_uint:
  assumes "param_ops_ok ko" and "p \<in> set tab" and "writable p" and "params_typed tab st"
    and "pty p = P_uint" and "v < 2 ^ 32"
  shows "param_store ko tab alloc (pname p) (fmt_u v @ [LF]) st =
    (int (length (fmt_u v @ [LF])), st(pname p \<mapsto> Num (int v)))"
proof -
  obtain old where "st (pname p) = Some old" using assms(2,4) by (blast elim: typed_value)
  then show ?thesis
    using assms(3,5,6) param_of_mem [OF assms(2)] kstrtouint_num_str [OF assms(6), of "[LF]"]
      num_str_free(2) [of v] ops_uint [OF assms(1)]
    by (simp add: param_store_def param_assign_def set_num_def fmt_u_def cstr_id)
qed

lemma store_bool:
  assumes "param_ops_ok ko" and "p \<in> set tab" and "writable p" and "params_typed tab st"
    and "pty p = P_bool"
  shows "param_store ko tab alloc (pname p) ((if b then ''Y'' else ''N'') @ [LF]) st =
    (2, st(pname p \<mapsto> Flag b))"
proof -
  obtain old where "st (pname p) = Some old" using assms(2,4) by (blast elim: typed_value)
  moreover have "cstr ((if b then ''Y'' else ''N'') @ [LF]) = (if b then ''Y'' else ''N'') @ [LF]"
    by (simp add: cstr_id)
  ultimately show ?thesis
    using assms(3,5) param_of_mem [OF assms(2)] ops_bool [OF assms(1)]
    by (simp add: param_store_def param_assign_def del: append.simps)
qed

lemma store_list:
  assumes "param_ops_ok ko" and "p \<in> set tab" and "writable p" and "params_typed tab st"
    and "pty p = P_array mx counted" and "st (pname p) = Some (Arr ys m)"
    and "vs \<noteq> []" and "list_all is_u32 vs" and "length vs \<le> mx"
  shows "param_store ko tab alloc (pname p) (join_nums vs) st =
    (int (length (join_nums vs)),
     st(pname p \<mapsto> Arr (vs @ drop (length vs) ys) (if counted then Some (length vs) else None)))"
proof -
  have "length ys = mx" using assms(2,4,5,6) by (auto simp: params_typed_def list_all_iff)
  then show ?thesis
    using assms(3,5,6) param_of_mem [OF assms(2)] cstr_id [OF join_nums_no_nul [OF assms(8)]]
      ops_list [OF assms(1,7,8,9)]
    by (simp add: param_store_def param_assign_def)
qed

end

end
