(* ===== verification/Hook_Registry.thy ===== *)
theory Hook_Registry
  imports Prelude
begin

text \<open>
  The interface of a hook registry. Four modules keep callbacks of other modules in pointer
  variables with one register and one unregister function per variable (\<open>xiaomi_hooks.c\<close>,
  \<open>metis.c\<close>, \<open>mi_schedule.c\<close>, \<open>mist.c\<close>). The locale states what such a registry
  promises: what a registration stores while the registry is live, that a registry that is
  switched off never installs anything, and that no operation touches another slot. Its client
  lemmas speak about arbitrary sequences of operations by several modules, with the switch
  thrown in between.
\<close>

text \<open>An operation of a client, or a write to the module parameter that switches the registry.\<close>

datatype 's hook_op = Reg 's hook | Unreg 's | Switch bool

text \<open>The abstract registry: a map from slots to callbacks that every operation updates.\<close>

fun spec_hook :: "(hook \<Rightarrow> bool) \<Rightarrow> ('s \<Rightarrow> bool) \<Rightarrow> 's hook_op \<Rightarrow> ('s \<Rightarrow> hook) \<Rightarrow> 's \<Rightarrow> hook" where
  "spec_hook accepts removable (Reg s cb) m = (if accepts cb then m(s := cb) else m)"
| "spec_hook accepts removable (Unreg s) m = (if removable s then m(s := None) else m)"
| "spec_hook accepts removable (Switch b) m = m"

definition is_switch :: "'s hook_op \<Rightarrow> bool" where
  "is_switch p \<longleftrightarrow> (\<exists>b. p = Switch b)"

text \<open>
  What an operation does to a registry given by its functions; not every slot has an unregister
  function.
\<close>

fun hook_do ::
  "('s \<Rightarrow> hook \<Rightarrow> 'st \<Rightarrow> int \<times> 'st) \<Rightarrow> ('s \<Rightarrow> ('st \<Rightarrow> int \<times> 'st) option) \<Rightarrow> (bool \<Rightarrow> 'st \<Rightarrow> 'st) \<Rightarrow>
     's hook_op \<Rightarrow> 'st \<Rightarrow> 'st" where
  "hook_do reg unreg switch (Reg s cb) st = snd (reg s cb st)"
| "hook_do reg unreg switch (Unreg s) st = (case unreg s of None \<Rightarrow> st | Some f \<Rightarrow> snd (f st))"
| "hook_do reg unreg switch (Switch b) st = switch b st"

definition removable :: "('s \<Rightarrow> ('st \<Rightarrow> int \<times> 'st) option) \<Rightarrow> 's \<Rightarrow> bool" where
  "removable unreg s \<longleftrightarrow> unreg s \<noteq> None"

locale hook_registry =
  fixes reg :: "'s \<Rightarrow> hook \<Rightarrow> 'st \<Rightarrow> int \<times> 'st"
    and unreg :: "'s \<Rightarrow> ('st \<Rightarrow> int \<times> 'st) option"
    and switch :: "bool \<Rightarrow> 'st \<Rightarrow> 'st"
    and slot :: "'st \<Rightarrow> 's \<Rightarrow> hook"
    and live :: "'st \<Rightarrow> bool"
    and accepts :: "hook \<Rightarrow> bool"
  assumes accepts_Some: "accepts (Some a)"
    and reg_ret: "fst (reg s cb st) = 0 \<longleftrightarrow> accepts cb"
    and reg_live: "live st \<Longrightarrow> slot (snd (reg s cb st)) =
          (if accepts cb then (slot st)(s := cb) else slot st)"
    and reg_dead: "\<not> live st \<Longrightarrow> slot (snd (reg s cb st)) = slot st \<or>
          slot (snd (reg s cb st)) = (slot st)(s := None)"
    and reg_keeps: "live (snd (reg s cb st)) = live st"
    and unreg_ret: "unreg s = Some f \<Longrightarrow> fst (f st) = 0"
    and unreg_live: "unreg s = Some f \<Longrightarrow> live st \<Longrightarrow> slot (snd (f st)) = (slot st)(s := None)"
    and unreg_dead: "unreg s = Some f \<Longrightarrow> \<not> live st \<Longrightarrow> slot (snd (f st)) = slot st \<or>
          slot (snd (f st)) = (slot st)(s := None)"
    and unreg_keeps: "unreg s = Some f \<Longrightarrow> live (snd (f st)) = live st"
    and switch_slot: "slot (switch b st) = slot st"
begin

lemma hook_do_live:
  "live st \<Longrightarrow> slot (hook_do reg unreg switch p st) = spec_hook accepts (removable unreg) p (slot st)"
  by (cases p) (auto simp: reg_live unreg_live switch_slot removable_def split: option.split)

lemma hook_do_keeps: "\<not> is_switch p \<Longrightarrow> live (hook_do reg unreg switch p st) = live st"
  by (cases p) (auto simp: reg_keeps unreg_keeps is_switch_def split: option.split)

text \<open>While it stays live, the registry refines the map, whatever modules use it in what order.\<close>

lemma refines_map:
  assumes "live st" and "\<forall>p \<in> set ops. \<not> is_switch p"
  shows "slot (fold (hook_do reg unreg switch) ops st) = fold (spec_hook accepts (removable unreg)) ops (slot st)"
  using assms by (induction ops arbitrary: st) (auto simp: hook_do_live hook_do_keeps)

text \<open>A hook found in a slot was there before or was registered there by one of the operations.\<close>

lemma hook_do_provenance:
  "slot (hook_do reg unreg switch p st) s = None \<or> slot (hook_do reg unreg switch p st) s = slot st s \<or> p = Reg s (slot (hook_do reg unreg switch p st) s)"
proof (cases p)
  case (Reg s' cb)
  then show ?thesis
    using reg_live [of st s' cb] reg_dead [of st s' cb]
    by (cases "live st") (auto split: if_splits)
next
  case (Unreg s')
  show ?thesis
  proof (cases "unreg s'")
    case (Some f)
    then show ?thesis
      using Unreg unreg_live [OF Some, of st] unreg_dead [OF Some, of st]
      by (cases "live st") auto
  qed (simp add: Unreg)
qed (simp add: switch_slot)

lemma provenance:
  "slot (fold (hook_do reg unreg switch) ops st) s = None \<or> slot (fold (hook_do reg unreg switch) ops st) s = slot st s \<or>
     Reg s (slot (fold (hook_do reg unreg switch) ops st) s) \<in> set ops"
proof (induction ops arbitrary: st)
  case (Cons p ops)
  show ?case using Cons [of "hook_do reg unreg switch p st"] hook_do_provenance [of p st s] by auto
qed simp

text \<open>A registry that is off installs nothing.\<close>

lemma hook_do_off:
  assumes "\<not> live st" and "slot st s = None" and "\<not> is_switch p"
  shows "slot (hook_do reg unreg switch p st) s = None \<and> \<not> live (hook_do reg unreg switch p st)"
proof
  show "\<not> live (hook_do reg unreg switch p st)" using assms by (simp add: hook_do_keeps)
  show "slot (hook_do reg unreg switch p st) s = None"
  proof (cases p)
    case (Reg s' cb)
    then show ?thesis using reg_dead [OF assms(1), of s' cb] assms(2) by auto
  next
    case (Unreg s')
    show ?thesis
    proof (cases "unreg s'")
      case (Some f)
      then show ?thesis using Unreg unreg_dead [OF Some assms(1)] assms(2) by auto
    qed (simp add: Unreg assms)
  next
    case (Switch b)
    then show ?thesis using assms by (simp add: switch_slot)
  qed
qed

lemma off_stays_empty:
  assumes "\<not> live st" and "slot st s = None" and "\<forall>p \<in> set ops. \<not> is_switch p"
  shows "slot (fold (hook_do reg unreg switch) ops st) s = None"
  using assms by (induction ops arbitrary: st) (auto dest: hook_do_off)

end

end
