(* ===== verification/Xiaomi_Hooks.thy ===== *)
theory Xiaomi_Hooks
  imports Hook_Registry
begin

text \<open>
  \<open>xiaomi_hooks.c\<close>: the 21 hook pointers of the scheduler with their register and unregister
  functions. A registration of NULL is rejected; while \<open>xiaomi_walt_hooks_enable\<close> is off, every
  store writes NULL instead of the callback and the first one prints a warning.
\<close>

section \<open>State and operations\<close>

text \<open>One constructor per pointer variable.\<close>

datatype xiaomi_slot =
    Mi_update_fravg_f | Mi_update_group_nr | Mi_migrate_fload_hooks | Mi_run_frequpdate_hooks
     | Mi_migarte_fix_fld_hooks | Walt_window_update_hooks | Oem_get_ravg_window_hook
     | Game_vip_hook | Oem_flt_enable_hook | Oem_flt_wakeup_hook | Oem_update_frame_load_hook
     | Oem_set_freq_hook | Soc_update_flt_load_hook | Soc_update_flt_reset_hook
     | Oem_check_migt_rt_hook | Game_migt_should_skip_migrate_hook
     | Game_migt_should_skip_this_cpu_rt_hook | Game_migt_skip_cpus_rt_hook
     | Game_migt_cpus_hook | Game_migt_skip_cpus_hook | Game_migt_exclusive_cpus_hook

record xiaomi_hooks =
  xiaomi_walt_hooks_enable :: bool
  xiaomi_walt_hooks_warned :: bool
  xiaomi_slots :: "xiaomi_slot \<Rightarrow> hook"
  hook_warnings :: nat

definition xiaomi_hooks_init :: xiaomi_hooks where
  "xiaomi_hooks_init = \<lparr>xiaomi_walt_hooks_enable = False, xiaomi_walt_hooks_warned = False,
     xiaomi_slots = (\<lambda>_. None), hook_warnings = 0\<rparr>"

definition xiaomi_store_hook :: "xiaomi_slot \<Rightarrow> hook \<Rightarrow> xiaomi_hooks \<Rightarrow> xiaomi_hooks" where
  "xiaomi_store_hook ptr cb s =
     (if xiaomi_walt_hooks_enable s then s\<lparr>xiaomi_slots := (xiaomi_slots s)(ptr := cb)\<rparr>
      else
        (let s = (if \<not> xiaomi_walt_hooks_warned s
                  then s\<lparr>xiaomi_walt_hooks_warned := True, hook_warnings := Suc (hook_warnings s)\<rparr>
                  else s)
         in s\<lparr>xiaomi_slots := (xiaomi_slots s)(ptr := None)\<rparr>))"

definition register_mi_update_fravg :: "hook \<Rightarrow> xiaomi_hooks \<Rightarrow> int \<times> xiaomi_hooks" where
  "register_mi_update_fravg callback s =
     (if callback = None then (- EINVAL, s)
      else (0, xiaomi_store_hook Mi_update_fravg_f callback s))"

definition unregister_mi_update_fravg :: "xiaomi_hooks \<Rightarrow> int \<times> xiaomi_hooks" where
  "unregister_mi_update_fravg s = (0, xiaomi_store_hook Mi_update_fravg_f None s)"

definition register_mi_update_group_nr :: "hook \<Rightarrow> xiaomi_hooks \<Rightarrow> int \<times> xiaomi_hooks" where
  "register_mi_update_group_nr callback s =
     (if callback = None then (- EINVAL, s)
      else (0, xiaomi_store_hook Mi_update_group_nr callback s))"

definition unregister_mi_update_group_nr :: "xiaomi_hooks \<Rightarrow> int \<times> xiaomi_hooks" where
  "unregister_mi_update_group_nr s = (0, xiaomi_store_hook Mi_update_group_nr None s)"

definition register_mi_migrate_hook :: "hook \<Rightarrow> xiaomi_hooks \<Rightarrow> int \<times> xiaomi_hooks" where
  "register_mi_migrate_hook callback s =
     (if callback = None then (- EINVAL, s)
      else (0, xiaomi_store_hook Mi_migrate_fload_hooks callback s))"

definition unregister_mi_migrate_hook :: "xiaomi_hooks \<Rightarrow> int \<times> xiaomi_hooks" where
  "unregister_mi_migrate_hook s = (0, xiaomi_store_hook Mi_migrate_fload_hooks None s)"

definition register_mi_run_frequpdate_hooks :: "hook \<Rightarrow> xiaomi_hooks \<Rightarrow> int \<times> xiaomi_hooks" where
  "register_mi_run_frequpdate_hooks callback s =
     (if callback = None then (- EINVAL, s)
      else (0, xiaomi_store_hook Mi_run_frequpdate_hooks callback s))"

definition unregister_mi_run_frequpdate_hooks :: "xiaomi_hooks \<Rightarrow> int \<times> xiaomi_hooks" where
  "unregister_mi_run_frequpdate_hooks s = (0, xiaomi_store_hook Mi_run_frequpdate_hooks None s)"

definition register_mi_migarte_fix_fld_hooks :: "hook \<Rightarrow> xiaomi_hooks \<Rightarrow> int \<times> xiaomi_hooks" where
  "register_mi_migarte_fix_fld_hooks callback s =
     (if callback = None then (- EINVAL, s)
      else (0, xiaomi_store_hook Mi_migarte_fix_fld_hooks callback s))"

definition unregister_mi_migarte_fix_fld_hooks :: "xiaomi_hooks \<Rightarrow> int \<times> xiaomi_hooks" where
  "unregister_mi_migarte_fix_fld_hooks s = (0, xiaomi_store_hook Mi_migarte_fix_fld_hooks None s)"

definition register_walt_update_hooks :: "hook \<Rightarrow> xiaomi_hooks \<Rightarrow> int \<times> xiaomi_hooks" where
  "register_walt_update_hooks callback s =
     (if callback = None then (- EINVAL, s)
      else (0, xiaomi_store_hook Walt_window_update_hooks callback s))"

definition unregister_walt_update_hooks :: "xiaomi_hooks \<Rightarrow> int \<times> xiaomi_hooks" where
  "unregister_walt_update_hooks s = (0, xiaomi_store_hook Walt_window_update_hooks None s)"

definition register_game_ravg_window :: "hook \<Rightarrow> xiaomi_hooks \<Rightarrow> int \<times> xiaomi_hooks" where
  "register_game_ravg_window callback s =
     (if callback = None then (- EINVAL, s)
      else (0, xiaomi_store_hook Oem_get_ravg_window_hook callback s))"

definition unregister_game_ravg_window :: "xiaomi_hooks \<Rightarrow> int \<times> xiaomi_hooks" where
  "unregister_game_ravg_window s = (0, xiaomi_store_hook Oem_get_ravg_window_hook None s)"

definition register_game_vip_hook :: "hook \<Rightarrow> xiaomi_hooks \<Rightarrow> int \<times> xiaomi_hooks" where
  "register_game_vip_hook callback s =
     (if callback = None then (- EINVAL, s)
      else (0, xiaomi_store_hook Game_vip_hook callback s))"

definition unregister_game_vip_hook :: "xiaomi_hooks \<Rightarrow> int \<times> xiaomi_hooks" where
  "unregister_game_vip_hook s = (0, xiaomi_store_hook Game_vip_hook None s)"

definition register_oem_flt_enable_hook :: "hook \<Rightarrow> xiaomi_hooks \<Rightarrow> int \<times> xiaomi_hooks" where
  "register_oem_flt_enable_hook callback s =
     (if callback = None then (- EINVAL, s)
      else (0, xiaomi_store_hook Oem_flt_enable_hook callback s))"

definition unregister_oem_flt_enable_hook :: "xiaomi_hooks \<Rightarrow> int \<times> xiaomi_hooks" where
  "unregister_oem_flt_enable_hook s = (0, xiaomi_store_hook Oem_flt_enable_hook None s)"

definition register_oem_flt_wakeup_hook :: "hook \<Rightarrow> xiaomi_hooks \<Rightarrow> int \<times> xiaomi_hooks" where
  "register_oem_flt_wakeup_hook callback s =
     (if callback = None then (- EINVAL, s)
      else (0, xiaomi_store_hook Oem_flt_wakeup_hook callback s))"

definition unregister_oem_flt_wakeup_hook :: "xiaomi_hooks \<Rightarrow> int \<times> xiaomi_hooks" where
  "unregister_oem_flt_wakeup_hook s = (0, xiaomi_store_hook Oem_flt_wakeup_hook None s)"

definition register_oem_update_frame_load_hook :: "hook \<Rightarrow> xiaomi_hooks \<Rightarrow> int \<times> xiaomi_hooks" where
  "register_oem_update_frame_load_hook callback s =
     (if callback = None then (- EINVAL, s)
      else (0, xiaomi_store_hook Oem_update_frame_load_hook callback s))"

definition unregister_oem_update_frame_load_hook :: "xiaomi_hooks \<Rightarrow> int \<times> xiaomi_hooks" where
  "unregister_oem_update_frame_load_hook s = (0, xiaomi_store_hook Oem_update_frame_load_hook None s)"

definition register_oem_freq_hook :: "hook \<Rightarrow> xiaomi_hooks \<Rightarrow> int \<times> xiaomi_hooks" where
  "register_oem_freq_hook callback s =
     (if callback = None then (- EINVAL, s)
      else (0, xiaomi_store_hook Oem_set_freq_hook callback s))"

definition unregister_oem_freq_hook :: "xiaomi_hooks \<Rightarrow> int \<times> xiaomi_hooks" where
  "unregister_oem_freq_hook s = (0, xiaomi_store_hook Oem_set_freq_hook None s)"

definition register_soc_update_flt_load :: "hook \<Rightarrow> xiaomi_hooks \<Rightarrow> int \<times> xiaomi_hooks" where
  "register_soc_update_flt_load callback s =
     (if callback = None then (- EINVAL, s)
      else (0, xiaomi_store_hook Soc_update_flt_load_hook callback s))"

definition unregister_soc_update_flt_load :: "xiaomi_hooks \<Rightarrow> int \<times> xiaomi_hooks" where
  "unregister_soc_update_flt_load s = (0, xiaomi_store_hook Soc_update_flt_load_hook None s)"

definition register_soc_update_flt_reset :: "hook \<Rightarrow> xiaomi_hooks \<Rightarrow> int \<times> xiaomi_hooks" where
  "register_soc_update_flt_reset callback s =
     (if callback = None then (- EINVAL, s)
      else (0, xiaomi_store_hook Soc_update_flt_reset_hook callback s))"

definition unregister_soc_update_flt_reset :: "xiaomi_hooks \<Rightarrow> int \<times> xiaomi_hooks" where
  "unregister_soc_update_flt_reset s = (0, xiaomi_store_hook Soc_update_flt_reset_hook None s)"

definition register_migt_check_rt_hook :: "hook \<Rightarrow> xiaomi_hooks \<Rightarrow> int \<times> xiaomi_hooks" where
  "register_migt_check_rt_hook callback s =
     (if callback = None then (- EINVAL, s)
      else (0, xiaomi_store_hook Oem_check_migt_rt_hook callback s))"

definition unregister_migt_check_rt_hook :: "xiaomi_hooks \<Rightarrow> int \<times> xiaomi_hooks" where
  "unregister_migt_check_rt_hook s = (0, xiaomi_store_hook Oem_check_migt_rt_hook None s)"

definition register_game_migt_should_skip_migrate_hook :: "hook \<Rightarrow> xiaomi_hooks \<Rightarrow> int \<times> xiaomi_hooks" where
  "register_game_migt_should_skip_migrate_hook callback s =
     (if callback = None then (- EINVAL, s)
      else (0, xiaomi_store_hook Game_migt_should_skip_migrate_hook callback s))"

definition unregister_game_migt_should_skip_migrate_hook :: "xiaomi_hooks \<Rightarrow> int \<times> xiaomi_hooks" where
  "unregister_game_migt_should_skip_migrate_hook s = (0, xiaomi_store_hook Game_migt_should_skip_migrate_hook None s)"

definition register_game_migt_should_skip_this_cpu_rt_hook :: "hook \<Rightarrow> xiaomi_hooks \<Rightarrow> int \<times> xiaomi_hooks" where
  "register_game_migt_should_skip_this_cpu_rt_hook callback s =
     (if callback = None then (- EINVAL, s)
      else (0, xiaomi_store_hook Game_migt_should_skip_this_cpu_rt_hook callback s))"

definition unregister_game_migt_should_skip_this_cpu_rt_hook :: "xiaomi_hooks \<Rightarrow> int \<times> xiaomi_hooks" where
  "unregister_game_migt_should_skip_this_cpu_rt_hook s = (0, xiaomi_store_hook Game_migt_should_skip_this_cpu_rt_hook None s)"

definition register_game_migt_skip_cpus_rt_hook :: "hook \<Rightarrow> xiaomi_hooks \<Rightarrow> int \<times> xiaomi_hooks" where
  "register_game_migt_skip_cpus_rt_hook callback s =
     (if callback = None then (- EINVAL, s)
      else (0, xiaomi_store_hook Game_migt_skip_cpus_rt_hook callback s))"

definition unregister_game_migt_skip_cpus_rt_hook :: "xiaomi_hooks \<Rightarrow> int \<times> xiaomi_hooks" where
  "unregister_game_migt_skip_cpus_rt_hook s = (0, xiaomi_store_hook Game_migt_skip_cpus_rt_hook None s)"

definition register_game_migt_cpus_hook :: "hook \<Rightarrow> xiaomi_hooks \<Rightarrow> int \<times> xiaomi_hooks" where
  "register_game_migt_cpus_hook callback s =
     (if callback = None then (- EINVAL, s)
      else (0, xiaomi_store_hook Game_migt_cpus_hook callback s))"

definition unregister_game_migt_cpus_hook :: "xiaomi_hooks \<Rightarrow> int \<times> xiaomi_hooks" where
  "unregister_game_migt_cpus_hook s = (0, xiaomi_store_hook Game_migt_cpus_hook None s)"

definition register_game_migt_skip_cpus_hook :: "hook \<Rightarrow> xiaomi_hooks \<Rightarrow> int \<times> xiaomi_hooks" where
  "register_game_migt_skip_cpus_hook callback s =
     (if callback = None then (- EINVAL, s)
      else (0, xiaomi_store_hook Game_migt_skip_cpus_hook callback s))"

definition unregister_game_migt_skip_cpus_hook :: "xiaomi_hooks \<Rightarrow> int \<times> xiaomi_hooks" where
  "unregister_game_migt_skip_cpus_hook s = (0, xiaomi_store_hook Game_migt_skip_cpus_hook None s)"

definition register_game_migt_exclusive_cpus_hook :: "hook \<Rightarrow> xiaomi_hooks \<Rightarrow> int \<times> xiaomi_hooks" where
  "register_game_migt_exclusive_cpus_hook callback s =
     (if callback = None then (- EINVAL, s)
      else (0, xiaomi_store_hook Game_migt_exclusive_cpus_hook callback s))"

definition unregister_game_migt_exclusive_cpus_hook :: "xiaomi_hooks \<Rightarrow> int \<times> xiaomi_hooks" where
  "unregister_game_migt_exclusive_cpus_hook s = (0, xiaomi_store_hook Game_migt_exclusive_cpus_hook None s)"

text \<open>The exported functions by slot.\<close>

fun xiaomi_register :: "xiaomi_slot \<Rightarrow> hook \<Rightarrow> xiaomi_hooks \<Rightarrow> int \<times> xiaomi_hooks" where
  "xiaomi_register Mi_update_fravg_f = register_mi_update_fravg"
| "xiaomi_register Mi_update_group_nr = register_mi_update_group_nr"
| "xiaomi_register Mi_migrate_fload_hooks = register_mi_migrate_hook"
| "xiaomi_register Mi_run_frequpdate_hooks = register_mi_run_frequpdate_hooks"
| "xiaomi_register Mi_migarte_fix_fld_hooks = register_mi_migarte_fix_fld_hooks"
| "xiaomi_register Walt_window_update_hooks = register_walt_update_hooks"
| "xiaomi_register Oem_get_ravg_window_hook = register_game_ravg_window"
| "xiaomi_register Game_vip_hook = register_game_vip_hook"
| "xiaomi_register Oem_flt_enable_hook = register_oem_flt_enable_hook"
| "xiaomi_register Oem_flt_wakeup_hook = register_oem_flt_wakeup_hook"
| "xiaomi_register Oem_update_frame_load_hook = register_oem_update_frame_load_hook"
| "xiaomi_register Oem_set_freq_hook = register_oem_freq_hook"
| "xiaomi_register Soc_update_flt_load_hook = register_soc_update_flt_load"
| "xiaomi_register Soc_update_flt_reset_hook = register_soc_update_flt_reset"
| "xiaomi_register Oem_check_migt_rt_hook = register_migt_check_rt_hook"
| "xiaomi_register Game_migt_should_skip_migrate_hook = register_game_migt_should_skip_migrate_hook"
| "xiaomi_register Game_migt_should_skip_this_cpu_rt_hook = register_game_migt_should_skip_this_cpu_rt_hook"
| "xiaomi_register Game_migt_skip_cpus_rt_hook = register_game_migt_skip_cpus_rt_hook"
| "xiaomi_register Game_migt_cpus_hook = register_game_migt_cpus_hook"
| "xiaomi_register Game_migt_skip_cpus_hook = register_game_migt_skip_cpus_hook"
| "xiaomi_register Game_migt_exclusive_cpus_hook = register_game_migt_exclusive_cpus_hook"

fun xiaomi_unregister :: "xiaomi_slot \<Rightarrow> xiaomi_hooks \<Rightarrow> int \<times> xiaomi_hooks" where
  "xiaomi_unregister Mi_update_fravg_f = unregister_mi_update_fravg"
| "xiaomi_unregister Mi_update_group_nr = unregister_mi_update_group_nr"
| "xiaomi_unregister Mi_migrate_fload_hooks = unregister_mi_migrate_hook"
| "xiaomi_unregister Mi_run_frequpdate_hooks = unregister_mi_run_frequpdate_hooks"
| "xiaomi_unregister Mi_migarte_fix_fld_hooks = unregister_mi_migarte_fix_fld_hooks"
| "xiaomi_unregister Walt_window_update_hooks = unregister_walt_update_hooks"
| "xiaomi_unregister Oem_get_ravg_window_hook = unregister_game_ravg_window"
| "xiaomi_unregister Game_vip_hook = unregister_game_vip_hook"
| "xiaomi_unregister Oem_flt_enable_hook = unregister_oem_flt_enable_hook"
| "xiaomi_unregister Oem_flt_wakeup_hook = unregister_oem_flt_wakeup_hook"
| "xiaomi_unregister Oem_update_frame_load_hook = unregister_oem_update_frame_load_hook"
| "xiaomi_unregister Oem_set_freq_hook = unregister_oem_freq_hook"
| "xiaomi_unregister Soc_update_flt_load_hook = unregister_soc_update_flt_load"
| "xiaomi_unregister Soc_update_flt_reset_hook = unregister_soc_update_flt_reset"
| "xiaomi_unregister Oem_check_migt_rt_hook = unregister_migt_check_rt_hook"
| "xiaomi_unregister Game_migt_should_skip_migrate_hook = unregister_game_migt_should_skip_migrate_hook"
| "xiaomi_unregister Game_migt_should_skip_this_cpu_rt_hook = unregister_game_migt_should_skip_this_cpu_rt_hook"
| "xiaomi_unregister Game_migt_skip_cpus_rt_hook = unregister_game_migt_skip_cpus_rt_hook"
| "xiaomi_unregister Game_migt_cpus_hook = unregister_game_migt_cpus_hook"
| "xiaomi_unregister Game_migt_skip_cpus_hook = unregister_game_migt_skip_cpus_hook"
| "xiaomi_unregister Game_migt_exclusive_cpus_hook = unregister_game_migt_exclusive_cpus_hook"

lemmas xiaomi_fun_defs =
  register_mi_update_fravg_def register_mi_update_group_nr_def register_mi_migrate_hook_def
  register_mi_run_frequpdate_hooks_def register_mi_migarte_fix_fld_hooks_def
  register_walt_update_hooks_def register_game_ravg_window_def register_game_vip_hook_def
  register_oem_flt_enable_hook_def register_oem_flt_wakeup_hook_def
  register_oem_update_frame_load_hook_def register_oem_freq_hook_def
  register_soc_update_flt_load_def register_soc_update_flt_reset_def
  register_migt_check_rt_hook_def register_game_migt_should_skip_migrate_hook_def
  register_game_migt_should_skip_this_cpu_rt_hook_def register_game_migt_skip_cpus_rt_hook_def
  register_game_migt_cpus_hook_def register_game_migt_skip_cpus_hook_def
  register_game_migt_exclusive_cpus_hook_def unregister_mi_update_fravg_def
  unregister_mi_update_group_nr_def unregister_mi_migrate_hook_def
  unregister_mi_run_frequpdate_hooks_def unregister_mi_migarte_fix_fld_hooks_def
  unregister_walt_update_hooks_def unregister_game_ravg_window_def unregister_game_vip_hook_def
  unregister_oem_flt_enable_hook_def unregister_oem_flt_wakeup_hook_def
  unregister_oem_update_frame_load_hook_def unregister_oem_freq_hook_def
  unregister_soc_update_flt_load_def unregister_soc_update_flt_reset_def
  unregister_migt_check_rt_hook_def unregister_game_migt_should_skip_migrate_hook_def
  unregister_game_migt_should_skip_this_cpu_rt_hook_def
  unregister_game_migt_skip_cpus_rt_hook_def unregister_game_migt_cpus_hook_def
  unregister_game_migt_skip_cpus_hook_def unregister_game_migt_exclusive_cpus_hook_def

definition xiaomi_switch :: "bool \<Rightarrow> xiaomi_hooks \<Rightarrow> xiaomi_hooks" where
  "xiaomi_switch b s = s\<lparr>xiaomi_walt_hooks_enable := b\<rparr>"

section \<open>The registry\<close>

lemma xiaomi_register_eq:
  "xiaomi_register sl cb s =
     (if cb = None then (- EINVAL, s) else (0, xiaomi_store_hook sl cb s))"
  by (cases sl) (simp_all add: xiaomi_fun_defs)

lemma xiaomi_unregister_eq: "xiaomi_unregister sl s = (0, xiaomi_store_hook sl None s)"
  by (cases sl) (simp_all add: xiaomi_fun_defs)

lemma store_slots:
  "xiaomi_slots (xiaomi_store_hook sl cb s) =
     (xiaomi_slots s)(sl := if xiaomi_walt_hooks_enable s then cb else None)"
  by (simp add: xiaomi_store_hook_def Let_def)

lemma store_enable:
  "xiaomi_walt_hooks_enable (xiaomi_store_hook sl cb s) = xiaomi_walt_hooks_enable s"
  by (simp add: xiaomi_store_hook_def Let_def)

interpretation xiaomi: hook_registry xiaomi_register "\<lambda>sl. Some (xiaomi_unregister sl)"
  xiaomi_switch xiaomi_slots xiaomi_walt_hooks_enable "\<lambda>cb. cb \<noteq> None"
  by unfold_locales
    (auto simp: xiaomi_register_eq xiaomi_unregister_eq store_slots store_enable xiaomi_switch_def)

text \<open>C9: the scheduler hooks behave as a map. While the hooks are enabled, any sequence of
  registrations and unregistrations, by any modules and in any order, leaves in every one of the
  21 slots what updating a map step by step leaves there: the last callback registered, unless
  it was unregistered since; NULL registrations change nothing.\<close>

theorem xiaomi_hooks_refine_map:
  assumes "xiaomi_walt_hooks_enable s" and "\<forall>p \<in> set ops. \<not> is_switch p"
  shows "xiaomi_slots (fold (hook_do xiaomi_register (\<lambda>sl. Some (xiaomi_unregister sl))
      xiaomi_switch) ops s) =
    fold (spec_hook (\<lambda>cb. cb \<noteq> None) (\<lambda>_. True)) ops (xiaomi_slots s)"
proof -
  have "removable (\<lambda>sl. Some (xiaomi_unregister sl)) = (\<lambda>_. True)"
    by (simp add: fun_eq_iff removable_def)
  then show ?thesis using xiaomi.refines_map [OF assms] by simp
qed

theorem xiaomi_hooks_refine_map_witness:
  "xiaomi_slots (fold (hook_do xiaomi_register (\<lambda>sl. Some (xiaomi_unregister sl)) xiaomi_switch)
     [Reg Game_vip_hook (Some 1), Reg Game_vip_hook (Some 2), Unreg Oem_set_freq_hook]
     (xiaomi_hooks_init\<lparr>xiaomi_walt_hooks_enable := True\<rparr>)) Game_vip_hook = Some 2"
  using xiaomi_hooks_refine_map [of "xiaomi_hooks_init\<lparr>xiaomi_walt_hooks_enable := True\<rparr>"
      "[Reg Game_vip_hook (Some 1), Reg Game_vip_hook (Some 2), Unreg Oem_set_freq_hook]"]
  by (simp add: is_switch_def)

lemma store_warn_once:
  "hook_warnings s = (if xiaomi_walt_hooks_warned s then 1 else 0) \<Longrightarrow>
     hook_warnings (xiaomi_store_hook sl cb s) =
       (if xiaomi_walt_hooks_warned (xiaomi_store_hook sl cb s) then 1 else 0)"
  by (simp add: xiaomi_store_hook_def Let_def)

lemma warn_once:
  "hook_warnings s = (if xiaomi_walt_hooks_warned s then 1 else 0) \<Longrightarrow>
     hook_warnings (fold (hook_do xiaomi_register (\<lambda>sl. Some (xiaomi_unregister sl)) xiaomi_switch)
       ops s) \<le> 1"
proof (induction ops arbitrary: s)
  case (Cons p ops)
  have "hook_warnings (hook_do xiaomi_register (\<lambda>sl. Some (xiaomi_unregister sl)) xiaomi_switch p s)
      = (if xiaomi_walt_hooks_warned
           (hook_do xiaomi_register (\<lambda>sl. Some (xiaomi_unregister sl)) xiaomi_switch p s)
         then 1 else 0)"
    using Cons.prems store_warn_once [of s]
    by (cases p) (simp_all add: xiaomi_register_eq xiaomi_unregister_eq xiaomi_switch_def)
  then show ?case using Cons.IH by simp
qed simp

text \<open>Disabled hooks stay out of the scheduler. From the state at boot and as long as
  nobody enables the hooks, no sequence of operations installs a callback in any slot, although
  every registration of a callback reports success; the warning is printed once at most.\<close>

theorem xiaomi_disabled_inert:
  assumes "\<forall>p \<in> set ops. \<not> is_switch p"
  shows "xiaomi_slots (fold (hook_do xiaomi_register (\<lambda>sl. Some (xiaomi_unregister sl))
      xiaomi_switch) ops xiaomi_hooks_init) sl = None \<and>
    hook_warnings (fold (hook_do xiaomi_register (\<lambda>sl. Some (xiaomi_unregister sl))
      xiaomi_switch) ops xiaomi_hooks_init) \<le> 1 \<and>
    fst (xiaomi_register sl (Some f) s) = 0"
proof -
  have "\<not> xiaomi_walt_hooks_enable xiaomi_hooks_init" "xiaomi_slots xiaomi_hooks_init sl = None"
    "hook_warnings xiaomi_hooks_init = (if xiaomi_walt_hooks_warned xiaomi_hooks_init then 1 else 0)"
    by (simp_all add: xiaomi_hooks_init_def)
  then show ?thesis
    using xiaomi.off_stays_empty [OF _ _ assms] warn_once by (simp add: xiaomi_register_eq)
qed

theorem xiaomi_disabled_inert_witness:
  "xiaomi_slots (fold (hook_do xiaomi_register (\<lambda>sl. Some (xiaomi_unregister sl)) xiaomi_switch)
     [Reg Game_vip_hook (Some 1)] xiaomi_hooks_init) Game_vip_hook = None"
  using xiaomi_disabled_inert [of "[Reg Game_vip_hook (Some 1)]" Game_vip_hook]
  by (simp add: is_switch_def)


text \<open>Unregistering always takes effect and only real registrations are ever called. Also
  when the parameter is switched on and off between the operations, a callback found in a slot
  was there at the start or was registered in that slot; and after an unregistration the slot is
  empty whether the hooks are enabled or not.\<close>

theorem xiaomi_hook_provenance:
  "(\<forall>ops sl. let s' = fold (hook_do xiaomi_register (\<lambda>sl. Some (xiaomi_unregister sl))
        xiaomi_switch) ops s
      in xiaomi_slots s' sl = None \<or> xiaomi_slots s' sl = xiaomi_slots s sl \<or>
         Reg sl (xiaomi_slots s' sl) \<in> set ops) \<and>
   (\<forall>sl. xiaomi_slots (snd (xiaomi_unregister sl s)) sl = None)"
  using xiaomi.provenance [of _ s] by (simp add: Let_def xiaomi_unregister_eq store_slots)

end
