(* ===== verification/Metis_Hooks.thy ===== *)
theory Metis_Hooks
  imports Hook_Registry
begin

text \<open>
  The hook registry of \<open>metis.c\<close>: 18 pointers, a register function for each and an unregister
  function for 15 of them. While \<open>metis_safe_boot\<close> is set, which is the default, every store is
  skipped and still reports success. The other exported functions of the module are empty stubs.
\<close>

section \<open>State and operations\<close>

datatype metis_slot =
    Game_binder_f_ptr | Rvh_mi_try_to_wake_up_ptr | Corectl_boost_hook_ptr
     | Update_perflock_freq_hook_ptr | Get_perflock_last_freqs_hook_ptr
     | Game_metis_skip_cpus_hook_ptr | Mi_enqueue_entity_hook_ptr
     | Mi_enqueue_task_fair_hook_ptr | Mi_lb_detect_func_ptr | Ui_task_detect_ptr
     | Render_task_detect_ptr | Vip_task_detect_ptr | Mi_walt_get_indicies_ptr
     | Mi_find_energy_efficient_cpu_ptr | Mi_dequeue_task_fair_hook_ptr | Mi_sched_enable_ptr
     | Choose_cpu_overutiled_ptr | Override_schedboost_ptr

record metis_state =
  metis_safe_boot :: bool
  metis_slots :: "metis_slot \<Rightarrow> hook"

definition metis_start :: metis_state where
  "metis_start = \<lparr>metis_safe_boot = True, metis_slots = (\<lambda>_. None)\<rparr>"

definition metis_store_hook :: "metis_slot \<Rightarrow> hook \<Rightarrow> metis_state \<Rightarrow> int \<times> metis_state" where
  "metis_store_hook slot hk s =
     (if metis_safe_boot s then (0, s) else (0, s\<lparr>metis_slots := (metis_slots s)(slot := hk)\<rparr>))"

definition register_game_binder_f :: "hook \<Rightarrow> metis_state \<Rightarrow> int \<times> metis_state" where
  "register_game_binder_f hk s = metis_store_hook Game_binder_f_ptr hk s"

definition unregister_game_binder_f :: "metis_state \<Rightarrow> int \<times> metis_state" where
  "unregister_game_binder_f s = metis_store_hook Game_binder_f_ptr None s"

definition register_rvh_mi_try_to_wake_up :: "hook \<Rightarrow> metis_state \<Rightarrow> int \<times> metis_state" where
  "register_rvh_mi_try_to_wake_up hk s = metis_store_hook Rvh_mi_try_to_wake_up_ptr hk s"

definition unregister_rvh_mi_try_to_wake_up :: "metis_state \<Rightarrow> int \<times> metis_state" where
  "unregister_rvh_mi_try_to_wake_up s = metis_store_hook Rvh_mi_try_to_wake_up_ptr None s"

definition register_corectl_boost_hook :: "hook \<Rightarrow> metis_state \<Rightarrow> int \<times> metis_state" where
  "register_corectl_boost_hook hk s = metis_store_hook Corectl_boost_hook_ptr hk s"

definition register_update_perflock_freq_hook :: "hook \<Rightarrow> metis_state \<Rightarrow> int \<times> metis_state" where
  "register_update_perflock_freq_hook hk s = metis_store_hook Update_perflock_freq_hook_ptr hk s"

definition register_get_perflock_last_freqs_hook :: "hook \<Rightarrow> metis_state \<Rightarrow> int \<times> metis_state" where
  "register_get_perflock_last_freqs_hook hk s = metis_store_hook Get_perflock_last_freqs_hook_ptr hk s"

definition register_game_metis_skip_cpus_hook :: "hook \<Rightarrow> metis_state \<Rightarrow> int \<times> metis_state" where
  "register_game_metis_skip_cpus_hook hk s = metis_store_hook Game_metis_skip_cpus_hook_ptr hk s"

definition unregister_game_metis_skip_cpus_hook :: "metis_state \<Rightarrow> int \<times> metis_state" where
  "unregister_game_metis_skip_cpus_hook s = metis_store_hook Game_metis_skip_cpus_hook_ptr None s"

definition register_mi_enqueue_entity_hook :: "hook \<Rightarrow> metis_state \<Rightarrow> int \<times> metis_state" where
  "register_mi_enqueue_entity_hook hk s = metis_store_hook Mi_enqueue_entity_hook_ptr hk s"

definition unregister_mi_enqueue_entity_hook :: "metis_state \<Rightarrow> int \<times> metis_state" where
  "unregister_mi_enqueue_entity_hook s = metis_store_hook Mi_enqueue_entity_hook_ptr None s"

definition register_mi_enqueue_task_fair_hook :: "hook \<Rightarrow> metis_state \<Rightarrow> int \<times> metis_state" where
  "register_mi_enqueue_task_fair_hook hk s = metis_store_hook Mi_enqueue_task_fair_hook_ptr hk s"

definition unregister_mi_enqueue_task_fair_hook :: "metis_state \<Rightarrow> int \<times> metis_state" where
  "unregister_mi_enqueue_task_fair_hook s = metis_store_hook Mi_enqueue_task_fair_hook_ptr None s"

definition register_mi_lb_detect_func :: "hook \<Rightarrow> metis_state \<Rightarrow> int \<times> metis_state" where
  "register_mi_lb_detect_func hk s = metis_store_hook Mi_lb_detect_func_ptr hk s"

definition unregister_mi_lb_detect_func :: "metis_state \<Rightarrow> int \<times> metis_state" where
  "unregister_mi_lb_detect_func s = metis_store_hook Mi_lb_detect_func_ptr None s"

definition register_ui_task_detect :: "hook \<Rightarrow> metis_state \<Rightarrow> int \<times> metis_state" where
  "register_ui_task_detect hk s = metis_store_hook Ui_task_detect_ptr hk s"

definition register_render_task_detect :: "hook \<Rightarrow> metis_state \<Rightarrow> int \<times> metis_state" where
  "register_render_task_detect hk s = metis_store_hook Render_task_detect_ptr hk s"

definition register_vip_task_detect :: "hook \<Rightarrow> metis_state \<Rightarrow> int \<times> metis_state" where
  "register_vip_task_detect hk s = metis_store_hook Vip_task_detect_ptr hk s"

definition unregister_ui_task_detect :: "metis_state \<Rightarrow> int \<times> metis_state" where
  "unregister_ui_task_detect s = metis_store_hook Ui_task_detect_ptr None s"

definition unregister_render_task_detect :: "metis_state \<Rightarrow> int \<times> metis_state" where
  "unregister_render_task_detect s = metis_store_hook Render_task_detect_ptr None s"

definition unregister_vip_task_detect :: "metis_state \<Rightarrow> int \<times> metis_state" where
  "unregister_vip_task_detect s = metis_store_hook Vip_task_detect_ptr None s"

definition register_mi_walt_get_indicies :: "hook \<Rightarrow> metis_state \<Rightarrow> int \<times> metis_state" where
  "register_mi_walt_get_indicies hk s = metis_store_hook Mi_walt_get_indicies_ptr hk s"

definition unregister_mi_walt_get_indicies :: "metis_state \<Rightarrow> int \<times> metis_state" where
  "unregister_mi_walt_get_indicies s = metis_store_hook Mi_walt_get_indicies_ptr None s"

definition register_mi_find_energy_efficient_cpu :: "hook \<Rightarrow> metis_state \<Rightarrow> int \<times> metis_state" where
  "register_mi_find_energy_efficient_cpu hk s = metis_store_hook Mi_find_energy_efficient_cpu_ptr hk s"

definition unregister_mi_find_energy_efficient_cpu :: "metis_state \<Rightarrow> int \<times> metis_state" where
  "unregister_mi_find_energy_efficient_cpu s = metis_store_hook Mi_find_energy_efficient_cpu_ptr None s"

definition register_mi_dequeue_task_fair_hook :: "hook \<Rightarrow> metis_state \<Rightarrow> int \<times> metis_state" where
  "register_mi_dequeue_task_fair_hook hk s = metis_store_hook Mi_dequeue_task_fair_hook_ptr hk s"

definition unregister_mi_dequeue_task_fair_hook :: "metis_state \<Rightarrow> int \<times> metis_state" where
  "unregister_mi_dequeue_task_fair_hook s = metis_store_hook Mi_dequeue_task_fair_hook_ptr None s"

definition register_mi_sched_enable :: "hook \<Rightarrow> metis_state \<Rightarrow> int \<times> metis_state" where
  "register_mi_sched_enable hk s = metis_store_hook Mi_sched_enable_ptr hk s"

definition unregister_mi_sched_enable :: "metis_state \<Rightarrow> int \<times> metis_state" where
  "unregister_mi_sched_enable s = metis_store_hook Mi_sched_enable_ptr None s"

definition register_choose_cpu_overutiled :: "hook \<Rightarrow> metis_state \<Rightarrow> int \<times> metis_state" where
  "register_choose_cpu_overutiled hk s = metis_store_hook Choose_cpu_overutiled_ptr hk s"

definition unregister_choose_cpu_overutiled :: "metis_state \<Rightarrow> int \<times> metis_state" where
  "unregister_choose_cpu_overutiled s = metis_store_hook Choose_cpu_overutiled_ptr None s"

definition register_override_schedboost :: "hook \<Rightarrow> metis_state \<Rightarrow> int \<times> metis_state" where
  "register_override_schedboost hk s = metis_store_hook Override_schedboost_ptr hk s"

definition unregister_override_schedboost :: "metis_state \<Rightarrow> int \<times> metis_state" where
  "unregister_override_schedboost s = metis_store_hook Override_schedboost_ptr None s"

text \<open>The exported functions by slot.\<close>

fun metis_register :: "metis_slot \<Rightarrow> hook \<Rightarrow> metis_state \<Rightarrow> int \<times> metis_state" where
  "metis_register Game_binder_f_ptr = register_game_binder_f"
| "metis_register Rvh_mi_try_to_wake_up_ptr = register_rvh_mi_try_to_wake_up"
| "metis_register Corectl_boost_hook_ptr = register_corectl_boost_hook"
| "metis_register Update_perflock_freq_hook_ptr = register_update_perflock_freq_hook"
| "metis_register Get_perflock_last_freqs_hook_ptr = register_get_perflock_last_freqs_hook"
| "metis_register Game_metis_skip_cpus_hook_ptr = register_game_metis_skip_cpus_hook"
| "metis_register Mi_enqueue_entity_hook_ptr = register_mi_enqueue_entity_hook"
| "metis_register Mi_enqueue_task_fair_hook_ptr = register_mi_enqueue_task_fair_hook"
| "metis_register Mi_lb_detect_func_ptr = register_mi_lb_detect_func"
| "metis_register Ui_task_detect_ptr = register_ui_task_detect"
| "metis_register Render_task_detect_ptr = register_render_task_detect"
| "metis_register Vip_task_detect_ptr = register_vip_task_detect"
| "metis_register Mi_walt_get_indicies_ptr = register_mi_walt_get_indicies"
| "metis_register Mi_find_energy_efficient_cpu_ptr = register_mi_find_energy_efficient_cpu"
| "metis_register Mi_dequeue_task_fair_hook_ptr = register_mi_dequeue_task_fair_hook"
| "metis_register Mi_sched_enable_ptr = register_mi_sched_enable"
| "metis_register Choose_cpu_overutiled_ptr = register_choose_cpu_overutiled"
| "metis_register Override_schedboost_ptr = register_override_schedboost"

fun metis_unregister :: "metis_slot \<Rightarrow> (metis_state \<Rightarrow> int \<times> metis_state) option" where
  "metis_unregister Game_binder_f_ptr = Some unregister_game_binder_f"
| "metis_unregister Rvh_mi_try_to_wake_up_ptr = Some unregister_rvh_mi_try_to_wake_up"
| "metis_unregister Corectl_boost_hook_ptr = None"
| "metis_unregister Update_perflock_freq_hook_ptr = None"
| "metis_unregister Get_perflock_last_freqs_hook_ptr = None"
| "metis_unregister Game_metis_skip_cpus_hook_ptr = Some unregister_game_metis_skip_cpus_hook"
| "metis_unregister Mi_enqueue_entity_hook_ptr = Some unregister_mi_enqueue_entity_hook"
| "metis_unregister Mi_enqueue_task_fair_hook_ptr = Some unregister_mi_enqueue_task_fair_hook"
| "metis_unregister Mi_lb_detect_func_ptr = Some unregister_mi_lb_detect_func"
| "metis_unregister Ui_task_detect_ptr = Some unregister_ui_task_detect"
| "metis_unregister Render_task_detect_ptr = Some unregister_render_task_detect"
| "metis_unregister Vip_task_detect_ptr = Some unregister_vip_task_detect"
| "metis_unregister Mi_walt_get_indicies_ptr = Some unregister_mi_walt_get_indicies"
| "metis_unregister Mi_find_energy_efficient_cpu_ptr = Some unregister_mi_find_energy_efficient_cpu"
| "metis_unregister Mi_dequeue_task_fair_hook_ptr = Some unregister_mi_dequeue_task_fair_hook"
| "metis_unregister Mi_sched_enable_ptr = Some unregister_mi_sched_enable"
| "metis_unregister Choose_cpu_overutiled_ptr = Some unregister_choose_cpu_overutiled"
| "metis_unregister Override_schedboost_ptr = Some unregister_override_schedboost"

lemmas metis_fun_defs =
  register_game_binder_f_def register_rvh_mi_try_to_wake_up_def register_corectl_boost_hook_def
  register_update_perflock_freq_hook_def register_get_perflock_last_freqs_hook_def
  register_game_metis_skip_cpus_hook_def register_mi_enqueue_entity_hook_def
  register_mi_enqueue_task_fair_hook_def register_mi_lb_detect_func_def
  register_ui_task_detect_def register_render_task_detect_def register_vip_task_detect_def
  register_mi_walt_get_indicies_def register_mi_find_energy_efficient_cpu_def
  register_mi_dequeue_task_fair_hook_def register_mi_sched_enable_def
  register_choose_cpu_overutiled_def register_override_schedboost_def
  unregister_game_binder_f_def unregister_rvh_mi_try_to_wake_up_def
  unregister_game_metis_skip_cpus_hook_def unregister_mi_enqueue_entity_hook_def
  unregister_mi_enqueue_task_fair_hook_def unregister_mi_lb_detect_func_def
  unregister_ui_task_detect_def unregister_render_task_detect_def unregister_vip_task_detect_def
  unregister_mi_walt_get_indicies_def unregister_mi_find_energy_efficient_cpu_def
  unregister_mi_dequeue_task_fair_hook_def unregister_mi_sched_enable_def
  unregister_choose_cpu_overutiled_def unregister_override_schedboost_def

definition metis_switch :: "bool \<Rightarrow> metis_state \<Rightarrow> metis_state" where
  "metis_switch b s = s\<lparr>metis_safe_boot := \<not> b\<rparr>"

section \<open>The registry\<close>

lemma metis_register_eq: "metis_register sl hk s = metis_store_hook sl hk s"
  by (cases sl) (simp_all add: metis_fun_defs)

lemma metis_unregister_eq:
  "metis_unregister sl =
     (if sl \<in> {Corectl_boost_hook_ptr, Update_perflock_freq_hook_ptr, Get_perflock_last_freqs_hook_ptr}
      then None else Some (metis_store_hook sl None))"
  by (cases sl) (simp_all add: metis_fun_defs fun_eq_iff)

interpretation metis_reg: hook_registry metis_register metis_unregister metis_switch metis_slots
  "\<lambda>s. \<not> metis_safe_boot s" "\<lambda>_. True"
  by unfold_locales
    (auto simp: metis_register_eq metis_unregister_eq metis_store_hook_def metis_switch_def
      split: if_splits)

text \<open>The hooks of Metis. With safe boot off, the 18 slots refine a map under any sequence
  of operations, where the three slots without an unregister function keep their last callback;
  with safe boot on, no operation changes any slot and every one reports success.\<close>

theorem metis_hooks_refine_map:
  assumes "\<forall>p \<in> set ops. \<not> is_switch p"
  shows "metis_slots (fold (hook_do metis_register metis_unregister metis_switch) ops s) =
    (if metis_safe_boot s then metis_slots s
     else fold (spec_hook (\<lambda>_. True)
            (\<lambda>sl. sl \<notin> {Corectl_boost_hook_ptr, Update_perflock_freq_hook_ptr, Get_perflock_last_freqs_hook_ptr})) ops (metis_slots s))"
proof (cases "metis_safe_boot s")
  case True
  have "fold (hook_do metis_register metis_unregister metis_switch) ops s = s"
    using assms
  proof (induction ops)
    case (Cons p ops)
    have "hook_do metis_register metis_unregister metis_switch p s = s"
      using Cons.prems True
      by (cases p) (auto simp: metis_register_eq metis_unregister_eq metis_store_hook_def
          is_switch_def)
    then show ?case using Cons by simp
  qed simp
  then show ?thesis using True by simp
next
  case False
  have "removable metis_unregister =
      (\<lambda>sl. sl \<notin> {Corectl_boost_hook_ptr, Update_perflock_freq_hook_ptr, Get_perflock_last_freqs_hook_ptr})"
    by (auto simp: fun_eq_iff removable_def metis_unregister_eq)
  then show ?thesis using metis_reg.refines_map [OF False assms] False by simp
qed

theorem metis_hooks_refine_map_witness:
  "metis_slots (fold (hook_do metis_register metis_unregister metis_switch)
     [Reg Ui_task_detect_ptr (Some 7)] metis_start) Ui_task_detect_ptr = None"
  using metis_hooks_refine_map [of "[Reg Ui_task_detect_ptr (Some 7)]" metis_start]
  by (simp add: is_switch_def metis_start_def)

text \<open>A stale hook survives its unregistration. The parameter can be set while hooks are
  installed; from then on unregistering reports success and leaves the callback in its slot, so
  a module that unregisters before it is unloaded leaves a pointer to freed code behind.\<close>

theorem metis_unregister_keeps_stale_hook:
  assumes "metis_unregister sl = Some f" and "metis_slots s sl = Some cb"
  shows "metis_slots (snd (f (metis_switch False s))) sl = Some cb \<and>
    fst (f (metis_switch False s)) = 0"
  using assms by (auto simp: metis_unregister_eq metis_store_hook_def metis_switch_def
      split: if_splits)

theorem metis_unregister_keeps_stale_hook_witness:
  "metis_slots (snd (unregister_ui_task_detect (metis_switch False
     (metis_start\<lparr>metis_slots := (\<lambda>_. Some 7)\<rparr>)))) Ui_task_detect_ptr = Some 7"
  using metis_unregister_keeps_stale_hook [of Ui_task_detect_ptr unregister_ui_task_detect
      "metis_start\<lparr>metis_slots := (\<lambda>_. Some 7)\<rparr>" 7] by simp

end
