(* ===== verification/Mi_Schedule.thy ===== *)
theory Mi_Schedule
  imports Hook_Registry
begin

text \<open>
  \<open>mi_schedule.c\<close>: its three hook pointers with their register and unregister functions, the
  three built-in groups and the default user set up by the module's init, and the getters other
  modules use. Unlike the other registries it has no switch: every store takes effect.
\<close>

section \<open>State and operations\<close>

datatype sched_slot = Sched_load_update_hook | Task_group_change_update_hook
  | Mi_update_global_period_hook

record mi_group_data =
  grp_node :: "nat list"
  mi_tasks :: "nat list"
  ls_groups :: "nat list"
  grp_refcount :: int
  group_id :: int
  group_type :: int
  grp_fps :: int

record mi_user_struct =
  usr_node :: "nat list"
  usr_tasks :: "nat list"
  default_group :: "nat option"
  usr_refcount :: int
  usr_uid :: nat

record mi_schedule =
  sched_slots :: "sched_slot \<Rightarrow> hook"
  system_group :: mi_group_data
  back_group :: mi_group_data
  kernel_group :: mi_group_data
  zero_user :: mi_user_struct
  active_groups :: "nat list"

definition mi_schedule_store_hook :: "sched_slot \<Rightarrow> hook \<Rightarrow> mi_schedule \<Rightarrow> int \<times> mi_schedule" where
  "mi_schedule_store_hook sl hk s = (0, s\<lparr>sched_slots := (sched_slots s)(sl := hk)\<rparr>)"

definition register_sched_load_update_hook :: "hook \<Rightarrow> mi_schedule \<Rightarrow> int \<times> mi_schedule" where
  "register_sched_load_update_hook hk s = mi_schedule_store_hook Sched_load_update_hook hk s"

definition unregister_sched_load_update_hook :: "mi_schedule \<Rightarrow> int \<times> mi_schedule" where
  "unregister_sched_load_update_hook s = mi_schedule_store_hook Sched_load_update_hook None s"

definition register_mi_update_global_period_f :: "hook \<Rightarrow> mi_schedule \<Rightarrow> int \<times> mi_schedule" where
  "register_mi_update_global_period_f hk s = mi_schedule_store_hook Mi_update_global_period_hook hk s"

definition register_task_group_change_update_f :: "hook \<Rightarrow> mi_schedule \<Rightarrow> int \<times> mi_schedule" where
  "register_task_group_change_update_f hk s =
     mi_schedule_store_hook Task_group_change_update_hook hk s"

definition unregister_mi_update_global_period_f :: "mi_schedule \<Rightarrow> int \<times> mi_schedule" where
  "unregister_mi_update_global_period_f s = mi_schedule_store_hook Mi_update_global_period_hook None s"

definition unregister_task_group_change_update_f :: "mi_schedule \<Rightarrow> int \<times> mi_schedule" where
  "unregister_task_group_change_update_f s =
     mi_schedule_store_hook Task_group_change_update_hook None s"

fun sched_register :: "sched_slot \<Rightarrow> hook \<Rightarrow> mi_schedule \<Rightarrow> int \<times> mi_schedule" where
  "sched_register Sched_load_update_hook = register_sched_load_update_hook"
| "sched_register Task_group_change_update_hook = register_task_group_change_update_f"
| "sched_register Mi_update_global_period_hook = register_mi_update_global_period_f"

fun sched_unregister :: "sched_slot \<Rightarrow> mi_schedule \<Rightarrow> int \<times> mi_schedule" where
  "sched_unregister Sched_load_update_hook = unregister_sched_load_update_hook"
| "sched_unregister Task_group_change_update_hook = unregister_task_group_change_update_f"
| "sched_unregister Mi_update_global_period_hook = unregister_mi_update_global_period_f"

definition mi_schedule_init_group :: "int \<Rightarrow> int \<Rightarrow> mi_group_data \<Rightarrow> mi_group_data" where
  "mi_schedule_init_group gid type g =
     g\<lparr>grp_node := [], mi_tasks := [], ls_groups := [], grp_refcount := 1, group_id := gid,
       group_type := type\<rparr>"

definition mi_schedule_init :: "mi_schedule \<Rightarrow> int \<times> mi_schedule" where
  "mi_schedule_init s =
     (0, s\<lparr>system_group := mi_schedule_init_group 0 0 (system_group s),
           back_group := mi_schedule_init_group 1 0 (back_group s),
           kernel_group := mi_schedule_init_group 2 0 (kernel_group s),
           zero_user := (zero_user s)\<lparr>usr_node := [], usr_tasks := [], usr_refcount := 1\<rparr>\<rparr>)"

text \<open>The getters: a group is handed out by reference, every user is the same static object.\<close>

definition get_mi_system_group :: "mi_schedule \<Rightarrow> mi_group_data" where
  "get_mi_system_group s = system_group s"

definition get_mi_back_group :: "mi_schedule \<Rightarrow> mi_group_data" where
  "get_mi_back_group s = back_group s"

definition get_mi_kern_group :: "mi_schedule \<Rightarrow> mi_group_data" where
  "get_mi_kern_group s = kernel_group s"

definition get_mi_user_struct :: "nat \<Rightarrow> mi_schedule \<Rightarrow> mi_user_struct" where
  "get_mi_user_struct uid s = zero_user s"

definition get_active_mi_groups :: "mi_schedule \<Rightarrow> nat list" where
  "get_active_mi_groups s = active_groups s"

section \<open>The registry\<close>

lemma sched_register_eq: "sched_register sl hk s = mi_schedule_store_hook sl hk s"
  by (cases sl) (simp_all add: register_sched_load_update_hook_def
      register_task_group_change_update_f_def register_mi_update_global_period_f_def)

lemma sched_unregister_eq: "sched_unregister sl s = mi_schedule_store_hook sl None s"
  by (cases sl) (simp_all add: unregister_sched_load_update_hook_def
      unregister_task_group_change_update_f_def unregister_mi_update_global_period_f_def)

interpretation sched: hook_registry sched_register "\<lambda>sl. Some (sched_unregister sl)" "\<lambda>_ s. s"
  sched_slots "\<lambda>_. True" "\<lambda>_. True"
  by unfold_locales
    (auto simp: sched_register_eq sched_unregister_eq mi_schedule_store_hook_def)

lemma sched_store_groups:
  "system_group (snd (mi_schedule_store_hook sl hk s)) = system_group s"
  "back_group (snd (mi_schedule_store_hook sl hk s)) = back_group s"
  "kernel_group (snd (mi_schedule_store_hook sl hk s)) = kernel_group s"
  by (simp_all add: mi_schedule_store_hook_def)

lemma sched_ops_groups:
  "system_group (fold (hook_do sched_register (\<lambda>sl. Some (sched_unregister sl)) (\<lambda>_ s. s)) ops s)
     = system_group s \<and>
   back_group (fold (hook_do sched_register (\<lambda>sl. Some (sched_unregister sl)) (\<lambda>_ s. s)) ops s)
     = back_group s \<and>
   kernel_group (fold (hook_do sched_register (\<lambda>sl. Some (sched_unregister sl)) (\<lambda>_ s. s)) ops s)
     = kernel_group s"
proof (induction ops arbitrary: s)
  case (Cons p ops)
  show ?case using Cons
    by (cases p) (simp_all add: sched_register_eq sched_unregister_eq sched_store_groups)
qed simp

text \<open>The scheduler module after its init. The three built-in groups have the ids 0, 1 and
  2 and one reference each, no later sequence of hook operations changes them, and the three
  hooks then behave as a map without any switch.\<close>

theorem mi_schedule_groups_and_hooks:
  fixes s :: mi_schedule
  assumes "\<forall>p \<in> set ops. \<not> is_switch p"
  defines "s1 \<equiv> snd (mi_schedule_init s)"
  defines "s2 \<equiv> fold (hook_do sched_register (\<lambda>sl. Some (sched_unregister sl)) (\<lambda>_ s. s)) ops s1"
  shows "map group_id [get_mi_system_group s2, get_mi_back_group s2, get_mi_kern_group s2] = [0, 1, 2]
    \<and> (\<forall>g \<in> {get_mi_system_group s2, get_mi_back_group s2, get_mi_kern_group s2}.
         grp_refcount g = 1 \<and> mi_tasks g = [])
    \<and> sched_slots s2 = fold (spec_hook (\<lambda>_. True) (\<lambda>_. True)) ops (sched_slots s)"
proof -
  have "removable (\<lambda>sl. Some (sched_unregister sl)) = (\<lambda>_. True)"
    by (simp add: fun_eq_iff removable_def)
  then have "sched_slots s2 = fold (spec_hook (\<lambda>_. True) (\<lambda>_. True)) ops (sched_slots s)"
    using sched.refines_map [OF _ assms(1), of s1]
    by (simp add: s2_def s1_def mi_schedule_init_def)
  then show ?thesis
    using sched_ops_groups [of ops s1]
    by (simp add: s2_def [symmetric] get_mi_system_group_def get_mi_back_group_def
        get_mi_kern_group_def) (simp add: s1_def mi_schedule_init_def mi_schedule_init_group_def)
qed

definition blank_group :: mi_group_data where
  "blank_group = \<lparr>grp_node = [], mi_tasks = [], ls_groups = [], grp_refcount = 0, group_id = 0,
     group_type = 0, grp_fps = 0\<rparr>"

definition mi_schedule_start :: mi_schedule where
  "mi_schedule_start = \<lparr>sched_slots = (\<lambda>_. None), system_group = blank_group,
     back_group = blank_group, kernel_group = blank_group,
     zero_user = \<lparr>usr_node = [], usr_tasks = [], default_group = None, usr_refcount = 0,
       usr_uid = 0\<rparr>, active_groups = []\<rparr>"

theorem mi_schedule_groups_and_hooks_witness:
  "sched_slots (fold (hook_do sched_register (\<lambda>sl. Some (sched_unregister sl)) (\<lambda>_ s. s))
     [Reg Sched_load_update_hook (Some 4)] (snd (mi_schedule_init mi_schedule_start)))
     Sched_load_update_hook = Some 4"
  using mi_schedule_groups_and_hooks [of "[Reg Sched_load_update_hook (Some 4)]" mi_schedule_start]
  by (simp add: is_switch_def)

end
