(* ===== verification/Miloadtrace.thy ===== *)
theory Miloadtrace
  imports Xiaomi_Hooks Metis_Hooks Mi_Schedule Lifecycle Kernel_Lib
begin

text \<open>
  \<open>miloadtrace.c\<close>: the frame rate setting and its interfaces, the frequency records, the
  \<open>migov\<close> governor callbacks, the nine hooks the module installs in other modules with their
  unwind chain, the proc files, and the life of the module. The functions that install hooks are
  those of \<open>xiaomi_hooks.c\<close>, \<open>mi_schedule.c\<close> and \<open>metis.c\<close>; the chain is modelled over any
  nine pairs of functions, as the extern declarations have it, and then composed with these.
\<close>

section \<open>The frame rate\<close>

text \<open>The divisor for a frame rate; \<open>dflt\<close> is \<open>update_frame_fps\<close>.\<close>

definition find_cal_divisor :: "u32 \<Rightarrow> u32 \<Rightarrow> int" where
  "find_cal_divisor dflt fps =
     (let fps = (if fps = 0 then (if dflt \<noteq> 0 then dflt else 60) else fps)
      in if fps \<ge> 120 then 2 else if fps \<ge> 90 then 3 else if fps \<ge> 60 then 4 else 6)"

abbreviation MILOAD_MAX_CLUSTERS :: nat where "MILOAD_MAX_CLUSTERS \<equiv> 4"
abbreviation MILOAD_MAX_CPUS :: nat where "MILOAD_MAX_CPUS \<equiv> 8"

text \<open>An access outside an array is \<open>None\<close>.\<close>

definition at_index :: "'a list \<Rightarrow> nat \<Rightarrow> 'a option" where
  "at_index xs i = (if i < length xs then Some (xs ! i) else None)"

definition get_group_util :: "u32 list \<Rightarrow> int \<Rightarrow> int \<Rightarrow> u32 option" where
  "get_group_util util_boost_percent cid grp_id =
     (if 0 \<le> cid \<and> cid < int MILOAD_MAX_CLUSTERS then at_index util_boost_percent (nat cid) else Some 0)"

definition set_update_fps :: "string \<Rightarrow> u32 \<Rightarrow> int \<times> u32" where
  "set_update_fps val fps =
     (case kstrtouint val of Inl ret \<Rightarrow> (ret, fps) | Inr v \<Rightarrow> (0, of_nat v))"

definition get_update_fps :: "u32 \<Rightarrow> string" where
  "get_update_fps fps = scnprintf 4096 (fmt_u (unat fps) @ [LF])"

record mi_load_data =
  ld_cmd :: u32
  ld_pid :: int
  ld_fps :: u32
  ld_period :: u64
  ld_pred_period :: u64

text \<open>The size of \<open>struct mi_load_data\<close> with the padding before its 64-bit members.\<close>

abbreviation sizeof_mi_load_data :: nat where "sizeof_mi_load_data \<equiv> 32"

text \<open>The user memory is \<open>None\<close> when copying it faults.\<close>

definition mi_frame_ioctl :: "mi_load_data option \<Rightarrow> nat \<Rightarrow> u32 \<Rightarrow> int \<times> u32" where
  "mi_frame_ioctl ubuf sz fps =
     (if sz \<noteq> sizeof_mi_load_data then (- EINVAL, fps)
      else (case ubuf of
              None \<Rightarrow> (- EFAULT, fps)
            | Some d \<Rightarrow> (int sizeof_mi_load_data, if ld_fps d \<noteq> 0 then ld_fps d else fps)))"

definition all_group_show :: "u32 \<Rightarrow> bool \<Rightarrow> string" where
  "all_group_show fps skip_walt =
     ''miloadtrace reconstructed'' @ [LF] @ ''fps='' @ fmt_u (unat fps) @ '' skip_walt='' @
     fmt_u (if skip_walt then 1 else 0) @ [LF]"

text \<open>
  The local buffer of the two write handlers, \<open>char buf[32]\<close>, before \<open>cnt\<close> bytes are copied to it;
  copying more than it holds, or storing outside it, is \<open>None\<close>.
\<close>

definition local_buf :: "nat \<Rightarrow> char list option" where
  "local_buf cnt = (if cnt \<le> 32 then Some (replicate 32 NUL) else None)"

definition put_index :: "'a list \<Rightarrow> nat \<Rightarrow> 'a \<Rightarrow> 'a list option" where
  "put_index xs i x = (if i < length xs then Some (xs[i := x]) else None)"

definition task_grp_id_write :: "string option \<Rightarrow> nat \<Rightarrow> int option" where
  "task_grp_id_write ubuf cnt =
     (if cnt \<ge> 32 then Some (- EINVAL)
      else Option.bind (local_buf cnt)
        (\<lambda>buf. case ubuf of
              None \<Rightarrow> Some (- EFAULT)
            | Some b \<Rightarrow> Option.bind (put_index (take cnt b @ drop (length (take cnt b)) buf) cnt NUL)
                (\<lambda>buf. let pid = simple_strtol (cstr buf) in Some (int cnt))))"

definition user_grp_id_write :: "string option \<Rightarrow> nat \<Rightarrow> int option" where
  "user_grp_id_write ubuf cnt =
     (if cnt \<ge> 32 then Some (- EINVAL)
      else Option.bind (local_buf cnt)
        (\<lambda>buf. case ubuf of
              None \<Rightarrow> Some (- EFAULT)
            | Some b \<Rightarrow> Option.bind (put_index (take cnt b @ drop (length (take cnt b)) buf) cnt NUL)
                (\<lambda>buf. let uid = simple_strtol (cstr buf) in Some (int cnt))))"

section \<open>Frequency records and the governor\<close>

text \<open>\<open>rec_oob\<close> is set when an element outside the table has been accessed.\<close>

record freq_rec =
  mi_maxfreq :: "u32 list"
  mi_minfreq :: "u32 list"
  rec_oob :: bool

definition init_grp_freq_record :: freq_rec where
  "init_grp_freq_record = \<lparr>mi_maxfreq = replicate MILOAD_MAX_CPUS 0, mi_minfreq = replicate MILOAD_MAX_CPUS 0,
     rec_oob = False\<rparr>"

definition update_freq_record :: "nat \<Rightarrow> u32 \<Rightarrow> freq_rec \<Rightarrow> freq_rec" where
  "update_freq_record cpu freq r =
     (if cpu < MILOAD_MAX_CPUS
      then (case Option.bind (at_index (mi_maxfreq r) cpu) (\<lambda>old. put_index (mi_maxfreq r) cpu (max old freq)) of
              None \<Rightarrow> r\<lparr>rec_oob := True\<rparr> | Some fs \<Rightarrow> r\<lparr>mi_maxfreq := fs\<rparr>)
      else r)"

lemmas index_defs = at_index_def put_index_def

text \<open>A policy as the governor sees it: its CPU, its current frequency, its CPUs.\<close>

record gov_policy =
  gp_cpu :: nat
  gp_cur :: u32
  gp_cpus :: "nat list"
  governor_data :: "nat option"

definition cpu_gov_limits :: "gov_policy option \<Rightarrow> freq_rec \<Rightarrow> freq_rec" where
  "cpu_gov_limits pol r =
     (case pol of
        None \<Rightarrow> r
      | Some p \<Rightarrow> if gp_cur p \<noteq> 0 then update_freq_record (gp_cpu p) (gp_cur p) r else r)"

datatype gov_res = Mg_policy nat | Tunables nat

record migov_tunables =
  hispeed_load :: u32
  up_rate_limit_us :: u32
  down_rate_limit_us :: u32

text \<open>\<open>gov_heap\<close> holds the tunables of each live \<open>migov_policy\<close>; \<open>gov_next\<close> is a fresh address.\<close>

record gov_sys =
  gov_heap :: "nat \<Rightarrow> migov_tunables option"
  gov_next :: nat
  gov_cpu :: "nat \<Rightarrow> nat option"
  gov_log :: "gov_res ev list"

definition cpu_gov_init :: "bool \<times> bool \<Rightarrow> gov_policy \<Rightarrow> gov_sys \<Rightarrow> int \<times> gov_policy \<times> gov_sys" where
  "cpu_gov_init alloc p s =
     (let a = gov_next s; s = s\<lparr>gov_next := Suc a\<rparr>
      in if \<not> fst alloc then (- ENOMEM, p, s)
         else if \<not> snd alloc
         then (- ENOMEM, p, s\<lparr>gov_log := gov_log s @ [Get (Mg_policy a), Put (Mg_policy a)]\<rparr>)
         else (0, p\<lparr>governor_data := Some a\<rparr>,
               s\<lparr>gov_heap := (gov_heap s)(a \<mapsto> \<lparr>hispeed_load = 90, up_rate_limit_us = 0,
                                              down_rate_limit_us = 0\<rparr>),
                 gov_log := gov_log s @ [Get (Mg_policy a), Get (Tunables a)]\<rparr>))"

definition cpu_gov_exit :: "gov_policy \<Rightarrow> gov_sys \<Rightarrow> gov_policy \<times> gov_sys" where
  "cpu_gov_exit p s =
     (case governor_data p of
        None \<Rightarrow> (p, s)
      | Some a \<Rightarrow> (p\<lparr>governor_data := None\<rparr>,
                  s\<lparr>gov_heap := (gov_heap s)(a := None),
                    gov_log := gov_log s @ [Put (Tunables a), Put (Mg_policy a)]\<rparr>))"

definition cpu_gov_start :: "gov_policy \<Rightarrow> gov_sys \<Rightarrow> int \<times> gov_sys" where
  "cpu_gov_start p s =
     (0, s\<lparr>gov_cpu := fold (\<lambda>cpu m. m(cpu := governor_data p)) (gp_cpus p) (gov_cpu s)\<rparr>)"

section \<open>The hooks\<close>

datatype miload_hook =
    Mi_update_fravg | Walt_update | Task_group_change | Mi_migrate | Mi_update_group_nr
  | Mi_migarte_fix_fld | Ui_task_detect | Mi_update_global_period | Mi_run_frequpdate

text \<open>The hooks in the order of their registration, which enumerates the type: statements over
  all hooks and equality of tables of slots are decidable.\<close>

definition hook_order :: "miload_hook list" where
  "hook_order = [Mi_update_fravg, Walt_update, Task_group_change, Mi_migrate, Mi_update_group_nr,
     Mi_migarte_fix_fld, Ui_task_detect, Mi_update_global_period, Mi_run_frequpdate]"

lemma hook_order_all: "set hook_order = UNIV" "distinct hook_order"
proof -
  have "h \<in> set hook_order" for h by (cases h) (simp_all add: hook_order_def)
  then show "set hook_order = UNIV" by blast
qed (simp add: hook_order_def)

instantiation miload_hook :: enum
begin

definition enum_miload_hook :: "miload_hook list" where
  "enum_miload_hook = hook_order"

definition enum_all_miload_hook :: "(miload_hook \<Rightarrow> bool) \<Rightarrow> bool" where
  "enum_all_miload_hook P \<longleftrightarrow> list_all P hook_order"

definition enum_ex_miload_hook :: "(miload_hook \<Rightarrow> bool) \<Rightarrow> bool" where
  "enum_ex_miload_hook P \<longleftrightarrow> list_ex P hook_order"

instance
  by standard (simp_all add: enum_miload_hook_def enum_all_miload_hook_def
      enum_ex_miload_hook_def hook_order_all list_all_iff list_ex_iff)

end

text \<open>The addresses of the module's own callbacks.\<close>

primrec callback :: "miload_hook \<Rightarrow> nat" where
  "callback Mi_update_fravg = 1"
| "callback Walt_update = 2"
| "callback Task_group_change = 3"
| "callback Mi_migrate = 4"
| "callback Mi_update_group_nr = 5"
| "callback Mi_migarte_fix_fld = 6"
| "callback Ui_task_detect = 7"
| "callback Mi_update_global_period = 8"
| "callback Mi_run_frequpdate = 9"

text \<open>The extern register and unregister functions, on whatever state \<open>'w\<close> they keep.\<close>

record 'w externs =
  ext_register :: "miload_hook \<Rightarrow> hook \<Rightarrow> 'w \<Rightarrow> int \<times> 'w"
  ext_unregister :: "miload_hook \<Rightarrow> 'w \<Rightarrow> int \<times> 'w"

abbreviation xunreg :: "'w externs \<Rightarrow> miload_hook \<Rightarrow> 'w \<Rightarrow> 'w" where
  "xunreg x h w \<equiv> snd (ext_unregister x h w)"

abbreviation xreg :: "'w externs \<Rightarrow> miload_hook \<Rightarrow> 'w \<Rightarrow> int \<times> 'w" where
  "xreg x h w \<equiv> ext_register x h (Some (callback h)) w"

text \<open>The labels of the unwind chain; each falls through to the next.\<close>

definition err_walt :: "'w externs \<Rightarrow> int \<Rightarrow> 'w \<Rightarrow> int \<times> 'w" where
  "err_walt x ret w = (ret, xunreg x Mi_update_fravg w)"

definition err_group_change :: "'w externs \<Rightarrow> int \<Rightarrow> 'w \<Rightarrow> int \<times> 'w" where
  "err_group_change x ret w = err_walt x ret (xunreg x Walt_update w)"

definition err_migrate :: "'w externs \<Rightarrow> int \<Rightarrow> 'w \<Rightarrow> int \<times> 'w" where
  "err_migrate x ret w = err_group_change x ret (xunreg x Task_group_change w)"

definition err_group_nr :: "'w externs \<Rightarrow> int \<Rightarrow> 'w \<Rightarrow> int \<times> 'w" where
  "err_group_nr x ret w = err_migrate x ret (xunreg x Mi_migrate w)"

definition err_fix :: "'w externs \<Rightarrow> int \<Rightarrow> 'w \<Rightarrow> int \<times> 'w" where
  "err_fix x ret w = err_group_nr x ret (xunreg x Mi_update_group_nr w)"

definition err_ui :: "'w externs \<Rightarrow> int \<Rightarrow> 'w \<Rightarrow> int \<times> 'w" where
  "err_ui x ret w = err_fix x ret (xunreg x Mi_migarte_fix_fld w)"

definition err_global :: "'w externs \<Rightarrow> int \<Rightarrow> 'w \<Rightarrow> int \<times> 'w" where
  "err_global x ret w = err_ui x ret (xunreg x Ui_task_detect w)"

definition err_freq :: "'w externs \<Rightarrow> int \<Rightarrow> 'w \<Rightarrow> int \<times> 'w" where
  "err_freq x ret w = err_global x ret (xunreg x Mi_update_global_period w)"

text \<open>One statement pair of the chain: call, and jump to the label when the result is not 0.\<close>

definition try_hook ::
  "'w externs \<Rightarrow> miload_hook \<Rightarrow> (int \<Rightarrow> 'w \<Rightarrow> int \<times> 'w) \<Rightarrow> ('w \<Rightarrow> int \<times> 'w) \<Rightarrow> 'w \<Rightarrow> int \<times> 'w" where
  "try_hook x h err rest w = (case xreg x h w of (ret, w') \<Rightarrow> if ret \<noteq> 0 then err ret w' else rest w')"

definition miload_register_hooks :: "'w externs \<Rightarrow> 'w \<Rightarrow> int \<times> 'w" where
  "miload_register_hooks x =
     try_hook x Mi_update_fravg Pair
    (try_hook x Walt_update (err_walt x)
    (try_hook x Task_group_change (err_group_change x)
    (try_hook x Mi_migrate (err_migrate x)
    (try_hook x Mi_update_group_nr (err_group_nr x)
    (try_hook x Mi_migarte_fix_fld (err_fix x)
    (try_hook x Ui_task_detect (err_ui x)
    (try_hook x Mi_update_global_period (err_global x)
    (try_hook x Mi_run_frequpdate (err_freq x) (Pair 0)))))))))"

definition miload_unregister_hooks :: "'w externs \<Rightarrow> 'w \<Rightarrow> 'w" where
  "miload_unregister_hooks x w =
     xunreg x Mi_update_fravg (xunreg x Walt_update (xunreg x Task_group_change (xunreg x Mi_migrate
       (xunreg x Mi_update_group_nr (xunreg x Mi_migarte_fix_fld (xunreg x Ui_task_detect
         (xunreg x Mi_update_global_period (xunreg x Mi_run_frequpdate w))))))))"

section \<open>The module\<close>

datatype miload_res = Misc | Proc_miload | Proc_frame_load | Proc_group | Proc_all_group
  | Proc_task_grp | Proc_user_grp | Governor

text \<open>What procfs, the misc framework and cpufreq answer; a NULL entry is \<open>False\<close>.\<close>

record miload_env =
  misc_ret :: int
  miload_dir_ok :: bool
  frame_load_ok :: bool
  group_dir_ok :: bool
  all_group_ok :: bool
  task_grp_ok :: bool
  user_grp_ok :: bool
  governor_ret :: int

text \<open>The proc entries are pointers that may be NULL; \<open>group_parent\<close> records the parent used.\<close>

record 'w miload_sys =
  recs :: freq_rec
  p_miload :: bool
  p_frame_load :: bool
  p_group :: bool
  p_all_group :: bool
  p_task_grp :: bool
  p_user_grp :: bool
  group_parent :: miload_res
  world :: 'w
  miload_log :: "miload_res ev list"

definition miload_proc_init :: "miload_env \<Rightarrow> 'w miload_sys \<Rightarrow> int \<times> 'w miload_sys" where
  "miload_proc_init env s =
     (if \<not> miload_dir_ok env then (- ENOMEM, s\<lparr>p_miload := False\<rparr>)
      else
        (let made = (\<lambda>r ok. if ok then [Get r] else [])
         in (0, s\<lparr>p_miload := True, p_frame_load := frame_load_ok env, p_group := group_dir_ok env,
                  p_all_group := all_group_ok env, p_task_grp := task_grp_ok env,
                  p_user_grp := user_grp_ok env,
                  group_parent := (if group_dir_ok env then Proc_group else Proc_miload),
                  miload_log := miload_log s @ [Get Proc_miload]
                    @ made Proc_frame_load (frame_load_ok env) @ made Proc_group (group_dir_ok env)
                    @ made Proc_all_group (all_group_ok env) @ made Proc_task_grp (task_grp_ok env)
                    @ made Proc_user_grp (user_grp_ok env)\<rparr>)))"

text \<open>\<open>proc_remove\<close> of NULL does nothing.\<close>

definition miload_proc_exit :: "'w miload_sys \<Rightarrow> 'w miload_sys" where
  "miload_proc_exit s =
     (let del = (\<lambda>r ok. if ok then [Put r] else [])
      in s\<lparr>miload_log := miload_log s @ del Proc_user_grp (p_user_grp s)
             @ del Proc_task_grp (p_task_grp s) @ del Proc_all_group (p_all_group s)
             @ del Proc_group (p_group s) @ del Proc_frame_load (p_frame_load s)
             @ del Proc_miload (p_miload s)\<rparr>)"

definition miload_misc_deregister :: "'w miload_sys \<Rightarrow> 'w miload_sys" where
  "miload_misc_deregister s = s\<lparr>miload_log := miload_log s @ [Put Misc]\<rparr>"

definition miloadtrace_init :: "'w externs \<Rightarrow> miload_env \<Rightarrow> 'w miload_sys \<Rightarrow> int \<times> 'w miload_sys" where
  "miloadtrace_init x env s =
     (let s = s\<lparr>recs := init_grp_freq_record\<rparr>
      in if misc_ret env \<noteq> 0 then (misc_ret env, s)
         else
           (case miload_proc_init env (s\<lparr>miload_log := miload_log s @ [Get Misc]\<rparr>) of (ret, s) \<Rightarrow>
              if ret \<noteq> 0 then (ret, miload_misc_deregister s)
              else
                (case miload_register_hooks x (world s) of (ret, w) \<Rightarrow>
                   let s = s\<lparr>world := w\<rparr>
                   in if ret \<noteq> 0 then (ret, miload_misc_deregister (miload_proc_exit s))
                      else if governor_ret env \<noteq> 0
                      then (governor_ret env, miload_misc_deregister (miload_proc_exit
                              (s\<lparr>world := miload_unregister_hooks x (world s)\<rparr>)))
                      else (0, s\<lparr>miload_log := miload_log s @ [Get Governor]\<rparr>))))"

definition miloadtrace_exit :: "'w externs \<Rightarrow> 'w miload_sys \<Rightarrow> 'w miload_sys" where
  "miloadtrace_exit x s =
     (let s = s\<lparr>miload_log := miload_log s @ [Put Governor]\<rparr>;
          s = s\<lparr>world := miload_unregister_hooks x (world s)\<rparr>
      in miload_misc_deregister (miload_proc_exit s))"

section \<open>Frame rate and records\<close>

text \<open>The divisor falls with the frame rate. It is one of 2, 3, 4 and 6, a higher rate never
  has a larger divisor, and a rate of 0 stands for the stored rate, or 60 when that is 0 too.\<close>

theorem find_cal_divisor_antimono:
  "find_cal_divisor d f \<in> {2, 3, 4, 6} \<and>
   (f \<noteq> 0 \<and> f \<le> g \<longrightarrow> find_cal_divisor d g \<le> find_cal_divisor d f) \<and>
   find_cal_divisor d 0 = find_cal_divisor d (if d = 0 then 60 else d)"
proof (intro conjI impI)
  show "find_cal_divisor d f \<in> {2, 3, 4, 6}" by (simp add: find_cal_divisor_def Let_def)
  show "find_cal_divisor d 0 = find_cal_divisor d (if d = 0 then 60 else d)"
    by (simp add: find_cal_divisor_def Let_def)
  assume fg: "f \<noteq> 0 \<and> f \<le> g"
  then have "g \<noteq> 0" by auto
  then show "find_cal_divisor d g \<le> find_cal_divisor d f"
    using fg by (auto simp: find_cal_divisor_def Let_def)
qed

theorem find_cal_divisor_antimono_witness: "find_cal_divisor 60 144 \<le> find_cal_divisor 60 90"
  using find_cal_divisor_antimono [of 60 90 144] by simp

text \<open>The frame rate parameter reads back what it shows, for every value.\<close>

lemma fps_roundtrip: "set_update_fps (get_update_fps fps) old = (0, fps)"
proof -
  have u: "unat fps < 2 ^ 32" using unsigned_less [of fps] by simp
  then have "unat fps < 10 ^ 10" by simp
  then have "length (num_str 10 (unat fps)) \<le> 10"
    using length_num_str [of 10 "unat fps" 10] by simp
  then show ?thesis
    using u kstrtouint_num_str [of "unat fps" "[LF]"]
    by (simp add: set_update_fps_def get_update_fps_def fmt_u_def scnprintf_def)
qed

definition rec_wf :: "freq_rec \<Rightarrow> bool" where
  "rec_wf r \<longleftrightarrow> length (mi_maxfreq r) = MILOAD_MAX_CPUS"

lemma update_freq_record_at:
  assumes "rec_wf r" and "c < MILOAD_MAX_CPUS"
  shows "mi_maxfreq (update_freq_record cpu f r) ! c =
      (if c = cpu then max (mi_maxfreq r ! c) f else mi_maxfreq r ! c)"
    and "rec_wf (update_freq_record cpu f r)"
  using assms by (simp_all add: update_freq_record_def rec_wf_def index_defs nth_list_update)

lemma limits_at:
  assumes "rec_wf r" and "c < MILOAD_MAX_CPUS"
  shows "mi_maxfreq (cpu_gov_limits pol r) ! c =
      fold max (case pol of None \<Rightarrow> [] | Some p \<Rightarrow> if gp_cpu p = c then [gp_cur p] else [])
        (mi_maxfreq r ! c)"
    and "rec_wf (cpu_gov_limits pol r)"
proof -
  have "max (gp_cur p) (mi_maxfreq r ! c) = mi_maxfreq r ! c" if "gp_cur p = 0" for p
    using that by (simp add: max_def)
  then show "mi_maxfreq (cpu_gov_limits pol r) ! c =
      fold max (case pol of None \<Rightarrow> [] | Some p \<Rightarrow> if gp_cpu p = c then [gp_cur p] else [])
        (mi_maxfreq r ! c)"
    using update_freq_record_at(1) [OF assms]
    by (simp add: cpu_gov_limits_def max.commute split: option.split)
  show "rec_wf (cpu_gov_limits pol r)"
    using assms update_freq_record_at(2) [OF assms]
    by (simp add: cpu_gov_limits_def split: option.split)
qed

text \<open>The frequency record is the maximum seen. After any sequence of calls of the
  governor's limits callback, with or without a policy and for any CPU numbers, also ones beyond
  the table, the record of each CPU is the largest current frequency reported for it since the
  table was cleared, and 0 when there was none.\<close>

theorem freq_record_is_max:
  assumes "c < MILOAD_MAX_CPUS"
  shows "mi_maxfreq (fold cpu_gov_limits pols init_grp_freq_record) ! c =
    fold max (concat (map (\<lambda>pol. case pol of None \<Rightarrow> []
      | Some p \<Rightarrow> if gp_cpu p = c then [gp_cur p] else []) pols)) 0"
proof -
  have "mi_maxfreq (fold cpu_gov_limits pols r) ! c =
    fold max (concat (map (\<lambda>pol. case pol of None \<Rightarrow> []
      | Some p \<Rightarrow> if gp_cpu p = c then [gp_cur p] else []) pols)) (mi_maxfreq r ! c)"
    if "rec_wf r" for r
    using that
  proof (induction pols arbitrary: r)
    case (Cons pol pols)
    then show ?case using limits_at [OF Cons.prems assms] by simp
  qed simp
  moreover have "rec_wf init_grp_freq_record" "mi_maxfreq init_grp_freq_record ! c = 0"
    using assms by (simp_all add: rec_wf_def init_grp_freq_record_def)
  ultimately show ?thesis by simp
qed

theorem freq_record_is_max_witness:
  "mi_maxfreq (fold cpu_gov_limits
     [Some \<lparr>gp_cpu = 3, gp_cur = 5, gp_cpus = [3], governor_data = None\<rparr>,
      Some \<lparr>gp_cpu = 9, gp_cur = 7, gp_cpus = [9], governor_data = None\<rparr>] init_grp_freq_record) ! 3
   = 5"
  using freq_record_is_max [of 3 "[Some \<lparr>gp_cpu = 3, gp_cur = 5, gp_cpus = [3], governor_data = None\<rparr>,
      Some \<lparr>gp_cpu = 9, gp_cur = 7, gp_cpus = [9], governor_data = None\<rparr>]"] by simp

section \<open>The unwind chain\<close>

fun reg_chain :: "'w externs \<Rightarrow> miload_hook list \<Rightarrow> miload_hook list \<Rightarrow> 'w \<Rightarrow> int \<times> 'w" where
  "reg_chain x done [] w = (0, w)"
| "reg_chain x done (h # hs) w =
     (case xreg x h w of (ret, w') \<Rightarrow>
        if ret \<noteq> 0 then (ret, fold (xunreg x) done w') else reg_chain x (h # done) hs w')"

lemmas err_labels = err_walt_def err_group_change_def err_migrate_def err_group_nr_def err_fix_def
  err_ui_def err_global_def err_freq_def

lemma register_is_chain: "miload_register_hooks x w = reg_chain x [] hook_order w"
  by (simp add: miload_register_hooks_def hook_order_def try_hook_def err_labels case_prod_beta)

lemma unregister_is_fold: "miload_unregister_hooks x w = fold (xunreg x) (rev hook_order) w"
  by (simp add: miload_unregister_hooks_def hook_order_def)

text \<open>Register functions with arbitrary results that only keep a ledger.\<close>

definition logged :: "(miload_hook \<Rightarrow> int) \<Rightarrow> (miload_hook ev list) externs" where
  "logged res = \<lparr>ext_register = (\<lambda>h cb l. (res h, if res h = 0 then l @ [Get h] else l)),
     ext_unregister = (\<lambda>h l. (0, l @ [Put h]))\<rparr>"

lemma logged_unwind: "fold (xunreg (logged res)) hs l = l @ map Put hs"
  by (induction hs arbitrary: l) (simp_all add: logged_def)

lemma logged_chain:
  "reg_chain (logged res) done hs l =
     (let (ret, es) = staged_init done (map (\<lambda>h. (h, res h)) hs) in (ret, l @ es))"
proof (induction hs arbitrary: "done" l)
  case (Cons h hs)
  show ?case
  proof (cases "res h = 0")
    case True
    then have "xreg (logged res) h l = (0, l @ [Get h])" by (simp add: logged_def)
    then show ?thesis using Cons [of "h # done" "l @ [Get h]"] True
      by (simp add: case_prod_beta Let_def)
  next
    case False
    then have "xreg (logged res) h l = (res h, l)" by (simp add: logged_def)
    then show ?thesis using False by (simp add: logged_unwind)
  qed
qed simp

text \<open>C10: the nine-step registration unwinds exactly. Whatever results the nine register
  functions return, the chain of gotos acts as the specification of a staged init: it stops at
  the first failure, returns its code, and unregisters the hooks registered before it, those
  only and in reverse order. A failed registration therefore leaves nothing installed, and the
  matching unregister routine releases exactly what a successful one installed.\<close>

theorem miload_register_unwinds:
  "miload_register_hooks (logged res) [] = staged_init [] (map (\<lambda>h. (h, res h)) hook_order) \<and>
   (case miload_register_hooks (logged res) [] of (ret, l) \<Rightarrow>
      balanced (if ret = 0 then miload_unregister_hooks (logged res) l else l))"
proof -
  obtain ret l where c: "staged_init [] (map (\<lambda>h. (h, res h)) hook_order) = (ret, l)" by fastforce
  then have m: "miload_register_hooks (logged res) [] = (ret, l)"
    using logged_chain [of res "[]" hook_order "[]"] by (simp add: register_is_chain)
  have "balanced (l @ map Put (rev hook_order))" if "ret = 0"
  proof -
    have "run_ledger {#} l = Some (mset hook_order)"
      using staged_init_ok [of _ l] c that by (fastforce simp: holds_exactly_def comp_def)
    moreover have "run_ledger (mset hook_order) (map Put (rev hook_order)) = Some {#}"
      using run_ledger_puts [of "rev hook_order" "{#}"] by simp
    ultimately show ?thesis by (simp add: balanced_def run_ledger_append)
  qed
  moreover have "balanced l" if "ret \<noteq> 0" using staged_init_fail_balanced [OF c that] .
  ultimately show ?thesis
    using c m by (simp add: unregister_is_fold logged_unwind)
qed

section \<open>What the module needs of the hook providers\<close>

locale hook_provider =
  fixes x :: "'w externs"
    and slot :: "'w \<Rightarrow> miload_hook \<Rightarrow> hook"
    and live :: "'w \<Rightarrow> miload_hook \<Rightarrow> bool"
  assumes reg_fails: "ext_register x h (Some f) w = (ret, w') \<Longrightarrow> ret \<noteq> 0 \<Longrightarrow> slot w' = slot w"
    and reg_works: "ext_register x h (Some f) w = (0, w') \<Longrightarrow> slot w h = None \<Longrightarrow>
          slot w' = (slot w)(h := if live w h then Some f else None)"
    and reg_live: "live (snd (ext_register x h (Some f) w)) = live w"
    and unreg_clears: "live w h \<or> slot w h = None \<Longrightarrow>
          slot (snd (ext_unregister x h w)) = (slot w)(h := None)"
    and unreg_live: "live (snd (ext_unregister x h w)) = live w"
begin

text \<open>The slots after the hooks in \<open>hs\<close> have been installed.\<close>

lemma unreg_fold:
  "\<forall>h. \<not> live w h \<longrightarrow> slot w h = None \<Longrightarrow>
     slot (fold (xunreg x) hs w) = (\<lambda>h. if h \<in> set hs then None else slot w h)"
proof (induction hs arbitrary: w)
  case (Cons h hs)
  have "live w h \<or> slot w h = None" using spec [OF Cons.prems, of h] by (cases "live w h") simp_all
  then have u: "slot (xunreg x h w) = (slot w)(h := None)" by (rule unreg_clears)
  have "\<not> live (xunreg x h w) k \<longrightarrow> slot (xunreg x h w) k = None" for k
    unfolding u unreg_live using Cons.prems by (cases "k = h") simp_all
  then have "slot (fold (xunreg x) hs (xunreg x h w)) =
      (\<lambda>k. if k \<in> set hs then None else slot (xunreg x h w) k)"
    by (intro Cons.IH allI)
  then have "slot (fold (xunreg x) (h # hs) w) =
      (\<lambda>k. if k \<in> set hs then None else ((slot w)(h := None)) k)"
    by (simp only: u fold_simps)
  also have "\<dots> = (\<lambda>k. if k \<in> set (h # hs) then None else slot w k)" by (rule ext) simp
  finally show ?case .
qed simp

lemma chain_slots:
  assumes "slot w = (\<lambda>h. if h \<in> set done \<and> live w h then Some (callback h) else None)"
    and "distinct (done @ hs)" and "reg_chain x done hs w = (ret, w')"
  shows "slot w' = (\<lambda>h. if ret = 0 \<and> h \<in> set (done @ hs) \<and> live w h
      then Some (callback h) else None) \<and> (ret = 0 \<longrightarrow> live w' = live w)"
  using assms
proof (induction hs arbitrary: "done" w)
  case (Cons h hs)
  obtain r v where r: "xreg x h w = (r, v)" by fastforce
  have lv: "live v = live w" using reg_live [of h "callback h" w] r by simp
  show ?case
  proof (cases "r = 0")
    case True
    have "slot w h = None" using Cons.prems by simp
    then have "slot v = (slot w)(h := if live w h then Some (callback h) else None)"
      using reg_works r True by simp
    then have "slot v = (\<lambda>k. if k \<in> set (h # done) \<and> live v k then Some (callback k) else None)"
      using Cons.prems(1) lv by (auto simp: fun_eq_iff)
    from Cons.IH [OF this] Cons.prems(2,3) r True lv show ?thesis by auto
  next
    case False
    then have "slot v = slot w" using reg_fails r by simp
    moreover from this have "slot (fold (xunreg x) done v) =
        (\<lambda>k. if k \<in> set done then None else slot v k)"
      using Cons.prems(1) lv by (intro unreg_fold) simp
    ultimately show ?thesis using Cons.prems(1,3) r False by auto
  qed
qed simp

lemma load_hooks:
  assumes "slot w = (\<lambda>_. None)" and "miload_register_hooks x w = (ret, w')"
  shows "slot w' = (\<lambda>h. if ret = 0 \<and> live w h then Some (callback h) else None)"
    and "ret = 0 \<Longrightarrow> live w' = live w"
  using chain_slots [of w "[]" hook_order ret w'] assms hook_order_all
  by (auto simp: register_is_chain)

lemma unload_hooks:
  assumes "slot w = (\<lambda>h. if live w h then Some (callback h) else None)"
  shows "slot (miload_unregister_hooks x w) = (\<lambda>_. None)"
  using unreg_fold [of w "rev hook_order"] assms hook_order_all
  by (simp add: unregister_is_fold)

end

section \<open>The module with the modules it hooks into\<close>

text \<open>The state of the three modules that own the nine slots.\<close>

record sched_world =
  w_xiaomi :: xiaomi_hooks
  w_sched :: mi_schedule
  w_metis :: metis_state

definition on_xiaomi :: "(xiaomi_hooks \<Rightarrow> int \<times> xiaomi_hooks) \<Rightarrow> sched_world \<Rightarrow> int \<times> sched_world" where
  "on_xiaomi f w = (case f (w_xiaomi w) of (r, s) \<Rightarrow> (r, w\<lparr>w_xiaomi := s\<rparr>))"

definition on_sched :: "(mi_schedule \<Rightarrow> int \<times> mi_schedule) \<Rightarrow> sched_world \<Rightarrow> int \<times> sched_world" where
  "on_sched f w = (case f (w_sched w) of (r, s) \<Rightarrow> (r, w\<lparr>w_sched := s\<rparr>))"

definition on_metis :: "(metis_state \<Rightarrow> int \<times> metis_state) \<Rightarrow> sched_world \<Rightarrow> int \<times> sched_world" where
  "on_metis f w = (case f (w_metis w) of (r, s) \<Rightarrow> (r, w\<lparr>w_metis := s\<rparr>))"

text \<open>The functions the extern declarations of \<open>miloadtrace.c\<close> are linked to.\<close>

fun linked_register :: "miload_hook \<Rightarrow> hook \<Rightarrow> sched_world \<Rightarrow> int \<times> sched_world" where
  "linked_register Mi_update_fravg cb = on_xiaomi (register_mi_update_fravg cb)"
| "linked_register Walt_update cb = on_xiaomi (register_walt_update_hooks cb)"
| "linked_register Task_group_change cb = on_sched (register_task_group_change_update_f cb)"
| "linked_register Mi_migrate cb = on_xiaomi (register_mi_migrate_hook cb)"
| "linked_register Mi_update_group_nr cb = on_xiaomi (register_mi_update_group_nr cb)"
| "linked_register Mi_migarte_fix_fld cb = on_xiaomi (register_mi_migarte_fix_fld_hooks cb)"
| "linked_register Ui_task_detect cb = on_metis (register_ui_task_detect cb)"
| "linked_register Mi_update_global_period cb = on_sched (register_mi_update_global_period_f cb)"
| "linked_register Mi_run_frequpdate cb = on_xiaomi (register_mi_run_frequpdate_hooks cb)"

fun linked_unregister :: "miload_hook \<Rightarrow> sched_world \<Rightarrow> int \<times> sched_world" where
  "linked_unregister Mi_update_fravg = on_xiaomi unregister_mi_update_fravg"
| "linked_unregister Walt_update = on_xiaomi unregister_walt_update_hooks"
| "linked_unregister Task_group_change = on_sched unregister_task_group_change_update_f"
| "linked_unregister Mi_migrate = on_xiaomi unregister_mi_migrate_hook"
| "linked_unregister Mi_update_group_nr = on_xiaomi unregister_mi_update_group_nr"
| "linked_unregister Mi_migarte_fix_fld = on_xiaomi unregister_mi_migarte_fix_fld_hooks"
| "linked_unregister Ui_task_detect = on_metis unregister_ui_task_detect"
| "linked_unregister Mi_update_global_period = on_sched unregister_mi_update_global_period_f"
| "linked_unregister Mi_run_frequpdate = on_xiaomi unregister_mi_run_frequpdate_hooks"

definition linked :: "sched_world externs" where
  "linked = \<lparr>ext_register = linked_register, ext_unregister = linked_unregister\<rparr>"

fun linked_slot :: "sched_world \<Rightarrow> miload_hook \<Rightarrow> hook" where
  "linked_slot w Mi_update_fravg = xiaomi_slots (w_xiaomi w) Mi_update_fravg_f"
| "linked_slot w Walt_update = xiaomi_slots (w_xiaomi w) Walt_window_update_hooks"
| "linked_slot w Task_group_change = sched_slots (w_sched w) Task_group_change_update_hook"
| "linked_slot w Mi_migrate = xiaomi_slots (w_xiaomi w) Mi_migrate_fload_hooks"
| "linked_slot w Mi_update_group_nr = xiaomi_slots (w_xiaomi w) Xiaomi_Hooks.Mi_update_group_nr"
| "linked_slot w Mi_migarte_fix_fld = xiaomi_slots (w_xiaomi w) Mi_migarte_fix_fld_hooks"
| "linked_slot w Ui_task_detect = metis_slots (w_metis w) Ui_task_detect_ptr"
| "linked_slot w Mi_update_global_period = sched_slots (w_sched w) Mi_update_global_period_hook"
| "linked_slot w Mi_run_frequpdate = xiaomi_slots (w_xiaomi w) Mi_run_frequpdate_hooks"

text \<open>Whether the module that owns the slot stores hooks.\<close>

fun linked_live :: "sched_world \<Rightarrow> miload_hook \<Rightarrow> bool" where
  "linked_live w Task_group_change = True"
| "linked_live w Mi_update_global_period = True"
| "linked_live w Ui_task_detect = (\<not> metis_safe_boot (w_metis w))"
| "linked_live w h = xiaomi_walt_hooks_enable (w_xiaomi w)"

lemmas linked_defs = on_xiaomi_def on_sched_def on_metis_def xiaomi_fun_defs store_slots store_enable
  register_task_group_change_update_f_def unregister_task_group_change_update_f_def
  register_mi_update_global_period_f_def unregister_mi_update_global_period_f_def
  mi_schedule_store_hook_def register_ui_task_detect_def unregister_ui_task_detect_def
  metis_store_hook_def linked_def

lemma slot_cases:
  "(\<And>h. linked_slot w h = f h) \<Longrightarrow> linked_slot w = f"
  by (rule ext)

lemma linked_register_ret: "fst (linked_register h (Some f) w) = 0"
  by (cases h) (simp_all add: linked_defs)

lemma linked_register_slot:
  assumes "linked_slot w h = None"
  shows "linked_slot (snd (linked_register h (Some f) w)) k =
    ((linked_slot w)(h := if linked_live w h then Some f else None)) k"
  using assms by (cases h; cases k) (simp_all add: linked_defs)

lemma linked_register_live: "linked_live (snd (linked_register h (Some f) w)) k = linked_live w k"
  by (cases h; cases k) (simp_all add: linked_defs)

lemma linked_unregister_slot:
  assumes "linked_live w h \<or> linked_slot w h = None"
  shows "linked_slot (snd (linked_unregister h w)) k = ((linked_slot w)(h := None)) k"
  using assms by (cases h; cases k) (simp_all add: linked_defs)

lemma linked_unregister_live: "linked_live (snd (linked_unregister h w)) k = linked_live w k"
  by (cases h; cases k) (simp_all add: linked_defs)

interpretation linked: hook_provider linked linked_slot linked_live
proof
  fix h :: miload_hook and f :: nat and w w' :: sched_world and ret :: int
  show "linked_slot w' = linked_slot w" if "ext_register linked h (Some f) w = (ret, w')" "ret \<noteq> 0"
    using linked_register_ret [of h f w] that by (simp add: linked_def)
  show "linked_slot w' = (linked_slot w)(h := if linked_live w h then Some f else None)"
    if "ext_register linked h (Some f) w = (0, w')" "linked_slot w h = None"
    using linked_register_slot [OF that(2), of f] that(1) by (intro ext) (simp add: linked_def)
  show "linked_live (snd (ext_register linked h (Some f) w)) = linked_live w"
    using linked_register_live [of h f w] by (intro ext) (simp add: linked_def)
  show "linked_slot (xunreg linked h w) = (linked_slot w)(h := None)"
    if "linked_live w h \<or> linked_slot w h = None"
    using linked_unregister_slot [OF that] by (intro ext) (simp add: linked_def)
  show "linked_live (xunreg linked h w) = linked_live w"
    using linked_unregister_live [of h w] by (intro ext) (simp add: linked_def)
qed

lemma chain_ret_0:
  "(\<And>h w. fst (xreg x h w) = 0) \<Longrightarrow> fst (reg_chain x done hs w) = 0"
  by (induction hs arbitrary: "done" w) (simp_all add: case_prod_beta)

lemma linked_register_0: "fst (miload_register_hooks linked w) = 0"
  unfolding register_is_chain by (rule chain_ret_0) (simp add: linked_def linked_register_ret)

text \<open>C35: loading the module installs its hooks where the other modules let it. With the modules
  of this repository the registration never fails: starting from empty slots, each of the nine
  hooks ends up in its slot when the owning module stores hooks and leaves it empty otherwise,
  and unregistering empties all nine again as long as the owners' switches stay as they were.\<close>

theorem miload_hooks_installed:
  assumes "linked_slot w = (\<lambda>_. None)"
  shows "\<exists>w'. miload_register_hooks linked w = (0, w') \<and>
    linked_slot w' = (\<lambda>h. if linked_live w h then Some (callback h) else None) \<and>
    linked_slot (miload_unregister_hooks linked w') = (\<lambda>_. None)"
proof -
  obtain w' where w': "miload_register_hooks linked w = (0, w')"
    using linked_register_0 [of w] by (metis prod.collapse)
  then show ?thesis
    using linked.load_hooks [OF assms w'] linked.unload_hooks [of w'] by simp
qed

definition world_start :: sched_world where
  "world_start = \<lparr>w_xiaomi = xiaomi_hooks_init, w_sched = mi_schedule_start, w_metis = metis_start\<rparr>"

lemma world_start_empty: "linked_slot world_start = (\<lambda>_. None)"
proof
  show "linked_slot world_start h = None" for h
    by (cases h) (simp_all add: world_start_def xiaomi_hooks_init_def mi_schedule_start_def metis_start_def)
qed

theorem miload_hooks_installed_witness:
  "\<exists>w'. miload_register_hooks linked world_start = (0, w') \<and>
     linked_slot w' Task_group_change = Some 3 \<and> linked_slot w' Mi_migrate = None"
proof -
  obtain w' where w': "miload_register_hooks linked world_start = (0, w')"
    "linked_slot w' = (\<lambda>h. if linked_live world_start h then Some (callback h) else None)"
    using miload_hooks_installed [OF world_start_empty] by blast
  moreover have "linked_live world_start Task_group_change" "\<not> linked_live world_start Mi_migrate"
    by (simp_all add: world_start_def xiaomi_hooks_init_def)
  ultimately show ?thesis by (simp del: linked_slot.simps linked_live.simps)
qed

section \<open>Loading and unloading the module\<close>

definition miload_idle :: "sched_world miload_sys \<Rightarrow> bool" where
  "miload_idle s \<longleftrightarrow> linked_slot (world s) = (\<lambda>_. None)"

definition proc_owned :: "'w miload_sys \<Rightarrow> miload_res list" where
  "proc_owned s = (if p_miload s then [Proc_miload] else [])
     @ (if p_frame_load s then [Proc_frame_load] else []) @ (if p_group s then [Proc_group] else [])
     @ (if p_all_group s then [Proc_all_group] else []) @ (if p_task_grp s then [Proc_task_grp] else [])
     @ (if p_user_grp s then [Proc_user_grp] else [])"

lemma proc_init_log:
  "miload_proc_init env s = (ret, s') \<Longrightarrow> world s' = world s \<and>
     (if ret = 0 then miload_log s' = miload_log s @ map Get (proc_owned s')
      else miload_log s' = miload_log s)"
  by (cases "miload_dir_ok env")
    (auto simp: miload_proc_init_def proc_owned_def Let_def if_distrib [where f = "map Get"])

lemma proc_exit_log:
  "miload_log (miload_proc_exit s) = miload_log s @ map Put (rev (proc_owned s))"
  "world (miload_proc_exit s) = world s"
  by (simp_all add: miload_proc_exit_def proc_owned_def Let_def)

lemma proc_owned_frame [simp]:
  "proc_owned (s\<lparr>world := w\<rparr>) = proc_owned s" "proc_owned (s\<lparr>miload_log := l\<rparr>) = proc_owned s"
  by (simp_all add: proc_owned_def)

lemma gets_puts_balanced: "balanced (map Get xs @ map Put (rev xs))"
  using run_ledger_gets [of "{#}" xs] run_ledger_puts [of "rev xs" "{#}"]
  by (simp add: balanced_def run_ledger_append)

text \<open>A load attempt with the linked modules, by outcome.\<close>

lemma init_fail:
  assumes "miload_idle s" and "miloadtrace_init linked env s = (ret, s')" and "ret \<noteq> 0"
  shows "miload_idle s' \<and> (\<exists>l. miload_log s' = miload_log s @ l \<and> balanced l)"
proof -
  let ?s0 = "s\<lparr>recs := init_grp_freq_record\<rparr>"
  let ?s1 = "?s0\<lparr>miload_log := miload_log s @ [Get Misc]\<rparr>"
  obtain r s2 where p: "miload_proc_init env ?s1 = (r, s2)" by fastforce
  obtain w' where w: "miload_register_hooks linked (world s2) = (0, w')"
    using linked_register_0 [of "world s2"] by (metis prod.collapse)
  note init = assms(2) [unfolded miloadtrace_init_def Let_def]
  consider (misc) "misc_ret env \<noteq> 0" | (proc) "misc_ret env = 0" "r \<noteq> 0"
    | (gov) "misc_ret env = 0" "r = 0" by blast
  then show ?thesis
  proof cases
    case misc
    then have "s' = ?s0" using init by simp
    then show ?thesis using assms(1) by (auto simp: miload_idle_def)
  next
    case proc
    then have "s' = miload_misc_deregister s2" using init p by simp
    moreover have "balanced [Get Misc, Put Misc]" by (simp add: balanced_def)
    ultimately show ?thesis
      using assms(1) proc_init_log [OF p] proc by (simp add: miload_idle_def miload_misc_deregister_def)
  next
    case gov
    then have s': "s' = miload_misc_deregister (miload_proc_exit
        (s2\<lparr>world := miload_unregister_hooks linked w'\<rparr>))"
      using init p w assms(3) by (simp split: if_splits)
    have "linked_slot (world s2) = (\<lambda>_. None)"
      using assms(1) proc_init_log [OF p] by (simp add: miload_idle_def)
    then have "linked_slot (miload_unregister_hooks linked w') = (\<lambda>_. None)"
      using linked.load_hooks [OF _ w] linked.unload_hooks [of w'] by simp
    moreover have "miload_log s' = miload_log s @ map Get (Misc # proc_owned s2)
        @ map Put (rev (Misc # proc_owned s2))"
      using proc_init_log [OF p] gov
      by (simp add: s' miload_misc_deregister_def proc_exit_log)
    ultimately show ?thesis
      using gets_puts_balanced [of "Misc # proc_owned s2"]
      by (simp add: miload_idle_def s' miload_misc_deregister_def proc_exit_log)
  qed
qed

lemma init_exit:
  assumes "miload_idle s" and "miloadtrace_init linked env s = (0, s')"
  shows "miload_idle (miloadtrace_exit linked s') \<and>
    (\<exists>l. miload_log (miloadtrace_exit linked s') = miload_log s @ l \<and> balanced l)"
proof -
  let ?s1 = "s\<lparr>recs := init_grp_freq_record, miload_log := miload_log s @ [Get Misc]\<rparr>"
  obtain r s2 where p: "miload_proc_init env ?s1 = (r, s2)" by fastforce
  obtain w' where w: "miload_register_hooks linked (world s2) = (0, w')"
    using linked_register_0 [of "world s2"] by (metis prod.collapse)
  have r: "r = 0" and s': "s' = s2\<lparr>world := w', miload_log := miload_log s2 @ [Get Governor]\<rparr>"
    using assms(2) p w by (auto simp: miloadtrace_init_def Let_def split: if_splits)
  have "linked_slot (world s2) = (\<lambda>_. None)"
    using assms(1) proc_init_log [OF p] by (simp add: miload_idle_def)
  then have "linked_slot (miload_unregister_hooks linked w') = (\<lambda>_. None)"
    using linked.load_hooks [OF _ w] linked.unload_hooks [of w'] by simp
  moreover have "miload_log (miloadtrace_exit linked s') = miload_log s
      @ map Get (Misc # proc_owned s2 @ [Governor]) @ map Put (rev (Misc # proc_owned s2 @ [Governor]))"
    using proc_init_log [OF p] r
    by (simp add: s' miloadtrace_exit_def Let_def miload_misc_deregister_def proc_exit_log)
  ultimately show ?thesis
    using gets_puts_balanced [of "Misc # proc_owned s2 @ [Governor]"]
    by (simp add: s' miload_idle_def miloadtrace_exit_def Let_def miload_misc_deregister_def
        proc_exit_log)
qed

interpretation miload: module_lifecycle "miloadtrace_init linked" "miloadtrace_exit linked"
  miload_log miload_idle
  by unfold_locales (use init_fail init_exit in blast)+

text \<open>C11: any history of loading and unloading is clean. Whatever fails in whichever load attempt
  (the misc device, a proc directory or file, the governor), after the last attempt or unload no
  device, proc entry or governor is left registered, nothing was released twice, and none of the
  nine hooks points into the module.\<close>

theorem miload_history_clean:
  fixes envs :: "miload_env list" and s :: "sched_world miload_sys"
  assumes "miload_idle s" and "balanced (miload_log s)"
  defines "t \<equiv> fold (module_cycle (miloadtrace_init linked) (miloadtrace_exit linked)) envs s"
  shows "linked_slot (world t) = (\<lambda>_. None) \<and> balanced (miload_log t)"
  using miload.history_clean [OF assms(1,2), of envs] by (simp add: t_def miload_idle_def)

definition miload_start :: "sched_world miload_sys" where
  "miload_start = \<lparr>recs = init_grp_freq_record, p_miload = False, p_frame_load = False,
     p_group = False, p_all_group = False, p_task_grp = False, p_user_grp = False,
     group_parent = Proc_miload, world = world_start, miload_log = []\<rparr>"

definition miload_env_ok :: miload_env where
  "miload_env_ok = \<lparr>misc_ret = 0, miload_dir_ok = True, frame_load_ok = True, group_dir_ok = True,
     all_group_ok = True, task_grp_ok = False, user_grp_ok = True, governor_ret = 0\<rparr>"

theorem miload_history_clean_witness:
  "balanced (miload_log (fold (module_cycle (miloadtrace_init linked) (miloadtrace_exit linked))
     [miload_env_ok, miload_env_ok\<lparr>governor_ret := - 22\<rparr>] miload_start))"
  using miload_history_clean [of miload_start "[miload_env_ok, miload_env_ok\<lparr>governor_ret := - 22\<rparr>]"]
    world_start_empty
  by (simp add: miload_idle_def miload_start_def)

section \<open>The governor's memory\<close>

definition gov_start :: gov_sys where
  "gov_start = \<lparr>gov_heap = (\<lambda>_. None), gov_next = 0, gov_cpu = (\<lambda>_. None), gov_log = []\<rparr>"

lemma start_points:
  "c \<in> set cpus \<Longrightarrow> fold (\<lambda>cpu m. m(cpu := a)) cpus m c = a"
  by (induction cpus arbitrary: m rule: rev_induct) auto

text \<open>The governor frees what it allocates but leaves dangling pointers. Whether allocation
  succeeds or fails at either step, init and exit together release exactly what they took; but
  after a policy has been started and exited, the per-CPU data of each of its CPUs still points
  to the freed policy data.\<close>

theorem governor_leaves_dangling:
  assumes "c \<in> set (gp_cpus p)" and "governor_data p = None" and "balanced (gov_log s)"
    and "cpu_gov_init alloc p s = (ret, p1, s1)" and "cpu_gov_start p1 s1 = (r, s2)"
    and "cpu_gov_exit p1 s2 = (p3, s3)"
  shows "balanced (gov_log s3) \<and> governor_data p3 = None \<and>
    (ret = 0 \<longrightarrow> (\<exists>a. gov_cpu s3 c = Some a \<and> gov_heap s3 a = None))"
proof -
  have "run_ledger {#} (gov_log s) = Some {#}" using assms(3) by (simp add: balanced_def)
  then show ?thesis
    using assms(2,4-6)
    by (cases alloc; cases "fst alloc"; cases "snd alloc")
      (auto simp: start_points [OF assms(1)] cpu_gov_init_def cpu_gov_start_def cpu_gov_exit_def Let_def balanced_def
        run_ledger_append)
qed

theorem governor_leaves_dangling_witness:
  "\<exists>a. gov_cpu (snd (cpu_gov_exit \<lparr>gp_cpu = 0, gp_cur = 1, gp_cpus = [0, 1], governor_data = Some 0\<rparr>
     (snd (cpu_gov_start \<lparr>gp_cpu = 0, gp_cur = 1, gp_cpus = [0, 1], governor_data = Some 0\<rparr>
       (snd (snd (cpu_gov_init (True, True)
         \<lparr>gp_cpu = 0, gp_cur = 1, gp_cpus = [0, 1], governor_data = None\<rparr> gov_start))))))) 1 = Some a"
proof -
  let ?p = "\<lparr>gp_cpu = 0, gp_cur = 1, gp_cpus = [0, 1], governor_data = None\<rparr>"
  let ?p1 = "\<lparr>gp_cpu = 0, gp_cur = 1, gp_cpus = [0, 1], governor_data = Some 0\<rparr>"
  let ?s1 = "snd (snd (cpu_gov_init (True, True) ?p gov_start))"
  have "cpu_gov_init (True, True) ?p gov_start = (0, ?p1, ?s1)"
    by (simp add: cpu_gov_init_def gov_start_def Let_def)
  then show ?thesis
    using governor_leaves_dangling [of 1 ?p gov_start "(True, True)" 0 ?p1 ?s1
        "fst (cpu_gov_start ?p1 ?s1)" "snd (cpu_gov_start ?p1 ?s1)"
        "fst (cpu_gov_exit ?p1 (snd (cpu_gov_start ?p1 ?s1)))"
        "snd (cpu_gov_exit ?p1 (snd (cpu_gov_start ?p1 ?s1)))"]
    by (auto simp: gov_start_def)
qed

end
