(* ===== verification/Migt.thy ===== *)
theory Migt
  imports Prelude
begin

text \<open>
  The state that \<open>migt.c\<close> keeps: its enable flags, the preferred cluster and the threshold
  parameter, with the functions that set and read them. The hook registrations of the module
  are commented out in the source, so starting and stopping it touches nothing else.
\<close>

record migt_state =
  enabled :: int
  glk_enabled :: int
  flt_enabled :: int
  stask_prefer_cluster :: int
  migt_thresh :: int

definition migt_startup :: int where
  "migt_startup = 0"

definition migt_sched_init :: "migt_state \<Rightarrow> int \<times> migt_state" where
  "migt_sched_init s = (migt_startup, s\<lparr>enabled := 1\<rparr>)"

definition migt_set_prefer_cluster :: "int \<Rightarrow> migt_state \<Rightarrow> migt_state" where
  "migt_set_prefer_cluster cid s = s\<lparr>stask_prefer_cluster := cid\<rparr>"

definition migt_get_prefer_cluster :: "migt_state \<Rightarrow> int" where
  "migt_get_prefer_cluster s = stask_prefer_cluster s"

definition flt_enable :: "int \<Rightarrow> migt_state \<Rightarrow> int \<times> migt_state" where
  "flt_enable enable s = (0, s\<lparr>flt_enabled := (if enable \<noteq> 0 then 1 else 0)\<rparr>)"

definition glk_enable :: "int \<Rightarrow> migt_state \<Rightarrow> int \<times> migt_state" where
  "glk_enable enable s = (0, s\<lparr>glk_enabled := (if enable \<noteq> 0 then 1 else 0)\<rparr>)"

definition get_migt_thresh :: "migt_state \<Rightarrow> int" where
  "get_migt_thresh s = migt_thresh s"

definition migt_load_tracking_enabled :: "migt_state \<Rightarrow> int" where
  "migt_load_tracking_enabled s = enabled s"

definition migt_init :: "migt_state \<Rightarrow> int \<times> migt_state" where
  "migt_init s = migt_sched_init s"

text \<open>The other exported functions. Shutting down has all its calls commented out as well.\<close>

definition migt_shutdown :: "migt_state \<Rightarrow> migt_state" where
  "migt_shutdown s = s"

definition migt_sched_exit :: "migt_state \<Rightarrow> migt_state" where
  "migt_sched_exit s = migt_shutdown s"

definition migt_exit :: "migt_state \<Rightarrow> migt_state" where
  "migt_exit s = migt_sched_exit s"

definition migt_freq_qos_init :: int where
  "migt_freq_qos_init = 0"

definition migt_freq_qos_request_init_first :: int where
  "migt_freq_qos_request_init_first = 0"

definition get_frame_period :: u64 where
  "get_frame_period = 0"

definition add_work_to_migt :: "migt_state \<Rightarrow> migt_state" where
  "add_work_to_migt s = s"

definition flt_update_sf :: "migt_state \<Rightarrow> migt_state" where
  "flt_update_sf s = s"

definition flt_irq_work :: "migt_state \<Rightarrow> migt_state" where
  "flt_irq_work s = s"

definition is_render_thread :: bool where
  "is_render_thread = False"

definition is_frender_sibling :: bool where
  "is_frender_sibling = False"

section \<open>Calls of other modules\<close>

datatype migt_call =
    Sched_init | Sched_exit | Set_prefer int | Flt_enable int | Glk_enable int | Add_work
  | Update_sf | Irq_work_call | Set_thresh int

fun migt_do :: "migt_call \<Rightarrow> migt_state \<Rightarrow> migt_state" where
  "migt_do Sched_init s = snd (migt_sched_init s)"
| "migt_do Sched_exit s = migt_sched_exit s"
| "migt_do (Set_prefer cid) s = migt_set_prefer_cluster cid s"
| "migt_do (Flt_enable e) s = snd (flt_enable e s)"
| "migt_do (Glk_enable e) s = snd (glk_enable e s)"
| "migt_do Add_work s = add_work_to_migt s"
| "migt_do Update_sf s = flt_update_sf s"
| "migt_do Irq_work_call s = flt_irq_work s"
| "migt_do (Set_thresh t) s = s\<lparr>migt_thresh := t\<rparr>"

text \<open>The last value a kind of call has set, or the one before.\<close>

fun last_set :: "(migt_call \<Rightarrow> int option) \<Rightarrow> migt_call list \<Rightarrow> int \<Rightarrow> int" where
  "last_set f [] v = v"
| "last_set f (c # cs) v = last_set f cs (case f c of None \<Rightarrow> v | Some w \<Rightarrow> w)"

abbreviation sets_prefer :: "migt_call \<Rightarrow> int option" where
  "sets_prefer c \<equiv> (case c of Set_prefer cid \<Rightarrow> Some cid | _ \<Rightarrow> None)"

abbreviation sets_flt :: "migt_call \<Rightarrow> int option" where
  "sets_flt c \<equiv> (case c of Flt_enable e \<Rightarrow> Some (if e \<noteq> 0 then 1 else 0) | _ \<Rightarrow> None)"

abbreviation sets_glk :: "migt_call \<Rightarrow> int option" where
  "sets_glk c \<equiv> (case c of Glk_enable e \<Rightarrow> Some (if e \<noteq> 0 then 1 else 0) | _ \<Rightarrow> None)"

lemmas migt_defs = migt_init_def migt_sched_init_def migt_sched_exit_def migt_shutdown_def
  migt_exit_def migt_set_prefer_cluster_def flt_enable_def glk_enable_def add_work_to_migt_def
  flt_update_sf_def flt_irq_work_def migt_startup_def

lemma migt_run:
  "enabled s = 1 \<Longrightarrow> enabled (fold migt_do cs s) = 1 \<and>
     stask_prefer_cluster (fold migt_do cs s) = last_set sets_prefer cs (stask_prefer_cluster s) \<and>
     flt_enabled (fold migt_do cs s) = last_set sets_flt cs (flt_enabled s) \<and>
     glk_enabled (fold migt_do cs s) = last_set sets_glk cs (glk_enabled s)"
proof (induction cs arbitrary: s)
  case (Cons c cs)
  have "enabled (migt_do c s) = 1" using Cons.prems by (cases c) (simp_all add: migt_defs)
  from Cons.IH [OF this] show ?case by (cases c) (simp_all add: migt_defs)
qed simp

text \<open>Independent settings: after the module was loaded and any calls of its functions, the
  preferred cluster and the two flags are the last values set through their own function, the
  flags reduced to 0 or 1. Load tracking is reported as enabled from the load on, also after
  \<open>migt_sched_exit\<close> and the unload.\<close>

theorem migt_settings_independent:
  fixes cs :: "migt_call list" and s :: migt_state
  defines "t \<equiv> fold migt_do cs (snd (migt_init s))"
  shows "migt_get_prefer_cluster t = last_set sets_prefer cs (stask_prefer_cluster s) \<and>
    flt_enabled t = last_set sets_flt cs (flt_enabled s) \<and>
    glk_enabled t = last_set sets_glk cs (glk_enabled s) \<and>
    migt_load_tracking_enabled (migt_exit t) = 1"
  using migt_run [of "snd (migt_init s)" cs]
  by (simp add: t_def migt_get_prefer_cluster_def migt_load_tracking_enabled_def migt_defs)

end
