(* ===== verification/Hwid.thy ===== *)
theory Hwid
  imports Kernel_Lib Lifecycle
begin

text \<open>
  \<open>hwid.c\<close>: the product table and its lookup, the fields of the hardware id, the sysfs files that
  show them, and the setup and teardown of the \<open>hwid\<close> kernel object. Removing an object from
  sysfs with \<open>kobject_del\<close> is not releasing it, so the two are different resources.
\<close>

unbundle bit_operations_syntax

section \<open>State and operations\<close>

record hwid =
  hwid_value :: u32
  project :: u32
  build_adc :: u32
  project_adc :: u32

definition product_names :: "(u32 \<times> string) list" where
  "product_names =
     [(0, ''unknown''), (1, ''annibale''), (2, ''manet''), (3, ''aurora''), (4, ''cupid''),
      (5, ''miro''), (6, ''piano''), (7, ''zeus''), (8, ''nirvana''), (9, ''ruyi''),
      (10, ''caiwei''), (11, ''diting''), (12, ''yupei''), (13, ''chenfeng''), (14, ''babylon''),
      (15, ''ingres''), (16, ''loki''), (17, ''unicorn''), (18, ''fuxi''), (19, ''luming''),
      (20, ''wangshu''), (21, ''zizhan''), (22, ''haotian''), (23, ''bixi''), (24, ''onyx''),
      (25, ''houji''), (26, ''socrates''), (27, ''ziyi''), (28, ''xuanyuan''), (29, ''katyusha''),
      (30, ''dada''), (31, ''peridot''), (32, ''shennong''), (33, ''thor''), (34, ''suiren''),
      (35, ''ishtar''), (36, ''mayfly''), (37, ''goku''), (38, ''nuwa'')]"

fun lookup_in :: "(u32 \<times> string) list \<Rightarrow> u32 \<Rightarrow> string" where
  "lookup_in [] i = ''unknown''"
| "lookup_in ((p, n) # es) i = (if p = i then n else lookup_in es i)"

definition lookup_product_name :: "u32 \<Rightarrow> string" where
  "lookup_product_name i = lookup_in product_names i"

definition product_name_get :: "hwid \<Rightarrow> string" where
  "product_name_get h = lookup_product_name (project h)"

definition get_hw_project_adc :: "hwid \<Rightarrow> u32" where
  "get_hw_project_adc h = project_adc h"

definition get_hw_build_adc :: "hwid \<Rightarrow> u32" where
  "get_hw_build_adc h = build_adc h"

definition get_hw_version_platform :: "hwid \<Rightarrow> u32" where
  "get_hw_version_platform h = project h"

definition get_hw_id_value :: "hwid \<Rightarrow> u32" where
  "get_hw_id_value h = hwid_value h"

definition get_hw_country_version :: "hwid \<Rightarrow> u32" where
  "get_hw_country_version h = drop_bit 24 (hwid_value h) AND 0xff"

definition get_hw_version_major :: "hwid \<Rightarrow> u32" where
  "get_hw_version_major h = drop_bit 16 (hwid_value h) AND 0xff"

definition get_hw_version_minor :: "hwid \<Rightarrow> u32" where
  "get_hw_version_minor h = drop_bit 8 (hwid_value h) AND 0xff"

definition get_hw_version_build :: "hwid \<Rightarrow> u32" where
  "get_hw_version_build h = hwid_value h AND 0xff"

text \<open>The show functions use \<open>snprintf\<close>, whose result is the length of the whole text.\<close>

definition show_hex :: "u32 \<Rightarrow> string" where
  "show_hex v = take 4095 (''0x'' @ fmt_x (unat v) @ [LF])"

definition hwid_project_show :: "hwid \<Rightarrow> string" where
  "hwid_project_show h = show_hex (project h)"

definition hwid_value_show :: "hwid \<Rightarrow> string" where
  "hwid_value_show h = show_hex (hwid_value h)"

definition hwid_project_adc_show :: "hwid \<Rightarrow> string" where
  "hwid_project_adc_show h = show_hex (project_adc h)"

definition hwid_build_adc_show :: "hwid \<Rightarrow> string" where
  "hwid_build_adc_show h = show_hex (build_adc h)"

text \<open>The attribute table; all four files are read-only.\<close>

definition hwid_attrs :: "(string \<times> (hwid \<Rightarrow> string)) list" where
  "hwid_attrs = [(''hwid_project'', hwid_project_show), (''hwid_value'', hwid_value_show),
     (''hwid_project_adc'', hwid_project_adc_show), (''hwid_build_adc'', hwid_build_adc_show)]"

definition hwid_read :: "string \<Rightarrow> hwid \<Rightarrow> string option" where
  "hwid_read name h = map_option (\<lambda>show. show h) (map_of hwid_attrs name)"

datatype hwid_res = Kobj_ref | Kobj_dir | Attr_group

record hwid_mod =
  hwid_kobj :: bool
  hwid_log :: "hwid_res ev list"

definition hwid_init :: "bool \<times> int \<Rightarrow> hwid_mod \<Rightarrow> int \<times> hwid_mod" where
  "hwid_init env s =
     (if \<not> fst env then (- ENOMEM, s\<lparr>hwid_kobj := False\<rparr>)
      else if snd env \<noteq> 0
      then (snd env, s\<lparr>hwid_kobj := False,
              hwid_log := hwid_log s @ [Get Kobj_ref, Get Kobj_dir, Put Kobj_dir]\<rparr>)
      else (0, s\<lparr>hwid_kobj := True,
              hwid_log := hwid_log s @ [Get Kobj_ref, Get Kobj_dir, Get Attr_group]\<rparr>))"

definition hwid_exit :: "hwid_mod \<Rightarrow> hwid_mod" where
  "hwid_exit s =
     (if hwid_kobj s
      then s\<lparr>hwid_kobj := False, hwid_log := hwid_log s @ [Put Attr_group, Put Kobj_dir]\<rparr> else s)"

section \<open>Properties\<close>

lemma lookup_in_map_of:
  "lookup_in es i = (case map_of es i of None \<Rightarrow> ''unknown'' | Some n \<Rightarrow> n)"
  by (induction es i rule: lookup_in.induct) auto

text \<open>The scan of the table is its finite map, with a default.\<close>

lemma lookup_is_map:
  "lookup_product_name i = (case map_of product_names i of None \<Rightarrow> ''unknown'' | Some n \<Rightarrow> n)"
  by (simp add: lookup_product_name_def lookup_in_map_of)

lemma product_keys: "map fst product_names = map of_nat [0..<39]"
  by (simp add: product_names_def upt_rec)

lemma byte_field:
  "unat (drop_bit n (v::u32) AND 0xff) = unat v div 2 ^ n mod 256"
proof -
  have "drop_bit n v AND 0xff = take_bit 8 (drop_bit n v)"
    using take_bit_eq_mask [of 8 "drop_bit n v"] by (simp add: mask_eq_exp_minus_1)
  moreover have "unat (drop_bit n v) = unat v div 2 ^ n"
    unfolding unat_drop_bit_eq by (rule drop_bit_eq_div)
  ultimately show ?thesis
    by (simp only: take_bit_eq_mod unat_mod_distrib) simp
qed

lemma bytes_of:
  fixes x :: nat
  assumes "x < 4294967296"
  shows "((x div 16777216 mod 256 * 256 + x div 65536 mod 256) * 256 + x div 256 mod 256) * 256
      + x mod 256 = x"
proof -
  define y z w where "y = x div 256" and "z = y div 256" and "w = z div 256"
  have e: "x div 65536 = z" "x div 16777216 = w"
    by (simp_all add: y_def z_def w_def div_mult2_eq [symmetric])
  have "w < 256" using assms by (simp add: e(2) [symmetric] less_mult_imp_div_less)
  moreover have "z = w * 256 + z mod 256" "y = z * 256 + y mod 256" "x = y * 256 + x mod 256"
    by (simp_all add: w_def z_def y_def)
  ultimately show ?thesis unfolding e y_def [symmetric] by simp
qed

text \<open>The fields of the hardware id. Country, major, minor and build version are the four
  bytes of the id from the top down: each is below 256 and together they give the id back.\<close>

theorem hwid_fields:
  "unat (hwid_value h) = ((unat (get_hw_country_version h) * 256 + unat (get_hw_version_major h)) * 256
     + unat (get_hw_version_minor h)) * 256 + unat (get_hw_version_build h) \<and>
   unat (get_hw_country_version h) < 256 \<and> unat (get_hw_version_major h) < 256 \<and>
   unat (get_hw_version_minor h) < 256 \<and> unat (get_hw_version_build h) < 256"
proof -
  let ?v = "unat (hwid_value h)"
  have v: "?v < 4294967296" using unsigned_less [of "hwid_value h"] by simp
  have b: "unat (get_hw_country_version h) = ?v div 16777216 mod 256"
    "unat (get_hw_version_major h) = ?v div 65536 mod 256"
    "unat (get_hw_version_minor h) = ?v div 256 mod 256"
    "unat (get_hw_version_build h) = ?v mod 256"
    using byte_field [of 24 "hwid_value h"] byte_field [of 16 "hwid_value h"]
      byte_field [of 8 "hwid_value h"] byte_field [of 0 "hwid_value h"]
    by (simp_all add: get_hw_country_version_def get_hw_version_major_def get_hw_version_minor_def
        get_hw_version_build_def)
  show ?thesis using b bytes_of [OF v] by simp
qed

text \<open>Product names. The scan of the table is the finite map of its entries with a default:
  each of the 39 entries is found under its project number, and every other number is
  unknown.\<close>

theorem product_name_lookup:
  "lookup_product_name i =
     (if unat i < 39 then snd (product_names ! unat i) else ''unknown'')"
proof (cases "unat i < 39")
  case True
  have k: "map fst product_names = map of_nat [0..<39]" by (rule product_keys)
  then have l: "length product_names = 39" by (metis length_map diff_zero length_upt)
  have "fst (product_names ! unat i) = of_nat (unat i)"
    using True l k by (metis (no_types) add_0 nth_map nth_upt length_upt diff_zero)
  then have "(i, snd (product_names ! unat i)) = product_names ! unat i" by (simp add: prod_eq_iff)
  then have "(i, snd (product_names ! unat i)) \<in> set product_names"
    using True l nth_mem [of "unat i" product_names] by simp
  moreover have "distinct (map fst product_names)"
    by (simp add: product_names_def)
  ultimately show ?thesis using True by (simp add: lookup_is_map)
next
  case False
  have "i \<notin> set (map fst product_names)"
    using False unfolding product_keys by (auto simp: unat_of_nat)
  then have "map_of product_names i = None" by (simp add: map_of_eq_None_iff)
  then show ?thesis using False by (simp add: lookup_is_map)
qed

text \<open>The sysfs files show the whole number in hexadecimal.\<close>

lemma hex_line: "show_hex v = ''0x'' @ fmt_x (unat v) @ [LF]"
proof -
  have "unat v < 16 ^ 8" using unsigned_less [of v, where ?'a = nat] by simp
  then have "length (num_str 16 (unat v)) \<le> 8" using length_num_str [of 16 "unat v" 8] by simp
  then show ?thesis by (simp add: show_hex_def fmt_x_def)
qed

text \<open>Unloading leaks the kernel object. The module removes its object from sysfs with
  \<open>kobject_del\<close> and never drops the reference that creating it took: once an object was created,
  on the error path of the load as well as after an unload, exactly that reference is left.\<close>

theorem hwid_unload_keeps_object:
  assumes "hwid_init env s = (ret, s')" and "fst env" and "balanced (hwid_log s)"
  shows "holds_exactly (hwid_log (if ret = 0 then hwid_exit s' else s')) [Kobj_ref]"
  using assms by (auto simp: hwid_init_def hwid_exit_def balanced_def holds_exactly_def
      run_ledger_append split: if_splits)

theorem hwid_unload_keeps_object_witness:
  "holds_exactly (hwid_log (hwid_exit (snd (hwid_init (True, 0)
     \<lparr>hwid_kobj = False, hwid_log = []\<rparr>)))) [Kobj_ref]"
  using hwid_unload_keeps_object [of "(True, 0)" "\<lparr>hwid_kobj = False, hwid_log = []\<rparr>" 0
      "snd (hwid_init (True, 0) \<lparr>hwid_kobj = False, hwid_log = []\<rparr>)"]
  by (simp add: hwid_init_def)

end
