(* ===== verification/Module_Settings.thy ===== *)
theory Module_Settings
  imports Module_Params Thermal_Cpufreq Xiaomi_Hooks Metis_Hooks Miloadtrace Migt Hwid
begin

text \<open>
  The settings of the modules: the table of parameters each source file declares, in the order
  of the declarations, and how the code sees them. Each table interprets \<open>kernel_params\<close>. The
  views read the C variables a component uses out of the parameter state; the properties say what
  a write to a file below \<open>/sys/module\<close> does to the component: the thermal caps, the switches of
  the hook registries, the boosts and the frame rate of the load tracing, the hardware id.
\<close>

section \<open>The tables\<close>

abbreviation rw_param :: "string \<Rightarrow> ptype \<Rightarrow> pval \<Rightarrow> kparam" where
  "rw_param n t v \<equiv> \<lparr>pname = n, pty = t, pmode = 420, pinit = v\<rparr>"

abbreviation uint_param :: "string \<Rightarrow> int \<Rightarrow> kparam" where
  "uint_param n v \<equiv> rw_param n P_uint (Num v)"

abbreviation int_param :: "string \<Rightarrow> int \<Rightarrow> kparam" where
  "int_param n v \<equiv> rw_param n P_int (Num v)"

abbreviation ulong_param :: "string \<Rightarrow> int \<Rightarrow> kparam" where
  "ulong_param n v \<equiv> rw_param n P_ulong (Num v)"

abbreviation bool_param :: "string \<Rightarrow> bool \<Rightarrow> kparam" where
  "bool_param n b \<equiv> rw_param n P_bool (Flag b)"

abbreviation string_param :: "string \<Rightarrow> string \<Rightarrow> kparam" where
  "string_param n s \<equiv> rw_param n P_charp (Text (Some s))"

text \<open>Arrays without and with a counter variable; 0444 parameters are set at load only.\<close>

abbreviation array_param :: "string \<Rightarrow> nat \<Rightarrow> kparam" where
  "array_param n k \<equiv> rw_param n (P_array k False) (Arr (replicate k 0) None)"

abbreviation counted_param :: "string \<Rightarrow> nat \<Rightarrow> kparam" where
  "counted_param n k \<equiv> rw_param n (P_array k True) (Arr (replicate k 0) (Some 0))"

abbreviation fixed_param :: "string \<Rightarrow> kparam" where
  "fixed_param n \<equiv> \<lparr>pname = n, pty = P_uint, pmode = 292, pinit = Num 0\<rparr>"

definition thermal_params :: "kparam list" where
  "thermal_params =
     [bool_param ''cpu_limits_enable'' True, uint_param ''cpu_limits_floor_pct'' 92,
      uint_param ''cpu_limits_hot_floor_pct'' 85, uint_param ''cpu_limits_crit_floor_pct'' 75,
      uint_param ''cpu_limits_hot_temp'' 47, uint_param ''cpu_limits_crit_temp'' 53,
      uint_param ''cpu_limits_max_step'' 1]"

definition xiaomi_params :: "kparam list" where
  "xiaomi_params =
     [bool_param ''xiaomi_walt_hooks_enable'' False]"

definition metis_local_params :: "kparam list" where
  "metis_local_params =
     [bool_param ''metis_safe_boot'' True, uint_param ''link_debug'' 0,
      uint_param ''mi_link_enable'' 0, uint_param ''mi_async_binder_link_enable'' 0,
      uint_param ''mi_lock_blocked_pid'' 0, uint_param ''minor_window_app'' 0,
      uint_param ''freedom_window_app'' 0, uint_param ''tsched_debug'' 0,
      uint_param ''bug_detect'' 0, uint_param ''cluaff_control'' 0,
      uint_param ''mi_boost_duration'' 0, int_param ''min_cluster_freqs'' 0,
      uint_param ''fboost_debug'' 0, uint_param ''mi_freq_enable'' 0,
      uint_param ''mi_switch_enable'' 0, int_param ''user_min_freq'' 0, uint_param ''fperiod'' 0,
      uint_param ''metis_debug'' 0, uint_param ''mi_fboost_enable'' 0,
      uint_param ''limit_bgtask_sched'' 0, uint_param ''thermal_break_enable'' 0,
      int_param ''version'' 0, uint_param ''force_forbidden_walt_lb'' 0,
      uint_param ''force_viptask_select_rq'' 0, uint_param ''task_enqueue_time_toolong'' 0,
      uint_param ''force_cluster_sched_enable'' 0, uint_param ''doublecyc_debug'' 0,
      int_param ''sched_doctor_enable'' 0, int_param ''suspend_vip_enable'' 0,
      int_param ''normal_running_too_long_thresh'' 0, int_param ''rt_running_too_long_thresh'' 0,
      uint_param ''metis_lb_debug'' 0, uint_param ''metis_tp_debug'' 0,
      uint_param ''mi_viptask_balance'' 0, uint_param ''metis_schlat_enable'' 0,
      uint_param ''metis_schctx_enable'' 0, uint_param ''protect_cs'' 0,
      uint_param ''coldstart_set_mmlock_holder_vip'' 0, uint_param ''cs_protect_dur'' 0,
      uint_param ''cs_stat_type'' 0, uint_param ''low_lt_preempt_thres'' 0,
      uint_param ''low_lt_preempt_thres_cold_start'' 0,
      uint_param ''set_cold_start_render_vip'' 0,
      uint_param ''override_schedboost_in_coldstart'' 0,
      uint_param ''set_possible_notifythr_vip'' 0, uint_param ''rwsem_normal_spin_thres'' 0,
      uint_param ''rwsem_vip_spin_thres'' 0, uint_param ''mutex_normal_spin_thres'' 0,
      uint_param ''mutex_vip_spin_thres'' 0, uint_param ''read_trylock_reserved_jif'' 0,
      uint_param ''ui_blocked_reader_jif'' 0, uint_param ''reader_biased_jif'' 0,
      uint_param ''reader_biased_jif_for_vip'' 0, ulong_param ''rtg_handoff_min_inter'' 0,
      uint_param ''stask_prefer_cpu'' 0, uint_param ''cs_debug'' 0,
      uint_param ''metis_wakeup_enable'' 0, uint_param ''metis_wakeup_debug'' 0]"

definition metis_exported_params :: "kparam list" where
  "metis_exported_params =
     [uint_param ''in_perf_mod'' 0, uint_param ''flt_enable_other'' 0,
      uint_param ''low_frame_op'' 0]"

definition metis_params :: "kparam list" where
  "metis_params = metis_local_params @ metis_exported_params"

definition mist_params :: "kparam list" where
  "mist_params =
     [uint_param ''dflt_ftrace_debug'' 0, uint_param ''dflt_debug'' 0,
      uint_param ''need_boost_in_frame'' 0, uint_param ''dflt_fpercent_other'' 0,
      uint_param ''max_ddr_ib'' 0, uint_param ''spm_thres'' 0,
      uint_param ''dflt_ddr_ib_scale'' 0, uint_param ''dflt_ddr_boost'' 0,
      ulong_param ''dflt_cpu_mask_debug'' 0, uint_param ''dflt_spm_low_threshold'' 0,
      uint_param ''dflt_ddr_ib_scale_low'' 0, uint_param ''dflt_ddr_ib_scale_high'' 0,
      uint_param ''dflt_spm_high_threshold'' 0, uint_param ''dflt_memlat_vote_type'' 0,
      uint_param ''mist_memlat_vote_enable'' 0, counted_param ''dflt_stallratio_thresh'' 8,
      counted_param ''dflt_spm_thresh'' 8, counted_param ''dflt_ips_thresh'' 8,
      string_param ''mist_version'' ''3.5.0'', uint_param ''be_procent'' 0,
      uint_param ''mist_soc_min_stall'' 0, uint_param ''mist_set_uid'' 0,
      counted_param ''mist_soc_freq_thresh'' 8, uint_param ''gflt_debug'' 0,
      uint_param ''sync_cost_thresh'' 0, uint_param ''gflt_slack_time_jif'' 0,
      uint_param ''gflt_update_freq_failed'' 0, uint_param ''lc_debug'' 0,
      uint_param ''gflt_wait_threshold'' 0, uint_param ''dflt_bm_counter_enable'' 0,
      uint_param ''dflt_bw_enable'' 0, uint_param ''dflt_lat_enable'' 0,
      uint_param ''mist_soc_api_enable'' 0, uint_param ''gflt_enable'' 0]"

definition migt_params :: "kparam list" where
  "migt_params =
     [int_param ''migt_debug'' 0, int_param ''migt_ms'' 0, int_param ''migt_thresh'' 0,
      int_param ''itask_detect_interval'' 0, int_param ''over_thresh_count'' 0,
      int_param ''cpu_boost_cycle'' 0, int_param ''soc_pmu_track_enable'' 0,
      int_param ''render_update'' 0, int_param ''migt_viptask_thresh'' 0,
      int_param ''fps_mexec_update_policy'' 0, int_param ''fps_variance_ratio'' 0,
      int_param ''enable_pkg_monitor'' 0, int_param ''set_render_as_stask'' 0,
      int_param ''high_resolution_enable'' 0, int_param ''first_lunch_fps'' 0,
      int_param ''ceiling_slack_ms'' 0, int_param ''ceiling_from_user'' 0]"

definition mi_schedule_params :: "kparam list" where
  "mi_schedule_params =
     [int_param ''ls_grp_prefer_cid'' 0, uint_param ''group_debug'' 0,
      uint_param ''target_makeup_ns'' 0]"

definition miload_params :: "kparam list" where
  "miload_params =
     [uint_param ''util_policy'' 0, uint_param ''grp_percent'' 0, uint_param ''flw_debug'' 0,
      uint_param ''choose_result_util_policy'' 0, uint_param ''back_percent'' 0,
      uint_param ''sys_percent'' 0, uint_param ''kern_percent'' 0, uint_param ''expand_shift'' 0,
      uint_param ''target_delta_flag'' 0, uint_param ''freq_target_delta_flag'' 0,
      uint_param ''cal_running_time_type'' 0, uint_param ''frame_vip_boost'' 0,
      uint_param ''frame_drop_boost'' 0, array_param ''frame_util_boost'' 4,
      array_param ''util_boost_percent'' 4, array_param ''util_zero_boost_percent'' 4,
      array_param ''down_util_margin'' 4, uint_param ''update_frame_fps'' 60,
      array_param ''mi_maxfreq'' 8, array_param ''mi_minfreq'' 8,
      uint_param ''cal_cpufreq_policy'' 0, uint_param ''migov_debug'' 0,
      uint_param ''in_perf_mod'' 0, uint_param ''freq_mode'' 0,
      uint_param ''out_capacity_thresh'' 0, uint_param ''big_maxfreq_limit'' 0]"

definition hwid_params :: "kparam list" where
  "hwid_params =
     [fixed_param ''hwid_value'', fixed_param ''project'', fixed_param ''build_adc'',
      fixed_param ''project_adc'']"

section \<open>The contract\<close>

lemmas param_table_simps = is_u32_def is_u64_def is_s32_def numeral_nat

interpretation thermal_par: kernel_params thermal_params
  by unfold_locales (simp_all add: thermal_params_def param_table_simps)

interpretation xiaomi_par: kernel_params xiaomi_params
  by unfold_locales (simp_all add: xiaomi_params_def param_table_simps)

interpretation metis_par: kernel_params metis_params
  by unfold_locales (simp_all add: metis_params_def metis_local_params_def
      metis_exported_params_def param_table_simps)

interpretation mist_par: kernel_params mist_params
  by unfold_locales (simp_all add: mist_params_def param_table_simps)

interpretation migt_par: kernel_params migt_params
  by unfold_locales (simp_all add: migt_params_def param_table_simps)

interpretation sched_par: kernel_params mi_schedule_params
  by unfold_locales (simp_all add: mi_schedule_params_def param_table_simps)

interpretation miload_par: kernel_params miload_params
  by unfold_locales (simp_all add: miload_params_def param_table_simps)

interpretation hwid_par: kernel_params hwid_params
  by unfold_locales (simp_all add: hwid_params_def param_table_simps)

text \<open>The states user space can bring the parameters of a table to.\<close>

abbreviation after_ops :: "param_ops \<Rightarrow> kparam list \<Rightarrow> param_op list \<Rightarrow> params" where
  "after_ops ko ps ops \<equiv> fold (param_do ko ps) ops (params_init ps)"

lemma after_ops_typed: "param_ops_ok ko \<Longrightarrow> kernel_params ps \<Longrightarrow> params_typed ps (after_ops ko ps ops)"
  by (intro kernel_params.history_typed kernel_params.init_typed)

text \<open>A \<open>kstrtobool\<close> that looks at the first character.\<close>

definition kb_first :: "string \<Rightarrow> int + bool" where
  "kb_first s =
     (case s of
        [] \<Rightarrow> Inl (- EINVAL)
      | c # _ \<Rightarrow> if c \<in> {CHR ''Y'', CHR ''y'', CHR ''1''} then Inr True
                 else if c \<in> {CHR ''N'', CHR ''n'', CHR ''0''} then Inr False else Inl (- EINVAL))"

lemma kb_first_ok: "kb_yes_no kb_first"
  by (simp add: kb_yes_no_def kb_first_def)

text \<open>A kernel for the witnesses.\<close>

abbreviation ko_first :: param_ops where
  "ko_first \<equiv> linux_param_set kb_first"

lemma ko_first_ok: "param_ops_ok ko_first"
  using kb_first_ok by (rule linux_param_set_ok)

section \<open>What the code sees\<close>

definition pnum :: "params \<Rightarrow> string \<Rightarrow> int" where
  "pnum st n = (case st n of Some (Num v) \<Rightarrow> v | _ \<Rightarrow> 0)"

definition pflag :: "params \<Rightarrow> string \<Rightarrow> bool" where
  "pflag st n = (case st n of Some (Flag b) \<Rightarrow> b | _ \<Rightarrow> False)"

definition parr :: "params \<Rightarrow> string \<Rightarrow> u32 list" where
  "parr st n = (case st n of Some (Arr xs _) \<Rightarrow> map of_int xs | _ \<Rightarrow> [])"

lemma view_upd [simp]:
  "pnum (st(n \<mapsto> Num v)) m = (if m = n then v else pnum st m)"
  "pflag (st(n \<mapsto> Flag b)) m = (if m = n then b else pflag st m)"
  "parr (st(n \<mapsto> Arr xs k)) m = (if m = n then map of_int xs else parr st m)"
  by (simp_all add: pnum_def pflag_def parr_def)

lemma view_upd_other [simp]:
  "m \<noteq> n \<Longrightarrow> pnum (st(n := w)) m = pnum st m"
  "m \<noteq> n \<Longrightarrow> pflag (st(n := w)) m = pflag st m"
  "m \<noteq> n \<Longrightarrow> parr (st(n := w)) m = parr st m"
  by (simp_all add: pnum_def pflag_def parr_def)

text \<open>The parameters of the thermal caps, and the field each number file stands for.\<close>

definition cpu_limits_of :: "params \<Rightarrow> cpu_limits_params" where
  "cpu_limits_of st =
     \<lparr>cpu_limits_enable = pflag st ''cpu_limits_enable'',
      cpu_limits_floor_pct = of_int (pnum st ''cpu_limits_floor_pct''),
      cpu_limits_hot_floor_pct = of_int (pnum st ''cpu_limits_hot_floor_pct''),
      cpu_limits_crit_floor_pct = of_int (pnum st ''cpu_limits_crit_floor_pct''),
      cpu_limits_hot_temp = of_int (pnum st ''cpu_limits_hot_temp''),
      cpu_limits_crit_temp = of_int (pnum st ''cpu_limits_crit_temp''),
      cpu_limits_max_step = of_int (pnum st ''cpu_limits_max_step'')\<rparr>"

definition thermal_fields :: "(string \<times> (u32 \<Rightarrow> cpu_limits_params \<Rightarrow> cpu_limits_params)) list" where
  "thermal_fields =
     [(''cpu_limits_floor_pct'', \<lambda>v p. p\<lparr>cpu_limits_floor_pct := v\<rparr>),
      (''cpu_limits_hot_floor_pct'', \<lambda>v p. p\<lparr>cpu_limits_hot_floor_pct := v\<rparr>),
      (''cpu_limits_crit_floor_pct'', \<lambda>v p. p\<lparr>cpu_limits_crit_floor_pct := v\<rparr>),
      (''cpu_limits_hot_temp'', \<lambda>v p. p\<lparr>cpu_limits_hot_temp := v\<rparr>),
      (''cpu_limits_crit_temp'', \<lambda>v p. p\<lparr>cpu_limits_crit_temp := v\<rparr>),
      (''cpu_limits_max_step'', \<lambda>v p. p\<lparr>cpu_limits_max_step := v\<rparr>)]"

lemma thermal_members:
  "n \<in> set (map fst thermal_fields) \<Longrightarrow>
     \<exists>p \<in> set thermal_params. pname p = n \<and> pty p = P_uint \<and> writable p"
  "bool_param ''cpu_limits_enable'' True \<in> set thermal_params"
  by (auto simp: thermal_fields_def thermal_params_def writable_def)

lemma cpu_limits_field:
  assumes "(n, field) \<in> set thermal_fields"
  shows "cpu_limits_of (st(n \<mapsto> Num (int v))) = field (of_nat v) (cpu_limits_of st)"
proof -
  have "list_all (\<lambda>(n, field). cpu_limits_of (st(n \<mapsto> Num (int v))) =
      field (of_nat v) (cpu_limits_of st)) thermal_fields"
    by (simp add: thermal_fields_def cpu_limits_of_def)
  then show ?thesis using assms by (auto simp: list_all_iff)
qed

abbreviation yes_no :: "bool \<Rightarrow> string" where
  "yes_no b \<equiv> (if b then ''Y'' else ''N'') @ [LF]"

text \<open>C22: the settings of the caps are record updates. The parameters start as the defaults of the
  source. After any history of writes, writing a decimal number to one of the six number files
  changes exactly the field of that name in what the caps are computed from, and writing Y or N
  to the enable file exactly that switch.\<close>

theorem settings_refine_caps:
  fixes ops :: "param_op list"
  assumes "param_ops_ok ko" and "(n, field) \<in> set thermal_fields" and "v < 2 ^ 32"
  defines "st \<equiv> after_ops ko thermal_params ops"
  shows "cpu_limits_of (params_init thermal_params) = cpu_limits_defaults \<and>
    cpu_limits_of (snd (param_store ko thermal_params alloc n (fmt_u v @ [LF]) st)) =
      field (of_nat v) (cpu_limits_of st) \<and>
    cpu_limits_of (snd (param_store ko thermal_params alloc ''cpu_limits_enable'' (yes_no b) st)) =
      (cpu_limits_of st)\<lparr>cpu_limits_enable := b\<rparr>"
proof (intro conjI)
  have typed: "params_typed thermal_params st"
    unfolding st_def by (rule after_ops_typed [OF assms(1) thermal_par.kernel_params_axioms])
  show "cpu_limits_of (params_init thermal_params) = cpu_limits_defaults"
    by (simp add: cpu_limits_of_def params_init_def thermal_params_def cpu_limits_defaults_def
        pnum_def pflag_def)
  have "n \<in> set (map fst thermal_fields)" using assms(2) by force
  then obtain p where p: "p \<in> set thermal_params" "pname p = n" "pty p = P_uint" "writable p"
    using thermal_members(1) by blast
  then have "snd (param_store ko thermal_params alloc n (fmt_u v @ [LF]) st) = st(n \<mapsto> Num (int v))"
    using thermal_par.store_uint [OF assms(1) p(1,4) typed p(3) assms(3), of alloc] p(2) by simp
  then show "cpu_limits_of (snd (param_store ko thermal_params alloc n (fmt_u v @ [LF]) st)) =
      field (of_nat v) (cpu_limits_of st)"
    using cpu_limits_field [OF assms(2)] by simp
  have "writable (bool_param ''cpu_limits_enable'' True)" by (simp add: writable_def)
  from thermal_par.store_bool [OF assms(1) thermal_members(2) this typed, of alloc b]
  show "cpu_limits_of (snd (param_store ko thermal_params alloc ''cpu_limits_enable'' (yes_no b) st)) =
      (cpu_limits_of st)\<lparr>cpu_limits_enable := b\<rparr>"
    by (simp add: cpu_limits_of_def)
qed

theorem settings_refine_caps_witness:
  "cpu_limits_of (snd (param_store ko_first thermal_params True ''cpu_limits_max_step''
     (fmt_u 0 @ [LF]) (params_init thermal_params))) = cpu_limits_defaults\<lparr>cpu_limits_max_step := 0\<rparr>"
  using settings_refine_caps [of ko_first "''cpu_limits_max_step''"
      "\<lambda>v p. p\<lparr>cpu_limits_max_step := v\<rparr>" 0 True "[]"] ko_first_ok
  by (simp add: thermal_fields_def)

section \<open>The switches of the registries\<close>

definition xiaomi_of :: "params \<Rightarrow> xiaomi_hooks \<Rightarrow> xiaomi_hooks" where
  "xiaomi_of st s = s\<lparr>xiaomi_walt_hooks_enable := pflag st ''xiaomi_walt_hooks_enable''\<rparr>"

definition metis_of :: "params \<Rightarrow> metis_state \<Rightarrow> metis_state" where
  "metis_of st s = s\<lparr>metis_safe_boot := pflag st ''metis_safe_boot''\<rparr>"

definition world_of :: "params \<Rightarrow> params \<Rightarrow> sched_world \<Rightarrow> sched_world" where
  "world_of sx sm w = w\<lparr>w_xiaomi := xiaomi_of sx (w_xiaomi w), w_metis := metis_of sm (w_metis w)\<rparr>"

lemma switch_stores:
  assumes "param_ops_ok ko"
  shows "pflag (snd (param_store ko xiaomi_params alloc ''xiaomi_walt_hooks_enable'' (yes_no b)
      (after_ops ko xiaomi_params ops))) ''xiaomi_walt_hooks_enable'' = b"
    and "pflag (snd (param_store ko metis_params alloc ''metis_safe_boot'' (yes_no b)
      (after_ops ko metis_params ops))) ''metis_safe_boot'' = b"
proof -
  have px: "bool_param ''xiaomi_walt_hooks_enable'' False \<in> set xiaomi_params"
    by (simp add: xiaomi_params_def)
  have pm: "bool_param ''metis_safe_boot'' True \<in> set metis_params"
    by (simp add: metis_params_def metis_local_params_def)
  show "pflag (snd (param_store ko xiaomi_params alloc ''xiaomi_walt_hooks_enable'' (yes_no b)
      (after_ops ko xiaomi_params ops))) ''xiaomi_walt_hooks_enable'' = b"
    using xiaomi_par.store_bool [OF assms px _ after_ops_typed [OF assms xiaomi_par.kernel_params_axioms],
        of alloc b] by (simp add: writable_def)
  show "pflag (snd (param_store ko metis_params alloc ''metis_safe_boot'' (yes_no b)
      (after_ops ko metis_params ops))) ''metis_safe_boot'' = b"
    using metis_par.store_bool [OF assms pm _ after_ops_typed [OF assms metis_par.kernel_params_axioms],
        of alloc b] by (simp add: writable_def)
qed

text \<open>C31: two files decide which hooks the load tracing installs. After any history of writes to
  the parameters of the scheduler hooks and of Metis, the last Y or N written to
  \<open>xiaomi_walt_hooks_enable\<close> and to \<open>metis_safe_boot\<close> decides: from empty slots, loading
  registers without an error, installs the two hooks of the scheduler module always, the six of
  the scheduler hooks if and only if these are enabled, and the one of Metis if and only if safe
  boot is off.\<close>

theorem switch_files_decide_hooks:
  fixes opsx opsm :: "param_op list" and bx bm :: bool
  assumes "param_ops_ok ko" and "linked_slot w = (\<lambda>_. None)"
  defines "sx \<equiv> snd (param_store ko xiaomi_params True ''xiaomi_walt_hooks_enable'' (yes_no bx)
      (after_ops ko xiaomi_params opsx))"
  defines "sm \<equiv> snd (param_store ko metis_params True ''metis_safe_boot'' (yes_no bm)
      (after_ops ko metis_params opsm))"
  shows "\<exists>w'. miload_register_hooks linked (world_of sx sm w) = (0, w') \<and>
    linked_slot w' = (\<lambda>h.
      if h \<in> {Task_group_change, Mi_update_global_period} \<or> (if h = Ui_task_detect then \<not> bm else bx)
      then Some (callback h) else None)"
proof -
  let ?w = "world_of sx sm w"
  have f: "pflag sx ''xiaomi_walt_hooks_enable'' = bx" "pflag sm ''metis_safe_boot'' = bm"
    unfolding sx_def sm_def by (rule switch_stores [OF assms(1)])+
  have slots: "linked_slot ?w = (\<lambda>_. None)"
  proof
    fix h
    have "linked_slot w h = None" using assms(2) by simp
    then show "linked_slot ?w h = None"
      by (cases h) (simp_all add: world_of_def xiaomi_of_def metis_of_def)
  qed
  have live: "linked_live ?w h = (h \<in> {Task_group_change, Mi_update_global_period} \<or>
      (if h = Ui_task_detect then \<not> bm else bx))" for h
    using f by (cases h) (simp_all add: world_of_def xiaomi_of_def metis_of_def)
  obtain w' where w': "miload_register_hooks linked ?w = (0, w')"
    using linked_register_0 [of ?w] by (metis prod.collapse)
  from linked.load_hooks [OF slots w'] w' show ?thesis by (simp add: live fun_eq_iff)
qed

theorem switch_files_decide_hooks_witness:
  "\<exists>w'. linked_slot w' = (\<lambda>h. Some (callback h)) \<and>
     miload_register_hooks linked (world_of
       (snd (param_store ko_first xiaomi_params True ''xiaomi_walt_hooks_enable'' (yes_no True)
          (params_init xiaomi_params)))
       (snd (param_store ko_first metis_params True ''metis_safe_boot'' (yes_no False)
          (params_init metis_params))) world_start) = (0, w')"
  using switch_files_decide_hooks [OF ko_first_ok world_start_empty, of True "[]" False "[]"]
  by (auto simp: fun_eq_iff)

section \<open>The hardware id\<close>

definition hwid_of :: "params \<Rightarrow> hwid" where
  "hwid_of st =
     \<lparr>hwid_value = of_int (pnum st ''hwid_value''), project = of_int (pnum st ''project''),
      build_adc = of_int (pnum st ''build_adc''), project_adc = of_int (pnum st ''project_adc'')\<rparr>"

lemma hwid_not_writable: "param_of hwid_params n = Some p \<Longrightarrow> \<not> writable p"
proof -
  have "list_all (\<lambda>p. \<not> writable p) hwid_params" by (simp add: hwid_params_def writable_def)
  then show "param_of hwid_params n = Some p \<Longrightarrow> \<not> writable p"
    using hwid_par.param_of_Some by (auto simp: list_all_iff)
qed

lemma hwid_store_refused:
  "snd (param_store ko hwid_params alloc n buf st) = st \<and>
   fst (param_store ko hwid_params alloc n buf st) \<in> {- EIO, - ENOENT}"
  by (auto simp: param_store_def dest: hwid_not_writable split: option.split)

text \<open>The hardware id is fixed when the module is loaded. The number on the command line
  becomes the id, the file shows it in hexadecimal, and no sequence of writes to the parameter
  files, which all give an error, changes it or the other three numbers.\<close>

theorem hwid_set_once:
  fixes writes :: "(bool \<times> string \<times> string) list" and ko :: param_ops and alloc :: bool
  assumes "v < 2 ^ 32" and "param_ops_ok ko"
  defines "st \<equiv> snd (param_load ko hwid_params alloc ''hwid_value'' (fmt_u v) (params_init hwid_params))"
  defines "st' \<equiv> fold (param_do ko hwid_params) (map (\<lambda>(a, n, buf). Store a n buf) writes) st"
  shows "get_hw_id_value (hwid_of st') = of_nat v \<and> hwid_of st' = hwid_of st \<and>
    hwid_read ''hwid_value'' (hwid_of st') = Some (''0x'' @ fmt_x v @ [LF]) \<and>
    fst (param_store ko hwid_params a n buf st') \<in> {- EIO, - ENOENT}"
proof -
  have "fold (param_do ko hwid_params) (map (\<lambda>(a, n, buf). Store a n buf) writes) s = s" for s
    by (induction writes) (auto simp: hwid_store_refused)
  then have same: "st' = st" by (simp add: st'_def)
  have p: "fixed_param ''hwid_value'' \<in> set hwid_params" by (simp add: hwid_params_def)
  have "kstrtouint (cstr (fmt_u v)) = Inr v"
    using kstrtouint_num_str [OF assms(1), of "[]"] num_str_free(2) [of v]
    by (simp add: fmt_u_def cstr_id)
  then have "st = (params_init hwid_params)(''hwid_value'' \<mapsto> Num (int v))"
    using hwid_par.param_of_mem [OF p] hwid_par.init_value [OF p] ops_uint [OF assms(2)]
    by (simp add: st_def param_load_def param_assign_def set_num_def)
  then have "hwid_value (hwid_of st) = of_nat v" by (simp add: hwid_of_def)
  moreover have "unat (of_nat v :: u32) = v" using assms(1) by (simp add: unat_of_nat)
  ultimately show ?thesis
    using hwid_store_refused same
    by (simp add: get_hw_id_value_def hwid_read_def hwid_attrs_def hwid_value_show_def hex_line)
qed

theorem hwid_set_once_witness:
  "get_hw_id_value (hwid_of (fold (param_do ko_first hwid_params)
     (map (\<lambda>(a, n, buf). Store a n buf) [(True, ''hwid_value'', ''7'')])
     (snd (param_load ko_first hwid_params True ''hwid_value'' (fmt_u 16909060)
       (params_init hwid_params))))) = 16909060"
proof -
  have "(16909060 :: nat) < 2 ^ 32" by simp
  from conjunct1 [OF hwid_set_once [OF this ko_first_ok]] show ?thesis unfolding of_nat_numeral .
qed

end
