(* ===== verification/Miload_Runtime.thy ===== *)
theory Miload_Runtime
  imports Module_Settings
begin

text \<open>
  \<open>miloadtrace.c\<close> at work: the variables the module keeps between its calls, the nine callbacks it
  installs, the deferred work, and every way to reach them from outside: the files of the
  parameters, the \<open>mi_frameload\<close> device, the files below \<open>/proc/miload\<close>, the hooks the
  scheduler calls and the governor callback. The frame rate, the boosts and the frequency records
  are module parameters and variables of the code at once, so the state holds them in the
  parameter state and the code's functions of \<open>Miloadtrace\<close> read and write it there. \<open>mv_oob\<close> is not a
  variable of the code: it is set when a call has accessed an array outside its bounds.
\<close>

section \<open>State\<close>

record miload_vars =
  mv_params :: params
  skip_walt_result :: bool
  flw_work_in_process :: int
  flw_irq_work_lastq_ws :: u64
  mv_dmesg :: "string list"
  mv_oob :: bool

definition fps_of :: "params \<Rightarrow> u32" where
  "fps_of st = of_int (pnum st ''update_frame_fps'')"

definition put_fps :: "u32 \<Rightarrow> params \<Rightarrow> params" where
  "put_fps fps st = st(''update_frame_fps'' \<mapsto> Num (uint fps))"

definition rec_of :: "params \<Rightarrow> freq_rec" where
  "rec_of st = \<lparr>mi_maxfreq = parr st ''mi_maxfreq'', mi_minfreq = parr st ''mi_minfreq'', rec_oob = False\<rparr>"

definition put_rec :: "freq_rec \<Rightarrow> params \<Rightarrow> params" where
  "put_rec r st =
     st(''mi_maxfreq'' \<mapsto> Arr (map uint (mi_maxfreq r)) None, ''mi_minfreq'' \<mapsto> Arr (map uint (mi_minfreq r)) None)"

text \<open>Loading: the arguments of the command line are set first, then init clears the records.\<close>

definition miload_boot :: "param_ops \<Rightarrow> param_op list \<Rightarrow> miload_vars" where
  "miload_boot ko args =
     \<lparr>mv_params = put_rec init_grp_freq_record (after_ops ko miload_params args),
      skip_walt_result = False, flw_work_in_process = 0, flw_irq_work_lastq_ws = 0, mv_dmesg = [],
      mv_oob = False\<rparr>"

section \<open>Functions and callbacks\<close>

definition miload_debug :: "string \<Rightarrow> miload_vars \<Rightarrow> miload_vars" where
  "miload_debug msg v =
     (if pnum (mv_params v) ''flw_debug'' = 0 then v else v\<lparr>mv_dmesg := mv_dmesg v @ [msg]\<rparr>)"

definition get_group_util_call :: "int \<Rightarrow> int \<Rightarrow> miload_vars \<Rightarrow> u32 \<times> miload_vars" where
  "get_group_util_call cid grp_id v =
     (case get_group_util (parr (mv_params v) ''util_boost_percent'') cid grp_id of
        None \<Rightarrow> (0, v\<lparr>mv_oob := True\<rparr>)
      | Some boost \<Rightarrow>
          (boost, miload_debug (''flw-cluster'' @ fmt_d cid @ '', grp-id'' @ fmt_d grp_id
            @ '', util boost '' @ fmt_u (unat boost) @ [LF]) v))"

definition transfer_APP_status :: "int \<Rightarrow> int \<Rightarrow> miload_vars \<Rightarrow> miload_vars" where
  "transfer_APP_status pid status v =
     miload_debug (''pid'' @ fmt_d pid @ '' status'' @ fmt_d status @ [LF]) v"

definition mi_frame_load_ravg :: "miload_vars \<Rightarrow> miload_vars" where
  "mi_frame_load_ravg v = miload_debug (''mi_frame_load_ravg'' @ [LF]) v"

definition group_frame_cpufreq_transition :: "miload_vars \<Rightarrow> miload_vars" where
  "group_frame_cpufreq_transition v = miload_debug (''group_frame_cpufreq_transition'' @ [LF]) v"

definition skip_walt_window_update :: "miload_vars \<Rightarrow> miload_vars" where
  "skip_walt_window_update v = v\<lparr>skip_walt_result := True\<rparr>"

definition migrate_inter_cluster_fload :: "miload_vars \<Rightarrow> miload_vars" where
  "migrate_inter_cluster_fload v = miload_debug (''migrate inter cluster frame load'' @ [LF]) v"

definition mi_update_group_group :: "miload_vars \<Rightarrow> miload_vars" where
  "mi_update_group_group v = miload_debug (''mi_update_group_group'' @ [LF]) v"

definition fix_fload_in_irq :: "miload_vars \<Rightarrow> miload_vars" where
  "fix_fload_in_irq v = miload_debug (''fix_fload_in_irq'' @ [LF]) v"

definition grp_enq_boost_task :: "miload_vars \<Rightarrow> miload_vars" where
  "grp_enq_boost_task v = miload_debug (''grp_enq_boost_task'' @ [LF]) v"

definition grp_enq_boost_pipeline :: "miload_vars \<Rightarrow> miload_vars" where
  "grp_enq_boost_pipeline v = miload_debug (''grp_enq_boost_pipeline'' @ [LF]) v"

definition update_gloabal_target_period :: "miload_vars \<Rightarrow> miload_vars" where
  "update_gloabal_target_period v = miload_debug (''update global target period'' @ [LF]) v"

text \<open>The callback behind each hook.\<close>

fun miload_callback :: "miload_hook \<Rightarrow> miload_vars \<Rightarrow> miload_vars" where
  "miload_callback Mi_update_fravg = mi_frame_load_ravg"
| "miload_callback Walt_update = skip_walt_window_update"
| "miload_callback Task_group_change = grp_enq_boost_task"
| "miload_callback Mi_migrate = migrate_inter_cluster_fload"
| "miload_callback Mi_update_group_nr = mi_update_group_group"
| "miload_callback Mi_migarte_fix_fld = fix_fload_in_irq"
| "miload_callback Ui_task_detect = grp_enq_boost_pipeline"
| "miload_callback Mi_update_global_period = update_gloabal_target_period"
| "miload_callback Mi_run_frequpdate = group_frame_cpufreq_transition"

text \<open>\<open>clock\<close> is what \<open>walt_sched_clock\<close> returns.\<close>

definition flw_irq_work :: "u64 \<Rightarrow> miload_vars \<Rightarrow> miload_vars" where
  "flw_irq_work clock v = v\<lparr>flw_irq_work_lastq_ws := clock, flw_work_in_process := 0\<rparr>"

section \<open>Files and calls\<close>

definition frame_write :: "mi_load_data option \<Rightarrow> nat \<Rightarrow> miload_vars \<Rightarrow> int \<times> miload_vars" where
  "frame_write ubuf sz v =
     (case mi_frame_ioctl ubuf sz (fps_of (mv_params v)) of (ret, fps) \<Rightarrow>
        (ret, if ret < 0 then v
              else (let d = the ubuf;
                        v = miload_debug (''ioctl-cmd'' @ fmt_u (unat (ld_cmd d)) @ '',pid''
                              @ fmt_d (ld_pid d) @ '' fps'' @ fmt_u (unat (ld_fps d)) @ [LF]) v
                    in v\<lparr>mv_params := put_fps fps (mv_params v)\<rparr>)))"

definition task_write :: "string option \<Rightarrow> nat \<Rightarrow> miload_vars \<Rightarrow> int \<times> miload_vars" where
  "task_write ubuf cnt v =
     (case task_grp_id_write ubuf cnt of
        None \<Rightarrow> (0, v\<lparr>mv_oob := True\<rparr>)
      | Some ret \<Rightarrow>
          (ret, if ret < 0 then v
                else miload_debug (''traced pid '' @ fmt_d (simple_strtol (cstr (take cnt (the ubuf)))) @ [LF]) v))"

definition user_write :: "string option \<Rightarrow> nat \<Rightarrow> miload_vars \<Rightarrow> int \<times> miload_vars" where
  "user_write ubuf cnt v =
     (case user_grp_id_write ubuf cnt of
        None \<Rightarrow> (0, v\<lparr>mv_oob := True\<rparr>)
      | Some ret \<Rightarrow>
          (ret, if ret < 0 then v
                else miload_debug (''traced uid '' @ fmt_d (simple_strtol (cstr (take cnt (the ubuf)))) @ [LF]) v))"

definition task_grp_id_show :: string where
  "task_grp_id_show = ''0'' @ [LF]"

definition user_grp_id_show :: string where
  "user_grp_id_show = ''0'' @ [LF]"

definition all_group_read :: "miload_vars \<Rightarrow> string" where
  "all_group_read v = all_group_show (fps_of (mv_params v)) (skip_walt_result v)"

text \<open>Opening and closing the device do nothing; opening a proc file picks its show function.\<close>

definition mi_frame_open :: int where
  "mi_frame_open = 0"

definition mi_frame_release :: int where
  "mi_frame_release = 0"

definition miload_proc_read :: "string \<Rightarrow> miload_vars \<Rightarrow> string option" where
  "miload_proc_read name v =
     (if name = ''all_group'' then Some (all_group_read v)
      else if name = ''task_grp_id'' then Some task_grp_id_show
      else if name = ''user_grp_id'' then Some user_grp_id_show
      else None)"

definition gov_limits_call :: "gov_policy option \<Rightarrow> miload_vars \<Rightarrow> miload_vars" where
  "gov_limits_call pol v =
     (let r = cpu_gov_limits pol (rec_of (mv_params v))
      in v\<lparr>mv_params := put_rec r (mv_params v), mv_oob := mv_oob v \<or> rec_oob r\<rparr>)"

text \<open>Everything that can reach the module while it is loaded.\<close>

datatype miload_event =
    Frame_write "mi_load_data option" nat | Task_write "string option" nat
  | User_write "string option" nat | Param_write bool string string | Hook_call miload_hook
  | Irq_work u64 | Gov_limits "gov_policy option" | App_status int int | Group_util int int

fun miload_event_do :: "param_ops \<Rightarrow> miload_event \<Rightarrow> miload_vars \<Rightarrow> miload_vars" where
  "miload_event_do ko (Frame_write ubuf sz) v = snd (frame_write ubuf sz v)"
| "miload_event_do ko (Task_write ubuf cnt) v = snd (task_write ubuf cnt v)"
| "miload_event_do ko (User_write ubuf cnt) v = snd (user_write ubuf cnt v)"
| "miload_event_do ko (Param_write alloc n buf) v =
     v\<lparr>mv_params := snd (param_store ko miload_params alloc n buf (mv_params v))\<rparr>"
| "miload_event_do ko (Hook_call h) v = miload_callback h v"
| "miload_event_do ko (Irq_work clock) v = flw_irq_work clock v"
| "miload_event_do ko (Gov_limits pol) v = gov_limits_call pol v"
| "miload_event_do ko (App_status pid status) v = transfer_APP_status pid status v"
| "miload_event_do ko (Group_util cid grp) v = snd (get_group_util_call cid grp v)"

section \<open>Settings stay well typed\<close>

lemma miload_debug_keeps [simp]:
  "mv_params (miload_debug msg v) = mv_params v"
  "skip_walt_result (miload_debug msg v) = skip_walt_result v"
  "flw_work_in_process (miload_debug msg v) = flw_work_in_process v"
  "flw_irq_work_lastq_ws (miload_debug msg v) = flw_irq_work_lastq_ws v"
  "mv_oob (miload_debug msg v) = mv_oob v"
  by (simp_all add: miload_debug_def)

lemmas callback_defs = mi_frame_load_ravg_def group_frame_cpufreq_transition_def
  skip_walt_window_update_def migrate_inter_cluster_fload_def mi_update_group_group_def
  fix_fload_in_irq_def grp_enq_boost_task_def grp_enq_boost_pipeline_def
  update_gloabal_target_period_def

lemma callback_effect [simp]:
  "mv_params (miload_callback h v) = mv_params v"
  "skip_walt_result (miload_callback h v) \<longleftrightarrow> skip_walt_result v \<or> h = Walt_update"
  "mv_oob (miload_callback h v) = mv_oob v"
  by (cases h; simp add: callback_defs)+

lemma miload_members:
  "uint_param ''update_frame_fps'' 60 \<in> set miload_params"
  "array_param ''util_boost_percent'' 4 \<in> set miload_params"
  "array_param ''mi_maxfreq'' 8 \<in> set miload_params"
  "array_param ''mi_minfreq'' 8 \<in> set miload_params"
  by (simp_all add: miload_params_def)

lemma is_u32_uint [simp]: "is_u32 (uint (w :: u32))"
  using uint_lt2p [of w] by (simp add: is_u32_def)

lemma put_fps_typed: "params_typed miload_params st \<Longrightarrow> params_typed miload_params (put_fps fps st)"
  using miload_par.update_typed [OF _ miload_members(1)] by (simp add: put_fps_def)

lemma put_rec_typed:
  assumes "params_typed miload_params st"
    and "length (mi_maxfreq r) = MILOAD_MAX_CPUS" and "length (mi_minfreq r) = MILOAD_MAX_CPUS"
  shows "params_typed miload_params (put_rec r st)"
proof -
  have t: "has_type (P_array 8 False) (Arr (map uint (ws :: u32 list)) None)" if "length ws = 8" for ws
    using that by (simp add: list_all_iff)
  have "params_typed miload_params (st(''mi_maxfreq'' \<mapsto> Arr (map uint (mi_maxfreq r)) None))"
    using miload_par.update_typed [OF assms(1) miload_members(3)] t [OF assms(2)] by simp
  from miload_par.update_typed [OF this miload_members(4)] show ?thesis
    using t [OF assms(3)] by (simp add: put_rec_def)
qed

lemma parr_length:
  assumes "params_typed miload_params st" and "array_param n k \<in> set miload_params"
  shows "length (parr st n) = k"
proof -
  obtain v where "st n = Some v" "has_type (P_array k False) v"
    using miload_par.typed_value [OF assms] by auto
  then show ?thesis by (cases v) (auto simp: parr_def)
qed

lemma rec_of_lengths:
  assumes "params_typed miload_params st"
  shows "length (mi_maxfreq (rec_of st)) = MILOAD_MAX_CPUS"
    and "length (mi_minfreq (rec_of st)) = MILOAD_MAX_CPUS"
  using parr_length [OF assms] miload_members by (simp_all add: rec_of_def)

lemma gov_limits_lengths [simp]:
  "length (mi_maxfreq (cpu_gov_limits pol r)) = length (mi_maxfreq r)"
  "mi_minfreq (cpu_gov_limits pol r) = mi_minfreq r"
  by (auto simp: cpu_gov_limits_def update_freq_record_def index_defs split: option.split)

lemma gov_limits_inside:
  "length (mi_maxfreq r) = MILOAD_MAX_CPUS \<Longrightarrow> rec_oob (cpu_gov_limits pol r) = rec_oob r"
  by (auto simp: cpu_gov_limits_def update_freq_record_def index_defs split: option.split)

lemma group_util_inside:
  "length boosts = MILOAD_MAX_CLUSTERS \<Longrightarrow>
     get_group_util boosts cid grp =
       Some (if 0 \<le> cid \<and> cid < int MILOAD_MAX_CLUSTERS then boosts ! nat cid else 0)"
  by (auto simp: get_group_util_def at_index_def)

lemma id_write_inside: "task_grp_id_write ubuf cnt \<noteq> None" "user_grp_id_write ubuf cnt \<noteq> None"
  by (auto simp: task_grp_id_write_def user_grp_id_write_def local_buf_def put_index_def Let_def
      split: option.split)

lemma event_typed:
  assumes "param_ops_ok ko" and "params_typed miload_params (mv_params v)"
  shows "params_typed miload_params (mv_params (miload_event_do ko e v))"
proof (cases e)
  case (Frame_write ubuf sz)
  then show ?thesis
    using assms(2) put_fps_typed by (auto simp: frame_write_def Let_def split: prod.split)
next
  case (Param_write alloc n buf)
  then show ?thesis
    using miload_par.do_typed [OF assms, of "Store alloc n buf"] by simp
next
  case (Gov_limits pol)
  then show ?thesis
    using put_rec_typed [OF assms(2)] rec_of_lengths [OF assms(2)] by (simp add: gov_limits_call_def Let_def)
qed (use assms in \<open>simp_all add: task_write_def user_write_def flw_irq_work_def
      transfer_APP_status_def get_group_util_call_def split: option.split\<close>)

lemma boot_typed: "param_ops_ok ko \<Longrightarrow> params_typed miload_params (mv_params (miload_boot ko args))"
  unfolding miload_boot_def miload_vars.simps
  by (rule put_rec_typed [OF after_ops_typed [OF _ miload_par.kernel_params_axioms]])
    (simp_all add: init_grp_freq_record_def)

lemma run_typed:
  assumes "param_ops_ok ko"
  shows "params_typed miload_params (mv_params (fold (miload_event_do ko) evs (miload_boot ko args)))"
proof -
  have "params_typed miload_params (mv_params v) \<Longrightarrow>
      params_typed miload_params (mv_params (fold (miload_event_do ko) evs v))" for v
    by (induction evs arbitrary: v) (simp_all add: event_typed [OF assms])
  then show ?thesis using boot_typed [OF assms] by blast
qed

text \<open>No event makes an access outside an array when the arrays have their sizes.\<close>

lemma event_inside:
  assumes "params_typed miload_params (mv_params v)"
  shows "mv_oob (miload_event_do ko e v) = mv_oob v"
proof (cases e)
  case (Frame_write ubuf sz)
  then show ?thesis by (auto simp: frame_write_def Let_def split: prod.split)
next
  case (Gov_limits pol)
  then show ?thesis
    using gov_limits_inside [OF rec_of_lengths(1) [OF assms]]
    by (simp add: gov_limits_call_def Let_def) (simp add: rec_of_def)
next
  case (Group_util cid grp)
  then show ?thesis
    using group_util_inside [OF parr_length [OF assms miload_members(2)]]
    by (simp add: get_group_util_call_def)
next
  case (Task_write ubuf cnt)
  then show ?thesis using id_write_inside(1) [of ubuf cnt] by (auto simp: task_write_def split: if_splits)
next
  case (User_write ubuf cnt)
  then show ?thesis using id_write_inside(2) [of ubuf cnt] by (auto simp: user_write_def split: if_splits)
qed (simp_all add: flw_irq_work_def transfer_APP_status_def)

text \<open>C28: the running module stays inside its arrays. Whatever arguments it was loaded with and
  whatever then reaches it, in whatever order (writes of any length to its proc files and its
  device, any text to any parameter, governor callbacks for any CPU, questions for any cluster
  number), no call reads or writes outside \<open>util_boost_percent\<close>, \<open>mi_maxfreq\<close> or the local
  buffers of 32 bytes: the tests in \<open>get_group_util\<close>, \<open>update_freq_record\<close> and the two write
  handlers are enough.\<close>

theorem miload_indexes_safe:
  assumes "param_ops_ok ko"
  shows "\<not> mv_oob (fold (miload_event_do ko) evs (miload_boot ko args))"
proof -
  have "mv_oob (fold (miload_event_do ko) evs v) = mv_oob v" if "params_typed miload_params (mv_params v)" for v
    using that by (induction evs arbitrary: v) (simp_all add: event_typed [OF assms] event_inside)
  from this [OF boot_typed [OF assms]] show ?thesis by (simp add: miload_boot_def)
qed

theorem miload_indexes_safe_witness:
  "\<not> mv_oob (fold (miload_event_do ko_first)
     [Group_util 4 0, Group_util (- 1) 7, Task_write (Some ''12'') 32, User_write None 31,
      Gov_limits (Some \<lparr>gp_cpu = 8, gp_cur = 5, gp_cpus = [8], governor_data = None\<rparr>)]
     (miload_boot ko_first []))"
  by (rule miload_indexes_safe [OF ko_first_ok])

section \<open>The frame rate has one value\<close>

text \<open>The specification: the frame rate is a number that two interfaces set.\<close>

fun spec_fps :: "miload_event \<Rightarrow> u32 \<Rightarrow> u32" where
  "spec_fps (Frame_write (Some d) sz) fps =
     (if sz = sizeof_mi_load_data \<and> ld_fps d \<noteq> 0 then ld_fps d else fps)"
| "spec_fps (Param_write alloc n buf) fps =
     (if n = ''update_frame_fps''
      then (case kstrtouint (cstr buf) of Inl _ \<Rightarrow> fps | Inr x \<Rightarrow> of_nat x) else fps)"
| "spec_fps _ fps = fps"

lemma fps_put [simp]: "fps_of (put_fps fps st) = fps" "fps_of (put_rec r st) = fps_of st"
  by (simp_all add: fps_of_def put_fps_def put_rec_def)

lemma fps_store:
  assumes "param_ops_ok ko" and "params_typed miload_params st"
  shows "fps_of (snd (param_store ko miload_params alloc n buf st)) =
    spec_fps (Param_write alloc n buf) (fps_of st)"
proof (cases "n = ''update_frame_fps''")
  case True
  obtain old where old: "st ''update_frame_fps'' = Some old"
    using miload_par.typed_value [OF assms(2) miload_members(1)] by auto
  have "param_of miload_params ''update_frame_fps'' = Some (uint_param ''update_frame_fps'' 60)"
    using miload_par.param_of_mem [OF miload_members(1)] by simp
  then show ?thesis
    using True old ops_uint [OF assms(1)]
    by (simp add: param_store_def param_assign_def writable_def set_num_def fps_of_def pnum_def
        split: sum.split)
next
  case False
  then have "snd (param_store ko miload_params alloc n buf st) ''update_frame_fps'' =
      st ''update_frame_fps''"
    using miload_par.do_other [of "Store alloc n buf" "''update_frame_fps''" ko st] by simp
  then show ?thesis using False by (simp add: fps_of_def pnum_def)
qed

lemma event_fps:
  assumes "param_ops_ok ko" and "params_typed miload_params (mv_params v)"
  shows "fps_of (mv_params (miload_event_do ko e v)) = spec_fps e (fps_of (mv_params v))"
proof (cases e)
  case (Frame_write ubuf sz)
  then show ?thesis
    by (cases ubuf) (simp_all add: frame_write_def mi_frame_ioctl_def Let_def)
next
  case (Param_write alloc n buf)
  then show ?thesis using fps_store [OF assms] by simp
qed (simp_all add: task_write_def user_write_def Let_def flw_irq_work_def gov_limits_call_def
      transfer_APP_status_def get_group_util_call_def split: option.split)

lemma event_skip:
  "skip_walt_result (miload_event_do ko e v) \<longleftrightarrow> skip_walt_result v \<or> e = Hook_call Walt_update"
  by (cases e) (auto simp: frame_write_def task_write_def user_write_def Let_def flw_irq_work_def
      gov_limits_call_def transfer_APP_status_def get_group_util_call_def split: prod.split option.split)

lemma run_fps_skip:
  assumes "param_ops_ok ko" and "params_typed miload_params (mv_params v)"
  shows "fps_of (mv_params (fold (miload_event_do ko) evs v)) = fold spec_fps evs (fps_of (mv_params v)) \<and>
    (skip_walt_result (fold (miload_event_do ko) evs v) \<longleftrightarrow>
       skip_walt_result v \<or> Hook_call Walt_update \<in> set evs)"
  using assms(2)
proof (induction evs arbitrary: v)
  case (Cons e evs)
  then show ?case using Cons.IH [OF event_typed [OF assms(1) Cons.prems]] event_fps [OF assms(1) Cons.prems]
    by (auto simp: event_skip)
qed simp

text \<open>C20: the frame rate is one number. Whatever reaches the module in whatever order, its frame
  rate is the one a specification computes that only looks at complete writes to the device with
  a rate other than 0 and at numbers written to the parameter file; the group file shows this
  rate, and 1 as its other number exactly when the scheduler has called the window hook.\<close>

theorem frame_rate_refines:
  assumes "param_ops_ok ko"
  shows "miload_proc_read ''all_group'' (fold (miload_event_do ko) evs (miload_boot ko args)) =
     Some (all_group_show (fold spec_fps evs (fps_of (after_ops ko miload_params args)))
       (Hook_call Walt_update \<in> set evs))"
  using run_fps_skip [OF assms boot_typed [OF assms], of evs args]
  by (simp add: miload_proc_read_def all_group_read_def) (simp add: miload_boot_def)

theorem frame_rate_refines_witness:
  "miload_proc_read ''all_group'' (fold (miload_event_do ko_first)
     [Frame_write (Some \<lparr>ld_cmd = 1, ld_pid = 2, ld_fps = 90,
        ld_period = 0, ld_pred_period = 0\<rparr>) sizeof_mi_load_data,
      Frame_write None 4, Hook_call Walt_update] (miload_boot ko_first [])) = Some (all_group_show 90 True)"
  using frame_rate_refines [OF ko_first_ok, of "[Frame_write (Some \<lparr>ld_cmd = 1, ld_pid = 2, ld_fps = 90,
        ld_period = 0, ld_pred_period = 0\<rparr>)
     sizeof_mi_load_data, Frame_write None 4, Hook_call Walt_update]" "[]"] by simp

section \<open>Boosts and records\<close>

text \<open>The boost file. At any time, writing a list of up to four numbers to
  \<open>util_boost_percent\<close> makes them the boosts of the first clusters, in order; the boosts of the
  other clusters stay, and a cluster number outside the table has none.\<close>

theorem boost_file_sets_clusters:
  fixes ko :: param_ops and args :: "param_op list" and evs :: "miload_event list"
    and vs :: "int list"
  assumes "vs \<noteq> []" and "list_all is_u32 vs" and "length vs \<le> MILOAD_MAX_CLUSTERS" and "param_ops_ok ko"
  defines "v \<equiv> fold (miload_event_do ko) evs (miload_boot ko args)"
  defines "v' \<equiv> miload_event_do ko (Param_write True ''util_boost_percent'' (join_nums vs)) v"
  shows "fst (get_group_util_call cid grp v') =
    (if 0 \<le> cid \<and> cid < int (length vs) then of_int (vs ! nat cid)
     else fst (get_group_util_call cid grp v))"
proof -
  have typed: "params_typed miload_params (mv_params v)" unfolding v_def by (rule run_typed [OF assms(4)])
  obtain w where "mv_params v ''util_boost_percent'' = Some w" "has_type (P_array 4 False) w"
    using miload_par.typed_value [OF typed miload_members(2)] by auto
  then obtain ys where ys: "mv_params v ''util_boost_percent'' = Some (Arr ys None)" "length ys = 4"
    by (cases w) (auto split: option.splits)
  have "mv_params v' = (mv_params v)(''util_boost_percent'' \<mapsto> Arr (vs @ drop (length vs) ys) None)"
    using miload_par.store_list [OF assms(4) miload_members(2) _ typed _ _ assms(1,2), of 4 False ys None True]
      assms(3) ys by (simp add: v'_def writable_def)
  moreover have "parr (mv_params v) ''util_boost_percent'' = map of_int ys"
    using ys(1) by (simp add: parr_def)
  ultimately show ?thesis
    using assms(3) ys(2)
    by (auto simp: get_group_util_call_def get_group_util_def at_index_def nth_append split: option.split)
qed

theorem boost_file_sets_clusters_witness:
  "fst (get_group_util_call 1 0 (miload_event_do ko_first
     (Param_write True ''util_boost_percent'' (join_nums [10, 20])) (miload_boot ko_first []))) = 20"
  using boost_file_sets_clusters [of "[10, 20]" ko_first 1 0 "[]" "[]"] ko_first_ok by (simp add: is_u32_def)

text \<open>The records start at 0 also when the command line sets them: the arguments are assigned
  before init clears the arrays.\<close>

lemma record_arguments_lost: "rec_of (mv_params (miload_boot ko args)) = init_grp_freq_record"
  by (simp add: miload_boot_def rec_of_def put_rec_def init_grp_freq_record_def parr_def)

end
