(* ===== verification/Mist.thy ===== *)
theory Mist
  imports Hook_Registry
begin

text \<open>
  The hooks of \<open>mist.c\<close>: two callbacks that can be registered and unregistered and one, for the
  SoC frequency, that can only be registered. The other functions of the module are stubs.
\<close>

datatype mist_slot = Mist_soc_freq_update_hook | Mist_dflt_bw_update_cb | Mist_dflt_lat_update_cb

record mist =
  mist_slots :: "mist_slot \<Rightarrow> hook"
  mist_enabled :: int

definition mist_store_hook :: "mist_slot \<Rightarrow> hook \<Rightarrow> mist \<Rightarrow> int \<times> mist" where
  "mist_store_hook sl hk s = (0, s\<lparr>mist_slots := (mist_slots s)(sl := hk)\<rparr>)"

definition mi_soc_register_freq_adjhook :: "hook \<Rightarrow> mist \<Rightarrow> int \<times> mist" where
  "mi_soc_register_freq_adjhook hk s = mist_store_hook Mist_soc_freq_update_hook hk s"

definition register_mi_dflt_bw_update_cb :: "hook \<Rightarrow> mist \<Rightarrow> int \<times> mist" where
  "register_mi_dflt_bw_update_cb hk s = mist_store_hook Mist_dflt_bw_update_cb hk s"

definition register_mi_dflt_lat_update_cb :: "hook \<Rightarrow> mist \<Rightarrow> int \<times> mist" where
  "register_mi_dflt_lat_update_cb hk s = mist_store_hook Mist_dflt_lat_update_cb hk s"

definition unregister_mi_dflt_bw_update_cb :: "mist \<Rightarrow> int \<times> mist" where
  "unregister_mi_dflt_bw_update_cb s = mist_store_hook Mist_dflt_bw_update_cb None s"

definition unregister_mi_dflt_lat_update_cb :: "mist \<Rightarrow> int \<times> mist" where
  "unregister_mi_dflt_lat_update_cb s = mist_store_hook Mist_dflt_lat_update_cb None s"

definition mist_init :: "mist \<Rightarrow> int \<times> mist" where
  "mist_init s = (0, s\<lparr>mist_enabled := 1\<rparr>)"

fun mist_register :: "mist_slot \<Rightarrow> hook \<Rightarrow> mist \<Rightarrow> int \<times> mist" where
  "mist_register Mist_soc_freq_update_hook = mi_soc_register_freq_adjhook"
| "mist_register Mist_dflt_bw_update_cb = register_mi_dflt_bw_update_cb"
| "mist_register Mist_dflt_lat_update_cb = register_mi_dflt_lat_update_cb"

fun mist_unregister :: "mist_slot \<Rightarrow> (mist \<Rightarrow> int \<times> mist) option" where
  "mist_unregister Mist_soc_freq_update_hook = None"
| "mist_unregister Mist_dflt_bw_update_cb = Some unregister_mi_dflt_bw_update_cb"
| "mist_unregister Mist_dflt_lat_update_cb = Some unregister_mi_dflt_lat_update_cb"

lemma mist_register_eq: "mist_register sl hk s = mist_store_hook sl hk s"
  by (cases sl) (simp_all add: mi_soc_register_freq_adjhook_def register_mi_dflt_bw_update_cb_def
      register_mi_dflt_lat_update_cb_def)

lemma mist_unregister_eq:
  "mist_unregister sl =
     (if sl = Mist_soc_freq_update_hook then None else Some (mist_store_hook sl None))"
  by (cases sl) (simp_all add: unregister_mi_dflt_bw_update_cb_def
      unregister_mi_dflt_lat_update_cb_def fun_eq_iff)

interpretation mist_reg: hook_registry mist_register mist_unregister "\<lambda>_ s. s" mist_slots
  "\<lambda>_. True" "\<lambda>_. True"
  by unfold_locales
    (auto simp: mist_register_eq mist_unregister_eq mist_store_hook_def split: if_splits)

text \<open>The SoC frequency hook cannot be taken back. Under any operations the exported
  interface of Mist offers, other than registering that hook again, a callback installed there
  stays; the other two slots behave as a map.\<close>

theorem mist_hooks_refine_map:
  fixes s :: mist
  assumes "\<forall>p \<in> set ops. \<not> is_switch p"
  defines "s' \<equiv> fold (hook_do mist_register mist_unregister (\<lambda>_ s. s)) ops s"
  shows "mist_slots s' = fold (spec_hook (\<lambda>_. True) (\<lambda>sl. sl \<noteq> Mist_soc_freq_update_hook)) ops
      (mist_slots s)
    \<and> ((\<forall>cb. Reg Mist_soc_freq_update_hook cb \<notin> set ops) \<longrightarrow>
         mist_slots s' Mist_soc_freq_update_hook = mist_slots s Mist_soc_freq_update_hook)"
proof -
  have "removable mist_unregister = (\<lambda>sl. sl \<noteq> Mist_soc_freq_update_hook)"
    by (auto simp: fun_eq_iff removable_def mist_unregister_eq)
  then have eq: "mist_slots s' =
      fold (spec_hook (\<lambda>_. True) (\<lambda>sl. sl \<noteq> Mist_soc_freq_update_hook)) ops (mist_slots s)"
    using mist_reg.refines_map [OF _ assms(1), of s] by (simp add: s'_def)
  have "fold (spec_hook (\<lambda>_. True) (\<lambda>sl. sl \<noteq> Mist_soc_freq_update_hook)) ops m
      Mist_soc_freq_update_hook = m Mist_soc_freq_update_hook"
    if "\<forall>cb. Reg Mist_soc_freq_update_hook cb \<notin> set ops" for m
    using that
  proof (induction ops arbitrary: m)
    case (Cons p ops)
    then show ?case by (cases p) auto
  qed simp
  then show ?thesis using eq by simp
qed

theorem mist_hooks_refine_map_witness:
  "mist_slots (fold (hook_do mist_register mist_unregister (\<lambda>_ s. s))
     [Unreg Mist_soc_freq_update_hook] \<lparr>mist_slots = (\<lambda>_. Some 3), mist_enabled = 1\<rparr>)
     Mist_soc_freq_update_hook = Some 3"
  using mist_hooks_refine_map [of "[Unreg Mist_soc_freq_update_hook]"
      "\<lparr>mist_slots = (\<lambda>_. Some 3), mist_enabled = 1\<rparr>"]
  by (simp add: is_switch_def)

end
