(* ===== verification/Module_Exports.thy ===== *)
theory Module_Exports
  imports Mist Miloadtrace
begin

text \<open>
  The symbols the scheduler modules export. \<open>metis.c\<close>, \<open>mist.c\<close>, \<open>mi_schedule.c\<close> and
  \<open>xiaomi_hooks.c\<close> offer 264 symbols to other modules: variables, functions that store or clear
  a hook, functions that hand out a static object, and functions that do nothing and return 0 or
  nothing. A table has the symbols of a file in the order of the source, each with what its body
  does; \<open>call_export\<close> is a call through the symbol table.

  The locale \<open>exported_hooks\<close> extends the contract of a hook registry to everything a module can
  call: whatever symbols it calls with whatever arguments, the hooks are those the registry
  promises, and nothing else has an effect. The four tables interpret it. The last section
  resolves the extern declarations of \<open>miloadtrace.c\<close> through the tables and gets the functions
  the model of that module is composed with.
\<close>

section \<open>Symbols and calls\<close>

datatype 'sl export = Sets 'sl | Clears 'sl | Const int | Void | Address string | Variable

datatype answer = Value int | Nothing | Pointer string

text \<open>What a symbol does as an operation on the registry.\<close>

fun export_ops :: "'sl export \<Rightarrow> hook \<Rightarrow> 'sl hook_op list" where
  "export_ops (Sets sl) cb = [Reg sl cb]"
| "export_ops (Clears sl) cb = [Unreg sl]"
| "export_ops _ cb = []"

fun run_export ::
  "('sl \<Rightarrow> hook \<Rightarrow> 'st \<Rightarrow> int \<times> 'st) \<Rightarrow> ('sl \<Rightarrow> ('st \<Rightarrow> int \<times> 'st) option) \<Rightarrow>
     'sl export \<Rightarrow> hook \<Rightarrow> 'st \<Rightarrow> (answer \<times> 'st) option" where
  "run_export reg unreg (Sets sl) cb s = Some (map_prod Value id (reg sl cb s))"
| "run_export reg unreg (Clears sl) cb s = map_option (\<lambda>f. map_prod Value id (f s)) (unreg sl)"
| "run_export reg unreg (Const c) cb s = Some (Value c, s)"
| "run_export reg unreg Void cb s = Some (Nothing, s)"
| "run_export reg unreg (Address obj) cb s = Some (Pointer obj, s)"
| "run_export reg unreg Variable cb s = None"

text \<open>\<open>None\<close> when no function of that name is exported.\<close>

definition call_export ::
  "('sl \<Rightarrow> hook \<Rightarrow> 'st \<Rightarrow> int \<times> 'st) \<Rightarrow> ('sl \<Rightarrow> ('st \<Rightarrow> int \<times> 'st) option) \<Rightarrow>
     (string \<times> 'sl export) list \<Rightarrow> string \<Rightarrow> hook \<Rightarrow> 'st \<Rightarrow> (answer \<times> 'st) option" where
  "call_export reg unreg exports name cb s =
     Option.bind (map_of exports name) (\<lambda>e. run_export reg unreg e cb s)"

definition export_do ::
  "('sl \<Rightarrow> hook \<Rightarrow> 'st \<Rightarrow> int \<times> 'st) \<Rightarrow> ('sl \<Rightarrow> ('st \<Rightarrow> int \<times> 'st) option) \<Rightarrow>
     (string \<times> 'sl export) list \<Rightarrow> string \<times> hook \<Rightarrow> 'st \<Rightarrow> 'st" where
  "export_do reg unreg exports c s =
     (case call_export reg unreg exports (fst c) (snd c) s of None \<Rightarrow> s | Some r \<Rightarrow> snd r)"

definition call_ops :: "(string \<times> 'sl export) list \<Rightarrow> (string \<times> hook) list \<Rightarrow> 'sl hook_op list" where
  "call_ops exports calls =
     concat (map (\<lambda>(name, cb). case map_of exports name of None \<Rightarrow> [] | Some e \<Rightarrow> export_ops e cb) calls)"

section \<open>The contract\<close>

locale exported_hooks = hook_registry reg unreg switch slot live accepts
  for reg :: "'s \<Rightarrow> hook \<Rightarrow> 'st \<Rightarrow> int \<times> 'st"
    and unreg :: "'s \<Rightarrow> ('st \<Rightarrow> int \<times> 'st) option"
    and switch :: "bool \<Rightarrow> 'st \<Rightarrow> 'st"
    and slot :: "'st \<Rightarrow> 's \<Rightarrow> hook"
    and live :: "'st \<Rightarrow> bool"
    and accepts :: "hook \<Rightarrow> bool" +
  fixes exports :: "(string \<times> 's export) list"
  assumes clears_removable: "(name, Clears sl) \<in> set exports \<Longrightarrow> unreg sl \<noteq> None"
    and constants_zero: "(name, Const c) \<in> set exports \<Longrightarrow> c = 0"
begin

lemma run_state:
  "(case run_export reg unreg e cb s of None \<Rightarrow> s | Some r \<Rightarrow> snd r) =
    fold (hook_do reg unreg switch) (export_ops e cb) s"
  by (cases e) (simp_all split: option.split)

lemma calls_state:
  "fold (export_do reg unreg exports) calls s = fold (hook_do reg unreg switch) (call_ops exports calls) s"
proof (induction calls arbitrary: s)
  case (Cons c calls)
  obtain name cb where c: "c = (name, cb)" by fastforce
  have "export_do reg unreg exports c s = fold (hook_do reg unreg switch)
      (case map_of exports name of None \<Rightarrow> [] | Some e \<Rightarrow> export_ops e cb) s"
    by (cases "map_of exports name") (simp_all add: c export_do_def call_export_def run_state)
  then show ?case using Cons by (simp add: c call_ops_def)
qed (simp add: call_ops_def)

lemma call_ops_no_switch: "p \<in> set (call_ops exports calls) \<Longrightarrow> \<not> is_switch p"
proof -
  have "p \<in> set (export_ops e cb) \<Longrightarrow> \<not> is_switch p" for e cb
    by (cases e) (auto simp: is_switch_def)
  then show "p \<in> set (call_ops exports calls) \<Longrightarrow> \<not> is_switch p"
    by (auto simp: call_ops_def split: option.splits)
qed

text \<open>Any sequence of calls by any modules refines the map.\<close>

lemma calls_refine:
  "live s \<Longrightarrow> slot (fold (export_do reg unreg exports) calls s) =
     fold (spec_hook accepts (removable unreg)) (call_ops exports calls) (slot s)"
  using refines_map [of s "call_ops exports calls"] call_ops_no_switch by (simp add: calls_state)

lemma calls_off:
  "\<not> live s \<Longrightarrow> slot s sl = None \<Longrightarrow> slot (fold (export_do reg unreg exports) calls s) sl = None"
  using off_stays_empty [of s sl "call_ops exports calls"] call_ops_no_switch
  by (simp add: calls_state)

text \<open>A symbol that does not store or clear a hook has no effect at all.\<close>

lemma stub_inert:
  assumes "\<And>sl. map_of exports name \<noteq> Some (Sets sl)" and "\<And>sl. map_of exports name \<noteq> Some (Clears sl)"
  shows "export_do reg unreg exports (name, cb) s = s"
proof (cases "map_of exports name")
  case (Some e)
  then show ?thesis using assms by (cases e) (auto simp: export_do_def call_export_def)
qed (simp add: export_do_def call_export_def)

text \<open>A call that returns a number returns 0, unless a registration was refused.\<close>

lemma call_value:
  assumes "call_export reg unreg exports name cb s = Some (Value v, s')"
  shows "v = 0 \<or> \<not> accepts cb \<and> (\<exists>sl. map_of exports name = Some (Sets sl))"
proof -
  obtain e where e: "map_of exports name = Some e" "run_export reg unreg e cb s = Some (Value v, s')"
    using assms by (auto simp: call_export_def bind_eq_Some_conv)
  show ?thesis
  proof (cases e)
    case (Sets sl)
    then show ?thesis using e reg_ret [of sl cb s] by (auto simp: map_prod_def split: prod.splits)
  next
    case (Clears sl)
    then obtain f where "unreg sl = Some f" "v = fst (f s)" using e by (auto simp: map_prod_def case_prod_beta)
    then show ?thesis using unreg_ret by simp
  next
    case (Const c)
    then show ?thesis using e constants_zero map_of_SomeD [OF e(1)] by auto
  qed (use e in auto)
qed

end

section \<open>The tables\<close>

definition metis_exported_data :: "(string \<times> metis_slot export) list" where
  "metis_exported_data =
    [(''mi_try_to_wake_up_func'', Variable), (''in_perf_mod'', Variable),
     (''perf_min_freq'', Variable), (''choose_cpu_overutiled'', Variable),
     (''show_traced_uid'', Variable), (''flt_enable_other'', Variable), (''ui_run_cpu'', Variable),
     (''render_run_cpu'', Variable), (''speed_touch_producer_in_boost'', Variable),
     (''speed_touch_consumer_in_boost'', Variable), (''mi_walt_get_indicies_func'', Variable),
     (''wake_render_func'', Variable), (''mi_enqueue_task_fair_func'', Variable),
     (''mi_dequeue_task_fair_func'', Variable), (''low_frame_op'', Variable),
     (''get_cpu_util_without'', Variable), (''in_scroll'', Variable),
     (''metis_runqueues'', Variable), (''metis_lb_check_for_higher_capacity'', Variable),
     (''metis_lb_cpu_overutilized'', Variable), (''metis_lb_cpu_halt_mask'', Variable),
     (''metis_lb_cpu_array'', Variable), (''metis_lb_min_possible_cluster_id'', Variable),
     (''get_cpu_util'', Variable)]"

definition metis_exports_1 :: "(string \<times> metis_slot export) list" where
  "metis_exports_1 =
    [(''register_game_binder_f'', Sets Game_binder_f_ptr),
     (''unregister_game_binder_f'', Clears Game_binder_f_ptr), (''mi_resched_vip_task'', Const 0),
     (''mi_lock_vip_task'', Const 0), (''mi_binder_vip_task'', Const 0),
     (''mi_link_vip_task'', Const 0), (''mi_mutex_list_add_hook'', Const 0),
     (''mi_art_mutex_vip_task'', Const 0),
     (''register_rvh_mi_try_to_wake_up'', Sets Rvh_mi_try_to_wake_up_ptr),
     (''unregister_rvh_mi_try_to_wake_up'', Clears Rvh_mi_try_to_wake_up_ptr),
     (''metis_link_init'', Const 0), (''metis_link_exit'', Const 0),
     (''mi_select_task_rq_hook'', Const 0), (''clu_aff_init'', Const 0),
     (''clu_aff_exit'', Const 0), (''register_corectl_boost_hook'', Sets Corectl_boost_hook_ptr),
     (''register_update_perflock_freq_hook'', Sets Update_perflock_freq_hook_ptr),
     (''register_get_perflock_last_freqs_hook'', Sets Get_perflock_last_freqs_hook_ptr),
     (''cpu_to_cluster'', Const 0), (''trigger_fboost_work'', Const 0),
     (''del_cluster'', Const 0)]"

definition metis_exports_2 :: "(string \<times> metis_slot export) list" where
  "metis_exports_2 =
    [(''boost_cluster'', Const 0), (''restore_boost_cluster'', Const 0),
     (''store_boost_cluster'', Const 0), (''get_frmboost_sta_hook'', Const 0),
     (''oem_rvh_try_to_wake_up_success'', Const 0), (''oem_should_update_freq'', Const 0),
     (''metis_fboost_init'', Const 0), (''metis_fboost_exit'', Const 0),
     (''register_game_metis_skip_cpus_hook'', Sets Game_metis_skip_cpus_hook_ptr),
     (''unregister_game_metis_skip_cpus_hook'', Clears Game_metis_skip_cpus_hook_ptr),
     (''set_prefer_cluster_with_check'', Const 0), (''set_prefer_cpu_with_check'', Const 0),
     (''get_mi_fboost_enable'', Const 0), (''mi_disable_qcom_pipeline'', Const 0),
     (''get_mi_link_boost_enable'', Const 0), (''in_interest_input_event'', Const 0),
     (''fas_sched_clock'', Const 0), (''mi_interface_set_dynamic_vip_task'', Const 0),
     (''mi_interface_restore_dynamic_vip_task'', Const 0), (''mi_set_fas_req'', Const 0),
     (''mi_clean_fas_req'', Const 0)]"

definition metis_exports_3 :: "(string \<times> metis_slot export) list" where
  "metis_exports_3 =
    [(''mi_check_preempt_wakeup_hook'', Const 0),
     (''register_mi_enqueue_entity_hook'', Sets Mi_enqueue_entity_hook_ptr),
     (''unregister_mi_enqueue_entity_hook'', Clears Mi_enqueue_entity_hook_ptr),
     (''speed_touch_store_freq'', Const 0), (''speed_touch_restore_freq'', Const 0),
     (''mi_enqueue_task_fair_hook'', Const 0), (''mi_dequeue_task_fair_hook'', Const 0),
     (''mi_pick_next_task_fair_hook'', Const 0), (''get_foreground_uid'', Const 0),
     (''set_foreground_app'', Const 0),
     (''register_mi_enqueue_task_fair_hook'', Sets Mi_enqueue_task_fair_hook_ptr),
     (''unregister_mi_enqueue_task_fair_hook'', Clears Mi_enqueue_task_fair_hook_ptr),
     (''sched_boost_should_disable'', Const 0), (''mi_ui_task'', Const 0),
     (''mi_render_task'', Const 0), (''mi_vip_task'', Const 0), (''mi_ui_pipeline'', Const 0),
     (''mi_render_pipeline'', Const 0), (''set_mi_rq_balance_irq_task'', Const 0),
     (''walt_mi_irq_task_rq_balance_hook'', Const 0), (''get_vtask_monitor_status'', Const 0)]"

definition metis_exports_4 :: "(string \<times> metis_slot export) list" where
  "metis_exports_4 =
    [(''mi_lb_enable'', Const 0), (''register_mi_lb_detect_func'', Sets Mi_lb_detect_func_ptr),
     (''unregister_mi_lb_detect_func'', Clears Mi_lb_detect_func_ptr),
     (''metis_choose_cpu_fastpath'', Const 0),
     (''register_ui_task_detect'', Sets Ui_task_detect_ptr),
     (''register_render_task_detect'', Sets Render_task_detect_ptr),
     (''register_vip_task_detect'', Sets Vip_task_detect_ptr),
     (''unregister_ui_task_detect'', Clears Ui_task_detect_ptr),
     (''unregister_render_task_detect'', Clears Render_task_detect_ptr),
     (''unregister_vip_task_detect'', Clears Vip_task_detect_ptr),
     (''register_mi_walt_get_indicies'', Sets Mi_walt_get_indicies_ptr),
     (''unregister_mi_walt_get_indicies'', Clears Mi_walt_get_indicies_ptr),
     (''register_mi_find_energy_efficient_cpu'', Sets Mi_find_energy_efficient_cpu_ptr),
     (''unregister_mi_find_energy_efficient_cpu'', Clears Mi_find_energy_efficient_cpu_ptr),
     (''register_mi_dequeue_task_fair_hook'', Sets Mi_dequeue_task_fair_hook_ptr),
     (''unregister_mi_dequeue_task_fair_hook'', Clears Mi_dequeue_task_fair_hook_ptr),
     (''register_mi_sched_enable'', Sets Mi_sched_enable_ptr),
     (''unregister_mi_sched_enable'', Clears Mi_sched_enable_ptr),
     (''register_choose_cpu_overutiled'', Sets Choose_cpu_overutiled_ptr),
     (''unregister_choose_cpu_overutiled'', Clears Choose_cpu_overutiled_ptr),
     (''register_override_schedboost'', Sets Override_schedboost_ptr)]"

definition metis_exports_5 :: "(string \<times> metis_slot export) list" where
  "metis_exports_5 =
    [(''unregister_override_schedboost'', Clears Override_schedboost_ptr),
     (''get_metis_limit'', Const 0), (''get_fboost_duration'', Const 0),
     (''metis_update_top_task_info'', Const 0), (''rq_deadloop_detect'', Const 0),
     (''mi_scheduler_tick_hook'', Const 0), (''mi_schedule_hook'', Const 0),
     (''metis_doublecyc_init'', Const 0), (''metis_doublecyc_exit'', Const 0),
     (''metis_lb_pull_tasks'', Const 0), (''metis_lb_find_busiest_cpu'', Const 0),
     (''metis_lb_init'', Const 0), (''metis_lb_exit'', Const 0),
     (''metis_tp_is_vip_task'', Const 0), (''metis_tp_mi_viptask_balance'', Const 0),
     (''metis_tp_check_cpu_layered_load'', Const 0)]"

definition metis_exports_6 :: "(string \<times> metis_slot export) list" where
  "metis_exports_6 =
    [(''metis_tp_fixup_cumulative_runnable_avg_hook'', Const 0),
     (''metis_tp_walt_find_best_target_hook'', Const 0), (''metis_tp_init'', Const 0),
     (''metis_tp_exit'', Const 0), (''metis_schlat_schedule_hook'', Const 0),
     (''metis_schlat_dequeue_entity_hook'', Const 0), (''metis_schlat_init'', Const 0),
     (''metis_schlat_exit'', Const 0), (''mi_wake_up_new_task_hook'', Const 0),
     (''in_coldstart'', Const 0), (''coldstart_app_tasks'', Const 0),
     (''metis_coldstart_skip_thiscpu_rt'', Const 0), (''metis_coldstart_spread_rt_task'', Const 0),
     (''metis_coldstart_rt_find_lowest_rq'', Const 0), (''metis_coldstart_skip_lb'', Const 0),
     (''metis_wakeup_cold_start_skip_ui_cpumask'', Const 0),
     (''metis_wakeup_cold_start_skip_ui_cpu'', Const 0), (''walt_do_sched_yield_hook'', Const 0),
     (''metis_set_common_persist_vip'', Const 0), (''metis_common_api_init'', Const 0),
     (''metis_common_api_exit'', Const 0)]"

definition mist_exports_1 :: "(string \<times> mist_slot export) list" where
  "mist_exports_1 =
    [(''dlft_get_latency'', Const 0), (''get_adreno_gflt_load'', Const 0),
     (''get_gpubw_gflt_load'', Const 0), (''gpu_load_calibration'', Void),
     (''gpubw_load_calibration'', Void), (''mi_dflt_bwmon_update_cur_freq_hook'', Void),
     (''mi_dflt_calculate_dflt_lantancy_hook'', Void),
     (''mi_dflt_calculate_mon_sampling_freq_hook'', Void), (''mi_dflt_get_bwmon_enable'', Const 0),
     (''mi_dflt_get_bwmon_sample_start'', Const 0), (''mi_dflt_get_ddr_frame_load'', Const 0),
     (''mi_dflt_get_latency_enable'', Const 0),
     (''mi_dflt_get_latency_enable_from_user'', Const 0),
     (''mi_dflt_get_latency_sample_start'', Const 0),
     (''mi_dflt_get_latency_vote_start'', Const 0), (''mi_dflt_process_raw_ctrs_hook'', Void),
     (''mi_dflt_schedule_hook'', Void), (''mi_dflt_set_bwmon_enable'', Const 0),
     (''mi_dflt_set_bwmon_sample_start'', Const 0), (''mi_dflt_set_latency_enable'', Const 0),
     (''mi_dflt_set_latency_sample_start'', Const 0),
     (''mi_dflt_set_latency_vote_start'', Const 0)]"

definition mist_exports_2 :: "(string \<times> mist_slot export) list" where
  "mist_exports_2 =
    [(''mi_dflt_update_memlat_fp_vote_hook'', Void), (''mi_gpu_flt_working'', Const 0),
     (''mi_soc_register_freq_adjhook'', Sets Mist_soc_freq_update_hook),
     (''mist_ddr_vote_enable'', Const 0), (''mist_dflt_init'', Void), (''mist_gflt_init'', Void),
     (''mist_gflt_start'', Void), (''mist_gflt_stop'', Void), (''mist_perf_api_enable'', Const 0),
     (''mist_set_next_freq_hook'', Void), (''mist_update_ddr_freq'', Void),
     (''mist_update_rel_freq'', Void), (''notify_gflt_frame_period_thresh'', Const 0),
     (''register_mi_dflt_bw_update_cb'', Sets Mist_dflt_bw_update_cb),
     (''register_mi_dflt_lat_update_cb'', Sets Mist_dflt_lat_update_cb),
     (''set_adreno_gflt_load'', Const 0), (''set_gpubw_gflt_load'', Const 0),
     (''trigger_mist_dflt'', Const 0), (''trigger_mist_gflt'', Const 0),
     (''trigger_mist_load_tracking'', Const 0),
     (''unregister_mi_dflt_bw_update_cb'', Clears Mist_dflt_bw_update_cb),
     (''unregister_mi_dflt_lat_update_cb'', Clears Mist_dflt_lat_update_cb)]"

definition sched_exported_data :: "(string \<times> sched_slot export) list" where
  "sched_exported_data =
    [(''mi_runqueues'', Variable), (''num_sched_clusters'', Variable),
     (''period_freq_list_lock'', Variable)]"

definition sched_exports_1 :: "(string \<times> sched_slot export) list" where
  "sched_exports_1 =
    [(''create_ls_group'', Const 0), (''free_mi_task_struct'', Void),
     (''find_mi_group_by_task'', Const 0), (''mi_sched_tick'', Void),
     (''find_mi_group_by_user'', Const 0), (''mi_task_fork'', Void),
     (''get_active_mi_groups'', Address ''mi_schedule_active_groups''),
     (''register_sched_load_update_hook'', Sets Sched_load_update_hook),
     (''get_cluster_type'', Const 0),
     (''unregister_sched_load_update_hook'', Clears Sched_load_update_hook),
     (''get_mi_back_group'', Address ''mi_schedule_back_group''),
     (''get_mi_kern_group'', Address ''mi_schedule_kernel_group''),
     (''get_mi_system_group'', Address ''mi_schedule_system_group''),
     (''get_mi_task_struct'', Const 0), (''get_mi_task_struct_unsafe'', Const 0)]"

definition sched_exports_2 :: "(string \<times> sched_slot export) list" where
  "sched_exports_2 =
    [(''get_mi_user_struct'', Address ''mi_schedule_zero_user''),
     (''get_pred_target_period'', Const 0), (''is_32B_user'', Const 0),
     (''mi_group_ls_group'', Const 0), (''mi_group_ref_dec'', Void), (''mi_task_exiting'', Void),
     (''oem_update_num_sched_clusters'', Void), (''pkg_enable'', Const 0),
     (''register_mi_update_global_period_f'', Sets Mi_update_global_period_hook),
     (''register_task_group_change_update_f'', Sets Task_group_change_update_hook),
     (''thread_change_ls_group_auto'', Const 0), (''thread_change_ls_group_explicit'', Const 0),
     (''unregister_mi_update_global_period_f'', Clears Mi_update_global_period_hook),
     (''unregister_task_group_change_update_f'', Clears Task_group_change_update_hook),
     (''update_pkg_load'', Void)]"

definition xiaomi_exports :: "(string \<times> xiaomi_slot export) list" where
  "xiaomi_exports =
    [(''register_mi_update_fravg'', Sets Mi_update_fravg_f),
     (''unregister_mi_update_fravg'', Clears Mi_update_fravg_f),
     (''register_mi_update_group_nr'', Sets Xiaomi_Hooks.Mi_update_group_nr),
     (''unregister_mi_update_group_nr'', Clears Xiaomi_Hooks.Mi_update_group_nr),
     (''register_mi_migrate_hook'', Sets Mi_migrate_fload_hooks),
     (''unregister_mi_migrate_hook'', Clears Mi_migrate_fload_hooks),
     (''register_mi_run_frequpdate_hooks'', Sets Mi_run_frequpdate_hooks),
     (''unregister_mi_run_frequpdate_hooks'', Clears Mi_run_frequpdate_hooks),
     (''register_mi_migarte_fix_fld_hooks'', Sets Mi_migarte_fix_fld_hooks),
     (''unregister_mi_migarte_fix_fld_hooks'', Clears Mi_migarte_fix_fld_hooks),
     (''register_walt_update_hooks'', Sets Walt_window_update_hooks),
     (''unregister_walt_update_hooks'', Clears Walt_window_update_hooks),
     (''register_game_ravg_window'', Sets Oem_get_ravg_window_hook),
     (''unregister_game_ravg_window'', Clears Oem_get_ravg_window_hook),
     (''register_game_vip_hook'', Sets Game_vip_hook),
     (''unregister_game_vip_hook'', Clears Game_vip_hook),
     (''register_oem_flt_enable_hook'', Sets Oem_flt_enable_hook),
     (''unregister_oem_flt_enable_hook'', Clears Oem_flt_enable_hook),
     (''register_oem_flt_wakeup_hook'', Sets Oem_flt_wakeup_hook),
     (''unregister_oem_flt_wakeup_hook'', Clears Oem_flt_wakeup_hook),
     (''register_oem_update_frame_load_hook'', Sets Oem_update_frame_load_hook),
     (''unregister_oem_update_frame_load_hook'', Clears Oem_update_frame_load_hook),
     (''register_oem_freq_hook'', Sets Oem_set_freq_hook),
     (''unregister_oem_freq_hook'', Clears Oem_set_freq_hook),
     (''register_soc_update_flt_load'', Sets Soc_update_flt_load_hook),
     (''unregister_soc_update_flt_load'', Clears Soc_update_flt_load_hook),
     (''register_soc_update_flt_reset'', Sets Soc_update_flt_reset_hook),
     (''unregister_soc_update_flt_reset'', Clears Soc_update_flt_reset_hook),
     (''register_migt_check_rt_hook'', Sets Oem_check_migt_rt_hook),
     (''unregister_migt_check_rt_hook'', Clears Oem_check_migt_rt_hook),
     (''register_game_migt_should_skip_migrate_hook'', Sets Game_migt_should_skip_migrate_hook),
     (''unregister_game_migt_should_skip_migrate_hook'', Clears Game_migt_should_skip_migrate_hook),
     (''register_game_migt_should_skip_this_cpu_rt_hook'', Sets Game_migt_should_skip_this_cpu_rt_hook),
     (''unregister_game_migt_should_skip_this_cpu_rt_hook'', Clears Game_migt_should_skip_this_cpu_rt_hook),
     (''register_game_migt_skip_cpus_rt_hook'', Sets Game_migt_skip_cpus_rt_hook),
     (''unregister_game_migt_skip_cpus_rt_hook'', Clears Game_migt_skip_cpus_rt_hook),
     (''register_game_migt_cpus_hook'', Sets Game_migt_cpus_hook),
     (''unregister_game_migt_cpus_hook'', Clears Game_migt_cpus_hook),
     (''register_game_migt_skip_cpus_hook'', Sets Game_migt_skip_cpus_hook),
     (''unregister_game_migt_skip_cpus_hook'', Clears Game_migt_skip_cpus_hook),
     (''register_game_migt_exclusive_cpus_hook'', Sets Game_migt_exclusive_cpus_hook),
     (''unregister_game_migt_exclusive_cpus_hook'', Clears Game_migt_exclusive_cpus_hook)]"

definition metis_exports :: "(string \<times> metis_slot export) list" where
  "metis_exports = metis_exported_data @ metis_exports_1 @ metis_exports_2 @ metis_exports_3 @
     metis_exports_4 @ metis_exports_5 @ metis_exports_6"

definition mist_exports :: "(string \<times> mist_slot export) list" where
  "mist_exports = mist_exports_1 @ mist_exports_2"

definition sched_exports :: "(string \<times> sched_slot export) list" where
  "sched_exports = sched_exported_data @ sched_exports_1 @ sched_exports_2"

lemmas metis_tables = metis_exports_def metis_exported_data_def metis_exports_1_def metis_exports_2_def
  metis_exports_3_def metis_exports_4_def metis_exports_5_def metis_exports_6_def

lemmas mist_tables = mist_exports_def mist_exports_1_def mist_exports_2_def

lemmas sched_tables = sched_exports_def sched_exported_data_def sched_exports_1_def sched_exports_2_def

text \<open>What the contract asks of a table, in a form that evaluates.\<close>

fun entry_ok :: "('sl \<Rightarrow> ('st \<Rightarrow> int \<times> 'st) option) \<Rightarrow> 'sl export \<Rightarrow> bool" where
  "entry_ok unreg (Clears sl) = (unreg sl \<noteq> None)"
| "entry_ok unreg (Const c) = (c = 0)"
| "entry_ok unreg _ = True"

lemma table_okD:
  assumes "list_all (\<lambda>(n, e). entry_ok unreg e) tb"
  shows "(n, Clears sl) \<in> set tb \<Longrightarrow> unreg sl \<noteq> None" and "(n, Const c) \<in> set tb \<Longrightarrow> c = 0"
  using assms by (fastforce simp: list_all_iff)+

interpretation metis_exp: exported_hooks metis_register metis_unregister metis_switch metis_slots
  "\<lambda>s. \<not> metis_safe_boot s" "\<lambda>_. True" metis_exports
proof -
  have "list_all (\<lambda>(n, e). entry_ok metis_unregister e) metis_exports" by (simp add: metis_tables)
  then show "exported_hooks metis_register metis_unregister metis_switch metis_slots
      (\<lambda>s. \<not> metis_safe_boot s) (\<lambda>_. True) metis_exports"
    by unfold_locales (rule table_okD; assumption)+
qed

interpretation mist_exp: exported_hooks mist_register mist_unregister "\<lambda>_ s. s" mist_slots
  "\<lambda>_. True" "\<lambda>_. True" mist_exports
proof -
  have "list_all (\<lambda>(n, e). entry_ok mist_unregister e) mist_exports" by (simp add: mist_tables)
  then show "exported_hooks mist_register mist_unregister (\<lambda>_ s. s) mist_slots
      (\<lambda>_. True) (\<lambda>_. True) mist_exports"
    by unfold_locales (rule table_okD; assumption)+
qed

interpretation sched_exp: exported_hooks sched_register "\<lambda>sl. Some (sched_unregister sl)" "\<lambda>_ s. s"
  sched_slots "\<lambda>_. True" "\<lambda>_. True" sched_exports
proof -
  have "list_all (\<lambda>(n, e). entry_ok (\<lambda>sl. Some (sched_unregister sl)) e) sched_exports"
    by (simp add: sched_tables)
  then show "exported_hooks sched_register (\<lambda>sl. Some (sched_unregister sl)) (\<lambda>_ s. s) sched_slots
      (\<lambda>_. True) (\<lambda>_. True) sched_exports"
    by unfold_locales (rule table_okD; assumption)+
qed

interpretation xiaomi_exp: exported_hooks xiaomi_register "\<lambda>sl. Some (xiaomi_unregister sl)"
  xiaomi_switch xiaomi_slots xiaomi_walt_hooks_enable "\<lambda>cb. cb \<noteq> None" xiaomi_exports
proof -
  have "list_all (\<lambda>(n, e). entry_ok (\<lambda>sl. Some (xiaomi_unregister sl)) e) xiaomi_exports"
    by (simp add: xiaomi_exports_def)
  then show "exported_hooks xiaomi_register (\<lambda>sl. Some (xiaomi_unregister sl)) xiaomi_switch
      xiaomi_slots xiaomi_walt_hooks_enable (\<lambda>cb. cb \<noteq> None) xiaomi_exports"
    by unfold_locales (rule table_okD; assumption)+
qed

section \<open>What other modules can do\<close>

abbreviation metis_kept :: "metis_slot set" where
  "metis_kept \<equiv> {Corectl_boost_hook_ptr, Update_perflock_freq_hook_ptr, Get_perflock_last_freqs_hook_ptr}"

lemma metis_slot_exported: "\<exists>name. (name, Sets sl) \<in> set metis_exports"
  by (cases sl) (auto simp: metis_tables)

text \<open>Metis is a map of hooks to the other modules and nothing else. Whatever sequence of its
  145 exported symbols they call, with whatever arguments, the hooks afterwards are those of a map
  that only the register and unregister calls update, with the three slots that cannot be cleared
  kept; in safe boot no call changes any hook. Every call that returns a number returns 0, and
  every slot can be reached.\<close>

theorem metis_calls_refine_map:
  "metis_slots (fold (export_do metis_register metis_unregister metis_exports) calls s) =
     (if metis_safe_boot s then metis_slots s
      else fold (spec_hook (\<lambda>_. True) (\<lambda>sl. sl \<notin> metis_kept)) (call_ops metis_exports calls)
        (metis_slots s)) \<and>
   (case call_export metis_register metis_unregister metis_exports name cb s of
      Some (Value v, t) \<Rightarrow> v = 0 | _ \<Rightarrow> True) \<and>
   (\<exists>n. (n, Sets sl) \<in> set metis_exports)"
proof (intro conjI)
  show "metis_slots (fold (export_do metis_register metis_unregister metis_exports) calls s) =
     (if metis_safe_boot s then metis_slots s
      else fold (spec_hook (\<lambda>_. True) (\<lambda>sl. sl \<notin> metis_kept)) (call_ops metis_exports calls)
        (metis_slots s))"
    using metis_hooks_refine_map metis_exp.call_ops_no_switch by (simp add: metis_exp.calls_state)
  show "case call_export metis_register metis_unregister metis_exports name cb s of
      Some (Value v, t) \<Rightarrow> v = 0 | _ \<Rightarrow> True"
    using metis_exp.call_value by (auto split: option.split answer.split)
qed (rule metis_slot_exported)

text \<open>Mist keeps its SoC frequency hook. Whatever exported symbols other modules call, the
  three hooks are those of a map in which that slot is never cleared, every number returned is 0,
  and the module's enable flag stays as it is.\<close>

theorem mist_calls_refine_map:
  "mist_slots (fold (export_do mist_register mist_unregister mist_exports) calls s) =
     fold (spec_hook (\<lambda>_. True) (\<lambda>sl. sl \<noteq> Mist_soc_freq_update_hook)) (call_ops mist_exports calls)
       (mist_slots s) \<and>
   mist_enabled (fold (export_do mist_register mist_unregister mist_exports) calls s) = mist_enabled s \<and>
   (case call_export mist_register mist_unregister mist_exports name cb s of
      Some (Value v, t) \<Rightarrow> v = 0 | _ \<Rightarrow> True)"
proof (intro conjI)
  have "removable mist_unregister = (\<lambda>sl. sl \<noteq> Mist_soc_freq_update_hook)"
    by (auto simp: fun_eq_iff removable_def mist_unregister_eq)
  then show "mist_slots (fold (export_do mist_register mist_unregister mist_exports) calls s) =
     fold (spec_hook (\<lambda>_. True) (\<lambda>sl. sl \<noteq> Mist_soc_freq_update_hook)) (call_ops mist_exports calls)
       (mist_slots s)"
    using mist_exp.calls_refine [of calls s] by simp
  have "mist_enabled (hook_do mist_register mist_unregister (\<lambda>_ s. s) p s) = mist_enabled s" for p s
    by (cases p) (auto simp: mist_register_eq mist_unregister_eq mist_store_hook_def)
  then have "mist_enabled (fold (hook_do mist_register mist_unregister (\<lambda>_ s. s)) ops s) = mist_enabled s"
    for ops by (induction ops arbitrary: s) simp_all
  then show "mist_enabled (fold (export_do mist_register mist_unregister mist_exports) calls s) =
      mist_enabled s" by (simp add: mist_exp.calls_state)
  show "case call_export mist_register mist_unregister mist_exports name cb s of
      Some (Value v, t) \<Rightarrow> v = 0 | _ \<Rightarrow> True"
    using mist_exp.call_value by (auto split: option.split answer.split)
qed

text \<open>The scheduler module after its init. The three built-in groups have the ids 0, 1 and
  2, one reference and no task, and no sequence of calls of exported symbols changes them; the
  getters hand out these objects; the three hooks behave as a map.\<close>

theorem sched_calls_keep_groups:
  fixes s :: mi_schedule and calls :: "(string \<times> hook) list"
  defines "call \<equiv> call_export sched_register (\<lambda>sl. Some (sched_unregister sl)) sched_exports"
  defines "s1 \<equiv> snd (mi_schedule_init s)"
  defines "s2 \<equiv> fold (export_do sched_register (\<lambda>sl. Some (sched_unregister sl)) sched_exports) calls s1"
  shows "map group_id [system_group s2, back_group s2, kernel_group s2] = [0, 1, 2]
    \<and> list_all (\<lambda>g. grp_refcount g = 1 \<and> mi_tasks g = []) [system_group s2, back_group s2, kernel_group s2]
    \<and> map (\<lambda>n. call n cb s2) [''get_mi_system_group'', ''get_mi_back_group'', ''get_mi_kern_group''] =
        map (\<lambda>g. Some (Pointer g, s2))
          [''mi_schedule_system_group'', ''mi_schedule_back_group'', ''mi_schedule_kernel_group'']
    \<and> sched_slots s2 = fold (spec_hook (\<lambda>_. True) (\<lambda>_. True)) (call_ops sched_exports calls) (sched_slots s)"
proof -
  have "removable (\<lambda>sl. Some (sched_unregister sl)) = (\<lambda>_. True)"
    by (simp add: fun_eq_iff removable_def)
  then have "sched_slots s2 =
      fold (spec_hook (\<lambda>_. True) (\<lambda>_. True)) (call_ops sched_exports calls) (sched_slots s)"
    using sched_exp.calls_refine [of calls s1] by (simp add: s2_def s1_def mi_schedule_init_def)
  moreover have "map (\<lambda>n. call n cb s2) [''get_mi_system_group'', ''get_mi_back_group'', ''get_mi_kern_group''] =
        map (\<lambda>g. Some (Pointer g, s2))
          [''mi_schedule_system_group'', ''mi_schedule_back_group'', ''mi_schedule_kernel_group'']"
    by (simp add: call_def call_export_def sched_tables)
  moreover have "system_group s2 = system_group s1 \<and> back_group s2 = back_group s1 \<and>
      kernel_group s2 = kernel_group s1"
    unfolding s2_def sched_exp.calls_state by (rule sched_ops_groups)
  ultimately show ?thesis
    by (simp add: s1_def mi_schedule_init_def mi_schedule_init_group_def)
qed

section \<open>Linking miloadtrace\<close>

datatype provider = From_walt | From_sched | From_metis

text \<open>The extern declarations: the provider, the register and the unregister function.\<close>

fun externs_of :: "miload_hook \<Rightarrow> provider \<times> string \<times> string" where
  "externs_of Mi_update_fravg = (From_walt, ''register_mi_update_fravg'', ''unregister_mi_update_fravg'')"
| "externs_of Walt_update = (From_walt, ''register_walt_update_hooks'', ''unregister_walt_update_hooks'')"
| "externs_of Task_group_change =
     (From_sched, ''register_task_group_change_update_f'', ''unregister_task_group_change_update_f'')"
| "externs_of Mi_migrate = (From_walt, ''register_mi_migrate_hook'', ''unregister_mi_migrate_hook'')"
| "externs_of Mi_update_group_nr =
     (From_walt, ''register_mi_update_group_nr'', ''unregister_mi_update_group_nr'')"
| "externs_of Mi_migarte_fix_fld =
     (From_walt, ''register_mi_migarte_fix_fld_hooks'', ''unregister_mi_migarte_fix_fld_hooks'')"
| "externs_of Ui_task_detect = (From_metis, ''register_ui_task_detect'', ''unregister_ui_task_detect'')"
| "externs_of Mi_update_global_period =
     (From_sched, ''register_mi_update_global_period_f'', ''unregister_mi_update_global_period_f'')"
| "externs_of Mi_run_frequpdate =
     (From_walt, ''register_mi_run_frequpdate_hooks'', ''unregister_mi_run_frequpdate_hooks'')"

text \<open>A call of a symbol of a provider, on the state of the three modules.\<close>

fun call_symbol :: "provider \<Rightarrow> string \<Rightarrow> hook \<Rightarrow> sched_world \<Rightarrow> (answer \<times> sched_world) option" where
  "call_symbol From_walt name cb w =
     map_option (map_prod id (\<lambda>s. w\<lparr>w_xiaomi := s\<rparr>))
       (call_export xiaomi_register (\<lambda>sl. Some (xiaomi_unregister sl)) xiaomi_exports name cb (w_xiaomi w))"
| "call_symbol From_sched name cb w =
     map_option (map_prod id (\<lambda>s. w\<lparr>w_sched := s\<rparr>))
       (call_export sched_register (\<lambda>sl. Some (sched_unregister sl)) sched_exports name cb (w_sched w))"
| "call_symbol From_metis name cb w =
     map_option (map_prod id (\<lambda>s. w\<lparr>w_metis := s\<rparr>))
       (call_export metis_register metis_unregister metis_exports name cb (w_metis w))"

text \<open>The symbols the extern declarations of \<open>miloadtrace.c\<close> name, and two more that \<open>migt.c\<close> names.\<close>

lemmas lookup_eval = append.simps map_of_Cons_code map_of.simps fun_upd_apply list.inject list.distinct
  char.inject simp_thms if_True if_False fst_conv snd_conv

lemma walt_sigs:
  "map_of xiaomi_exports ''register_mi_update_fravg'' = Some (Sets Mi_update_fravg_f)"
  "map_of xiaomi_exports ''unregister_mi_update_fravg'' = Some (Clears Mi_update_fravg_f)"
  "map_of xiaomi_exports ''register_walt_update_hooks'' = Some (Sets Walt_window_update_hooks)"
  "map_of xiaomi_exports ''unregister_walt_update_hooks'' = Some (Clears Walt_window_update_hooks)"
  "map_of xiaomi_exports ''register_mi_migrate_hook'' = Some (Sets Mi_migrate_fload_hooks)"
  "map_of xiaomi_exports ''unregister_mi_migrate_hook'' = Some (Clears Mi_migrate_fload_hooks)"
  "map_of xiaomi_exports ''register_mi_update_group_nr'' = Some (Sets Xiaomi_Hooks.Mi_update_group_nr)"
  "map_of xiaomi_exports ''unregister_mi_update_group_nr'' = Some (Clears Xiaomi_Hooks.Mi_update_group_nr)"
  "map_of xiaomi_exports ''register_mi_migarte_fix_fld_hooks'' = Some (Sets Mi_migarte_fix_fld_hooks)"
  "map_of xiaomi_exports ''unregister_mi_migarte_fix_fld_hooks'' = Some (Clears Mi_migarte_fix_fld_hooks)"
  "map_of xiaomi_exports ''register_mi_run_frequpdate_hooks'' = Some (Sets Mi_run_frequpdate_hooks)"
  "map_of xiaomi_exports ''unregister_mi_run_frequpdate_hooks'' = Some (Clears Mi_run_frequpdate_hooks)"
  by (simp_all only: xiaomi_exports_def lookup_eval)

lemma sched_sigs:
  "map_of sched_exports ''register_sched_load_update_hook'' = Some (Sets Sched_load_update_hook)"
  "map_of sched_exports ''unregister_sched_load_update_hook'' = Some (Clears Sched_load_update_hook)"
  "map_of sched_exports ''register_task_group_change_update_f'' = Some (Sets Task_group_change_update_hook)"
  "map_of sched_exports ''unregister_task_group_change_update_f'' = Some (Clears Task_group_change_update_hook)"
  "map_of sched_exports ''register_mi_update_global_period_f'' = Some (Sets Mi_update_global_period_hook)"
  "map_of sched_exports ''unregister_mi_update_global_period_f'' = Some (Clears Mi_update_global_period_hook)"
  by (simp_all only: sched_tables lookup_eval)

lemma ui_sigs:
  "map_of metis_exports ''register_ui_task_detect'' = Some (Sets Ui_task_detect_ptr)"
  "map_of metis_exports ''unregister_ui_task_detect'' = Some (Clears Ui_task_detect_ptr)"
  by (simp_all only: metis_tables lookup_eval)

text \<open>Symbols resolve to the functions the load tracing is composed with. Calling the symbol
  that an extern declaration of \<open>miloadtrace.c\<close> names, in the module that provides it, is the
  register or unregister function the registration chain uses, for every hook, argument and
  state of the three modules.\<close>

theorem externs_resolve:
  "case externs_of h of (p, reg, unreg) \<Rightarrow>
     call_symbol p reg cb w = Some (map_prod Value id (linked_register h cb w)) \<and>
     call_symbol p unreg None w = Some (map_prod Value id (linked_unregister h w))"
  by (cases h) (simp_all add: call_export_def walt_sigs sched_sigs ui_sigs
      on_xiaomi_def on_sched_def on_metis_def map_prod_def case_prod_beta)

end
