(* ===== verification/Module_Statics.thy ===== *)
theory Module_Statics
  imports Module_Exports
begin

text \<open>
  The functions of \<open>metis.c\<close>, \<open>mist.c\<close> and \<open>mi_schedule.c\<close> that are not exported. The three
  files end with 320 static functions without arguments, kept for a later reconstruction, which no
  code calls. The tables list them in the order of the source with the body of each, next to the
  tables of the exported symbols, so that all functions of a file are modelled. All they do is to
  return 0; the last section shows what this means for a file as a whole.
\<close>

section \<open>The tables\<close>

definition metis_statics_1 :: "(string \<times> metis_slot export) list" where
  "metis_statics_1 =
    [(''fboost_run'', Const 0), (''set_mi_vip_task_common_noresched'', Const 0),
     (''set_mi_vip_task_common'', Const 0), (''clean_mi_vip_task_common'', Const 0),
     (''mi_vip_task_common'', Const 0), (''do_set_binder_vip'', Const 0),
     (''mi_mutex_wait_start_hook'', Const 0), (''mi_mutex_unlock_slowpath'', Const 0),
     (''mi_rwsem_list_add_hook'', Const 0), (''mi_rwsem_write_wait_start_hook'', Const 0),
     (''mi_rwsem_read_wait_start_hook'', Const 0), (''mi_binder_restore_vip_hook'', Const 0),
     (''mi_binder_set_vip_hook'', Const 0), (''mi_rwsem_lock_starttime'', Const 0),
     (''mi_mutex_lock_starttime'', Const 0), (''mi_rtmutex_lock_starttime'', Const 0),
     (''mi_pcpu_rwsem_lock_starttime'', Const 0), (''mi_pcpu_rwsem_wq_add'', Const 0),
     (''mi_rwsem_read_wait_finish_hook'', Const 0), (''mi_rwsem_write_wait_finish_hook'', Const 0),
     (''mi_mutex_wait_finish_hook'', Const 0), (''mi_rwsem_read_trylock_failed'', Const 0),
     (''mi_lock_rwsem_wake_finish_hook'', Const 0), (''metis_link_try_to_wake_up_hook'', Const 0),
     (''mi_alter_futex_plist_add'', Const 0)]"

definition metis_statics_2 :: "(string \<times> metis_slot export) list" where
  "metis_statics_2 =
    [(''mi_do_futex'', Const 0), (''mi_futex_sleep_start'', Const 0),
     (''mi_futex_wake_traverse_plist'', Const 0), (''mi_futex_wait_end'', Const 0),
     (''set_link_vip_enable'', Const 0), (''get_link_vip_enable'', Const 0),
     (''set_async_binder_link_vip_enable'', Const 0),
     (''get_async_binder_link_vip_enable'', Const 0), (''do_set_lock_vip'', Const 0),
     (''mi_lock_vip_finish_common'', Const 0), (''task_prio_for_rwsem_insert'', Const 0),
     (''do_rwsem_list_insert'', Const 0), (''mi_rwsem_wait_start_common'', Const 0),
     (''is_futex_vip_task'', Const 0), (''metis_link_ioctl'', Const 0),
     (''metis_link_mmap'', Const 0), (''metis_link_open'', Const 0),
     (''metis_link_release'', Const 0), (''mi_art_mutex_debug_open'', Const 0),
     (''mi_art_mutex_debug_show'', Const 0), (''mi_cpu_coregroup_mask'', Const 0),
     (''mi_cpuset_fork'', Const 0), (''mi_sched_setaffinity'', Const 0),
     (''unbind_cpu_affinity_task'', Const 0), (''mi_set_cpus_allowed_comm'', Const 0)]"

definition metis_statics_3 :: "(string \<times> metis_slot export) list" where
  "metis_statics_3 =
    [(''set_rebind_task'', Const 0), (''get_rebind_task'', Const 0),
     (''clear_rebind_task_list'', Const 0), (''add_to_rebind_task_list'', Const 0),
     (''rebind_task_req'', Const 0), (''set_clus_affinity_uidlist'', Const 0),
     (''get_clus_affinity_uidlist'', Const 0), (''del_uid_from_list'', Const 0),
     (''add_uid_to_list'', Const 0), (''set_freedom_cpumask_val'', Const 0),
     (''get_freedom_cpumask_val'', Const 0), (''uid_type'', Const 0),
     (''proc_viptask_cpus_set'', Const 0), (''get_frame_boost_end'', Const 0),
     (''queue_for_boost_cluster'', Const 0), (''do_adjust_freq_delayed'', Const 0),
     (''metis_update_policy_online'', Const 0), (''metis_freq_qos_request_init'', Const 0),
     (''cpufreq_notifier_max'', Const 0), (''finish_fboost_workfn'', Const 0),
     (''metis_sched_enable'', Const 0), (''metis_ui_and_ui_pipeline_select_rq'', Const 0),
     (''mi_sched_choose_cpu_overutiled'', Const 0), (''set_mi_vip_task'', Const 0),
     (''set_foreground_pid'', Const 0)]"

definition metis_statics_4 :: "(string \<times> metis_slot export) list" where
  "metis_statics_4 =
    [(''set_mi_dynamic_vip_task'', Const 0), (''clean_mi_dynamic_vip_task'', Const 0),
     (''metis_ui_pipeline'', Const 0), (''metis_render_pipeline'', Const 0),
     (''metis_set_ui_pipeline'', Const 0), (''metis_clean_ui_pipeline'', Const 0),
     (''mi_dynamic_vip_task'', Const 0), (''mi_dynamic_vtask_prio_sched_start'', Const 0),
     (''mi_dynamic_vtask_prio_sched_end'', Const 0),
     (''set_mi_req_async_binder_link_task'', Const 0),
     (''mi_req_async_binder_link_sched_start'', Const 0),
     (''clean_mi_req_async_binder_link_task'', Const 0),
     (''mi_req_async_binder_link_sched_end'', Const 0), (''mi_preempt_wakeup'', Const 0),
     (''get_preempt_prio'', Const 0), (''prio_sched_check'', Const 0),
     (''before_enqueue_vip_task'', Const 0), (''metis_ren_task'', Const 0),
     (''dequeue_vip_task'', Const 0), (''mi_monitor_hook'', Const 0),
     (''metis_sup_task'', Const 0), (''mi_pick_task_fair'', Const 0), (''fas_init'', Const 0),
     (''mi_rb_enqueue_entity_hook'', Const 0), (''mi_rb_dequeue_entity_hook'', Const 0)]"

definition metis_statics_5 :: "(string \<times> metis_slot export) list" where
  "metis_statics_5 =
    [(''mi_update_deadline_preempt_hook'', Const 0), (''fas_exit'', Const 0),
     (''metis_set_ui_task'', Const 0), (''metis_ip_task'', Const 0),
     (''is_uuser_set_vip'', Const 0), (''is_uuser_set_ip'', Const 0),
     (''set_trace_motion_event'', Const 0), (''set_speed_touch_enable'', Const 0),
     (''set_mi_vip_task_req'', Const 0), (''get_mi_viptask'', Const 0),
     (''mi_vip_task_req'', Const 0), (''set_efboost'', Const 0), (''set_mi_efboost'', Const 0),
     (''set_therm_break_enable'', Const 0), (''get_therm_break_enable'', Const 0),
     (''proc_open_fas'', Const 0), (''proc_write_fas'', Const 0), (''proc_show_fas'', Const 0),
     (''fas_suspend'', Const 0), (''fas_resume'', Const 0), (''metis_xxx_task'', Const 0),
     (''metis_clean_vip_thread'', Const 0), (''set_fboost_enable'', Const 0),
     (''get_fboost_enable'', Const 0), (''soc_timeout_func'', Const 0)]"

definition metis_statics_6 :: "(string \<times> metis_slot export) list" where
  "metis_statics_6 =
    [(''soc_scroll_timeout_func'', Const 0), (''find_energy_hook'', Const 0),
     (''walt_get_indicies_hook'', Const 0), (''mi_after_enqueue_task_hook'', Const 0),
     (''mi_after_dequeue_task_hook'', Const 0), (''metis_vvip_task'', Const 0),
     (''metis_ui_task_quick'', Const 0), (''metis_ioctl'', Const 0), (''metis_mmap'', Const 0),
     (''metis_open'', Const 0), (''metis_release'', Const 0), (''metis_set_vip_thread'', Const 0),
     (''get_thread_type'', Const 0), (''history_task_info_init'', Const 0),
     (''runtime_info_debug_open'', Const 0), (''runtime_info_debug_show'', Const 0),
     (''do_print_record_abnorm_task_info'', Const 0), (''kmsg_runtime_info_debug_show'', Const 0),
     (''pull_tasks_fast_path'', Const 0), (''find_vip_busiest_similar_cap_cpu'', Const 0),
     (''get_cpu_vip_longest_runnable_time'', Const 0),
     (''find_vip_runnable_longest_cpu'', Const 0), (''get_cpu_layered_load'', Const 0),
     (''get_cpu_vip_tasks_load'', Const 0), (''metis_tp_choose_cpu_fastpath'', Const 0)]"

definition metis_statics_7 :: "(string \<times> metis_slot export) list" where
  "metis_statics_7 =
    [(''set_metis_schlat_clear'', Const 0), (''get_metis_schlat_clear'', Const 0),
     (''metis_set_schlat_monitor'', Const 0), (''metis_get_schlat_monitor'', Const 0),
     (''metis_schlat_show'', Const 0), (''get_protect_dur_us'', Const 0),
     (''task_in_cs_protect'', Const 0), (''clear_preemption_protect'', Const 0),
     (''task_in_cs'', Const 0), (''protect_pre_cs_task'', Const 0), (''protect_cs_task'', Const 0),
     (''mark_task_low_lt'', Const 0), (''clear_task_low_lt'', Const 0),
     (''is_low_lt_task'', Const 0), (''is_preempted_cs_task'', Const 0),
     (''lowlt_list_add_task'', Const 0), (''lowlt_list_del_task'', Const 0),
     (''lowlt_list_first_task'', Const 0), (''lowlt_tsk_preempt_normal'', Const 0),
     (''set_mutex_vip_blocked'', Const 0), (''mutex_reset_data_no_waiter'', Const 0),
     (''vip_blocked_on_mutex'', Const 0), (''set_rwsem_vip_blocked'', Const 0),
     (''record_rwsem_blocked_info'', Const 0), (''clear_rwsem_blocked_info'', Const 0)]"

definition metis_statics_8 :: "(string \<times> metis_slot export) list" where
  "metis_statics_8 =
    [(''record_mutex_blocked_info'', Const 0), (''clear_mutex_blocked_info'', Const 0),
     (''coldstart_app_ui_task'', Const 0), (''task_maybe_notify_thread'', Const 0),
     (''register_cs_hooks'', Const 0), (''mi_mutex_opt_spin_start'', Const 0),
     (''mi_mutex_opt_spin_finish'', Const 0), (''mi_mutex_can_spin_on_owner'', Const 0),
     (''mi_rwsem_opt_spin_start'', Const 0), (''mi_rwsem_opt_spin_finish'', Const 0),
     (''mi_rwsem_can_spin_on_owner'', Const 0), (''mi_mutex_init'', Const 0),
     (''mi_rwsem_init'', Const 0), (''mi_rwsem_direct_rsteal'', Const 0),
     (''mi_rwsem_optimistic_rspin'', Const 0), (''unregister_cs_hooks'', Const 0),
     (''clean_coldstart_data'', Const 0), (''in_coldstart_period'', Const 0),
     (''coldstart_app_ui_pid'', Const 0), (''get_coldstart_app_tgid'', Const 0),
     (''coldstart_app_ren_task'', Const 0), (''coldstart_override_schedboost'', Const 0),
     (''coldstart_mark_mmlock_holder'', Const 0), (''coldstart_unmark_mmlock_holder'', Const 0),
     (''coldstart_tsk_ready_to_run'', Const 0)]"

definition metis_statics_9 :: "(string \<times> metis_slot export) list" where
  "metis_statics_9 =
    [(''set_cold_start_app_tgid'', Const 0), (''register_coldstart_hooks'', Const 0),
     (''unregister_coldstart_hooks'', Const 0), (''metis_cs_init'', Const 0),
     (''metis_cs_exit'', Const 0), (''rwsem_spin_on_owner'', Const 0),
     (''in_cold_start_wakeup'', Const 0), (''cold_start_ui_recent_used_cpu'', Const 0),
     (''cold_start_ui_sched_state'', Const 0), (''cold_start_ui_task'', Const 0),
     (''cold_start_competing_with_ui'', Const 0), (''cold_start_task_common'', Const 0),
     (''cold_start_wakeup_mark'', Const 0), (''cold_start_wakeup_task'', Const 0),
     (''cold_start_ui_pipeline'', Const 0), (''cold_start_link_task'', Const 0),
     (''metis_wakeup_ui_pipeline_select_rq'', Const 0),
     (''metis_wakeup_futex_plist_insert'', Const 0), (''metis_wakeup_enqueue_task_hook'', Const 0),
     (''set_coldstart_wakeup_task'', Const 0), (''wake_up_new_task_hook'', Const 0),
     (''metis_wakeup_try_to_wakeup'', Const 0), (''metis_wakeup_clear_wakeup_task'', Const 0),
     (''metis_wakeup_do_futex_hook'', Const 0), (''metis_wakeup_init'', Const 0)]"

definition metis_statics_10 :: "(string \<times> metis_slot export) list" where
  "metis_statics_10 =
    [(''metis_wakeup_exit'', Const 0), (''set_metis_wakeup_task'', Const 0),
     (''set_common_persist_vip_task'', Const 0), (''get_common_persist_vip_task'', Const 0),
     (''set_clear_persist_vip_task'', Const 0)]"

definition mist_statics :: "(string \<times> mist_slot export) list" where
  "mist_statics =
    [(''cpufreq_to_memfreq'', Const 0), (''queue_dflt_sample_start'', Const 0),
     (''queue_dflt_vote_start'', Const 0), (''queue_memlat_vote_start'', Const 0),
     (''parse_cluster_node_map'', Const 0), (''commit_fast_vote'', Const 0),
     (''set_dflt_bm_counter_enable'', Const 0), (''get_dflt_bm_counter_enable'', Const 0),
     (''set_dflt_bwmon_enable'', Const 0), (''get_dflt_bwmon_enable'', Const 0),
     (''set_dflt_latency_enable'', Const 0), (''get_dflt_latency_enable'', Const 0),
     (''set_soc_api_enable'', Const 0), (''get_soc_api_enable'', Const 0),
     (''history_load_open'', Const 0), (''history_load_show'', Const 0),
     (''dump_his_load_info'', Const 0), (''mi_get_gflt_enable'', Const 0),
     (''do_freq_adjwork'', Const 0), (''do_slack_work'', Const 0), (''set_gflt_enable'', Const 0),
     (''get_gflt_enable'', Const 0), (''cpu_load_calibration'', Const 0),
     (''ddr_load_calibration'', Const 0)]"

definition sched_statics_1 :: "(string \<times> sched_slot export) list" where
  "sched_statics_1 =
    [(''init_ravg_info'', Const 0), (''free_mi_group'', Const 0),
     (''find_add_mi_group_id'', Const 0), (''alloc_add_mi_group'', Const 0),
     (''mi_group_ref_add'', Const 0), (''find_add_mi_group_by_user'', Const 0),
     (''mi_ls_group_dec'', Const 0), (''destory_ls_group'', Const 0),
     (''mi_ls_group_add'', Const 0), (''alloc_ls_group'', Const 0),
     (''find_ls_grp_by_task'', Const 0), (''APP_destory_ls_group'', Const 0),
     (''change_lsgroup'', Const 0), (''change_lsgroup_status'', Const 0),
     (''alloc_mi_default_group'', Const 0), (''create_mi_default_group'', Const 0),
     (''free_mi_default_group'', Const 0), (''change_group_fps'', Const 0),
     (''change_system_to_display'', Const 0), (''init_mi_group'', Const 0),
     (''exit_mi_group'', Const 0), (''set_target_makeup_ns'', Const 0),
     (''get_target_makeup_ns'', Const 0), (''mi_group_ioctl'', Const 0),
     (''mi_group_mmap'', Const 0)]"

definition sched_statics_2 :: "(string \<times> sched_slot export) list" where
  "sched_statics_2 =
    [(''mi_group_open'', Const 0), (''mi_group_release'', Const 0),
     (''create_runtime_proc'', Const 0), (''delete_runtimeproc'', Const 0),
     (''runtime_open_all'', Const 0), (''runtime_show_all'', Const 0),
     (''top_package_on_b2core_open'', Const 0), (''package_runtime_show'', Const 0),
     (''top_package_on_b1core_open'', Const 0), (''top_package_on_lcore_open'', Const 0),
     (''top_package_open'', Const 0), (''package_runtime_open'', Const 0),
     (''trace_package_write'', Const 0), (''package_compact_open'', Const 0),
     (''package_compact_show'', Const 0), (''package_tracestat_open'', Const 0),
     (''package_trace_stat'', Const 0), (''package_open_traced_window'', Const 0),
     (''traced_window_write'', Const 0), (''traced_window_show'', Const 0),
     (''package_open_window_size'', Const 0), (''window_size_show'', Const 0),
     (''develop_mode_open'', Const 0), (''develop_mode_set'', Const 0),
     (''develop_mode_show'', Const 0)]"

definition sched_statics_3 :: "(string \<times> sched_slot export) list" where
  "sched_statics_3 =
    [(''package_reset_traced_window'', Const 0), (''reset_traced_window_show'', Const 0),
     (''pause_mode_open'', Const 0), (''pause_mode_set'', Const 0), (''pause_mode_show'', Const 0),
     (''get_curr_runtime_items'', Const 0), (''get_uid_max_value'', Const 0),
     (''get_runtime_window_size'', Const 0), (''get_user_zero'', Const 0),
     (''mi_cpu_coregroup_mask'', Const 0), (''get_package_runtime_info'', Const 0),
     (''task_user'', Const 0), (''task_add_to_userlist'', Const 0), (''task_add_work'', Const 0),
     (''mi_user_roll_wk'', Const 0), (''mi_task_world_init'', Const 0)]"

definition metis_statics :: "(string \<times> metis_slot export) list" where
  "metis_statics = concat [metis_statics_1, metis_statics_2, metis_statics_3, metis_statics_4,
     metis_statics_5, metis_statics_6, metis_statics_7, metis_statics_8, metis_statics_9,
     metis_statics_10]"

definition sched_statics :: "(string \<times> sched_slot export) list" where
  "sched_statics = concat [sched_statics_1, sched_statics_2, sched_statics_3]"

lemmas metis_static_tables = metis_statics_1_def metis_statics_2_def metis_statics_3_def
  metis_statics_4_def metis_statics_5_def metis_statics_6_def metis_statics_7_def metis_statics_8_def
  metis_statics_9_def metis_statics_10_def

lemmas sched_static_tables = sched_statics_1_def sched_statics_2_def sched_statics_3_def

section \<open>Whole files\<close>

definition inert :: "(string \<times> 'sl export) list \<Rightarrow> bool" where
  "inert fns \<longleftrightarrow> list_all (\<lambda>f. snd f = Const 0) fns"

lemma inert_tables: "inert metis_statics" "inert mist_statics" "inert sched_statics"
  by (simp_all add: inert_def metis_statics_def metis_static_tables mist_statics_def sched_statics_def
      sched_static_tables)

lemma inert_lookup: "inert fns \<Longrightarrow> map_of fns name = Some e \<Longrightarrow> e = Const 0"
  by (auto simp: inert_def list_all_iff dest!: map_of_SomeD)

lemma export_do_inert:
  assumes "inert fns"
  shows "export_do reg unreg (exports @ fns) c s = export_do reg unreg exports c s"
proof -
  have "map_of (exports @ fns) (fst c) =
      (case map_of exports (fst c) of None \<Rightarrow> map_of fns (fst c) | Some e \<Rightarrow> Some e)"
    by (simp add: map_add_def)
  then show ?thesis
    using inert_lookup [OF assms, of "fst c"]
    by (cases "map_of exports (fst c)"; cases "map_of fns (fst c)")
      (auto simp: export_do_def call_export_def simp del: map_of_append)
qed

lemma export_do_files: "inert fns \<Longrightarrow> export_do reg unreg (exports @ fns) = export_do reg unreg exports"
  by (intro ext export_do_inert)

text \<open>Calls of the static functions, were there any, would not change what a file keeps.\<close>

theorem static_functions_inert:
  "fold (export_do metis_register metis_unregister (metis_exports @ metis_statics)) calls mt =
     fold (export_do metis_register metis_unregister metis_exports) calls mt \<and>
   fold (export_do mist_register mist_unregister (mist_exports @ mist_statics)) calls mi =
     fold (export_do mist_register mist_unregister mist_exports) calls mi \<and>
   fold (export_do sched_register (\<lambda>sl. Some (sched_unregister sl)) (sched_exports @ sched_statics)) calls sc =
     fold (export_do sched_register (\<lambda>sl. Some (sched_unregister sl)) sched_exports) calls sc"
  by (simp only: export_do_files inert_tables simp_thms)

end
