(* ===== verification/Miev.thy ===== *)
theory Miev
  imports Kernel_Lib Lifecycle
begin

text \<open>
  \<open>miev.c\<close>: the event builder (\<open>cdev_tevent_*\<close>), the byte queue behind \<open>/dev/miev\<close> with its
  read, write and poll handlers, and the life of the module. An event under construction is the
  text in its buffer; \<open>scnprintf\<close> cuts what does not fit, so the text is always terminated.
  Reading is in two phases, since the queue is examined without the lock that guards the copy.
\<close>

section \<open>Events\<close>

abbreviation MIEV_FIFO_SIZE :: nat where "MIEV_FIFO_SIZE \<equiv> 131072"
abbreviation MIEV_MAX_EVENT_SIZE :: nat where "MIEV_MAX_EVENT_SIZE \<equiv> 2048"
abbreviation MIEV_MAX_PARAM_NAME :: nat where "MIEV_MAX_PARAM_NAME \<equiv> 64"
abbreviation MIEV_MAX_PARAM_STRING :: nat where "MIEV_MAX_PARAM_STRING \<equiv> 512"
abbreviation MIEV_MAX_PARAMS :: nat where "MIEV_MAX_PARAMS \<equiv> 64"

text \<open>\<open>msg\<close> is the text in the buffer; \<open>None\<close> is a NULL pointer.\<close>

record misight_mievent =
  event_id :: nat
  para_cnt :: nat
  used_size :: nat
  msg :: "string option"

definition event_head :: "nat \<Rightarrow> int \<Rightarrow> string" where
  "event_head eid now = ''EventId '' @ fmt_u eid @ '' -t '' @ fmt_d now @ '' -paraList {''"

text \<open>\<open>allocs\<close> are the results of the two allocations, \<open>now\<close> the time in seconds.\<close>

definition cdev_tevent_alloc :: "bool \<times> bool \<Rightarrow> int \<Rightarrow> nat \<Rightarrow> misight_mievent option" where
  "cdev_tevent_alloc allocs now eid =
     (if \<not> fst allocs then None
      else if \<not> snd allocs then None
      else
        (let txt = scnprintf MIEV_MAX_EVENT_SIZE (event_head eid now)
         in if txt = [] \<or> length txt \<ge> MIEV_MAX_EVENT_SIZE then None
            else Some \<lparr>event_id = eid, para_cnt = 0, used_size = length txt, msg = Some txt\<rparr>))"

function int_digits :: "int \<Rightarrow> nat" where
  "int_digits value = (if value \<ge> 10 then Suc (int_digits (value div 10)) else 0)"
  by pat_completeness auto
termination
  by (relation "measure nat") auto

declare int_digits.simps [simp del]

definition get_integer_size :: "int \<Rightarrow> nat" where
  "get_integer_size value =
     (if value < 0 then 2 + int_digits (to_s64 (- value)) else 1 + int_digits value)"

definition quote :: "string \<Rightarrow> string" where
  "quote s = [CHR 0x22] @ s @ [CHR 0x22]"

text \<open>
  The common tail of the two add functions and of the write function: print at \<open>used_size\<close> and
  give up when nothing was printed or the result says the text did not fit.
\<close>

definition append_text :: "string \<Rightarrow> misight_mievent \<Rightarrow> string \<Rightarrow> misight_mievent option" where
  "append_text m e txt =
     (let out = scnprintf (MIEV_MAX_EVENT_SIZE - used_size e) txt
      in if out = [] \<or> length out \<ge> MIEV_MAX_EVENT_SIZE - used_size e then None
         else Some (e\<lparr>msg := Some (take (used_size e) m @ out), used_size := used_size e + length out\<rparr>))"

definition cdev_tevent_add_int ::
  "misight_mievent option \<Rightarrow> string option \<Rightarrow> int \<Rightarrow> int \<times> misight_mievent option" where
  "cdev_tevent_add_int event key value =
     (case (event, key) of
        (Some e, Some k) \<Rightarrow>
          (case msg e of
             None \<Rightarrow> (- EINVAL, event)
           | Some m \<Rightarrow>
               if para_cnt e \<ge> MIEV_MAX_PARAMS then (- ENOSPC, event)
               else if length k \<ge> MIEV_MAX_PARAM_NAME then (- EINVAL, event)
               else
                 (case append_text m e
                    ((if para_cnt e \<noteq> 0 then '','' else []) @ quote k @ '':'' @ fmt_d value) of
                    None \<Rightarrow> (- ENOSPC, event)
                  | Some e' \<Rightarrow> (0, Some (e'\<lparr>para_cnt := Suc (para_cnt e)\<rparr>))))
      | _ \<Rightarrow> (- EINVAL, event))"

definition cdev_tevent_add_str ::
  "misight_mievent option \<Rightarrow> string option \<Rightarrow> string option \<Rightarrow> int \<times> misight_mievent option" where
  "cdev_tevent_add_str event key value =
     (case (event, key, value) of
        (Some e, Some k, Some v) \<Rightarrow>
          (case msg e of
             None \<Rightarrow> (- EINVAL, event)
           | Some m \<Rightarrow>
               if para_cnt e \<ge> MIEV_MAX_PARAMS then (- ENOSPC, event)
               else if length k \<ge> MIEV_MAX_PARAM_NAME \<or> length v \<ge> MIEV_MAX_PARAM_STRING
               then (- EINVAL, event)
               else
                 (case append_text m e
                    ((if para_cnt e \<noteq> 0 then '','' else []) @ quote k @ '':'' @ quote v) of
                    None \<Rightarrow> (- ENOSPC, event)
                  | Some e' \<Rightarrow> (0, Some (e'\<lparr>para_cnt := Suc (para_cnt e)\<rparr>))))
      | _ \<Rightarrow> (- EINVAL, event))"

section \<open>The queue\<close>

text \<open>The device, when the module is loaded; the buffer may be NULL.\<close>

definition write_buf_inner :: "kfifo option \<Rightarrow> string option \<Rightarrow> int \<times> kfifo option" where
  "write_buf_inner dev buf =
     (case (dev, buf) of
        (Some f, Some b) \<Rightarrow>
          if b = [] then (- EINVAL, dev)
          else (case kfifo_in f b of
                  (n, f') \<Rightarrow> (if n \<noteq> length b then - ENOSPC else 0, Some f'))
      | _ \<Rightarrow> (- EINVAL, dev))"

definition cdev_tevent_write ::
  "misight_mievent option \<Rightarrow> kfifo option \<Rightarrow> int \<times> misight_mievent option \<times> kfifo option" where
  "cdev_tevent_write event dev =
     (case event of
        None \<Rightarrow> (- EINVAL, event, dev)
      | Some e \<Rightarrow>
          (case msg e of
             None \<Rightarrow> (- EINVAL, event, dev)
           | Some m \<Rightarrow>
               (case append_text m e (''}'' @ [LF]) of
                  None \<Rightarrow> (- ENOSPC, event, dev)
                | Some e' \<Rightarrow>
                    (case write_buf_inner dev (map_option (take (used_size e')) (msg e')) of
                       (ret, dev') \<Rightarrow> (ret, Some e', dev')))))"

text \<open>The user memory is \<open>None\<close> when copying it faults.\<close>

definition miev_write :: "kfifo option \<Rightarrow> bool \<Rightarrow> string option \<Rightarrow> nat \<Rightarrow> int \<times> kfifo option" where
  "miev_write dev alloc ubuf cnt =
     (if cnt = 0 then (0, dev)
      else if cnt > MIEV_MAX_EVENT_SIZE then (- EINVAL, dev)
      else if \<not> alloc then (- ENOMEM, dev)
      else (case ubuf of
              None \<Rightarrow> (- EFAULT, dev)
            | Some b \<Rightarrow>
                (case write_buf_inner dev (Some (take cnt b)) of
                   (ret, dev') \<Rightarrow> (if ret \<noteq> 0 then ret else int cnt, dev'))))"

text \<open>Reading: what the first phase decides, and the copy under the lock.\<close>

datatype read_phase = Ret int | Block | Go

definition miev_read_check :: "kfifo option \<Rightarrow> bool \<Rightarrow> read_phase" where
  "miev_read_check dev nonblock =
     (case dev of
        None \<Rightarrow> Ret (- ENODEV)
      | Some f \<Rightarrow> if kf_data f = [] then (if nonblock then Ret (- EAGAIN) else Block) else Go)"

definition miev_read_copy :: "kfifo \<Rightarrow> nat \<Rightarrow> nat \<Rightarrow> int \<times> string \<times> kfifo" where
  "miev_read_copy f cnt uncopied =
     (case kfifo_to_user f cnt uncopied of
        (ret, out, f') \<Rightarrow> (if ret \<noteq> 0 then ret else int (length out), out, f'))"

text \<open>\<open>miev_read\<close> as one call that is not interrupted by another reader.\<close>

definition miev_read :: "kfifo option \<Rightarrow> bool \<Rightarrow> int + kfifo \<Rightarrow> nat \<Rightarrow> nat \<Rightarrow> int \<times> string \<times> kfifo option" where
  "miev_read dev nonblock wait cnt uncopied =
     (case miev_read_check dev nonblock of
        Ret r \<Rightarrow> (r, [], dev)
      | Block \<Rightarrow> (case wait of
                   Inl r \<Rightarrow> (r, [], dev)
                 | Inr f \<Rightarrow> (case miev_read_copy f cnt uncopied of (r, out, f') \<Rightarrow> (r, out, Some f')))
      | Go \<Rightarrow> (case miev_read_copy (the dev) cnt uncopied of (r, out, f') \<Rightarrow> (r, out, Some f')))"

definition EPOLLIN :: nat where "EPOLLIN = 1"
definition EPOLLERR :: nat where "EPOLLERR = 8"
definition EPOLLRDNORM :: nat where "EPOLLRDNORM = 64"

definition miev_poll :: "kfifo option \<Rightarrow> nat" where
  "miev_poll dev =
     (case dev of
        None \<Rightarrow> EPOLLERR
      | Some f \<Rightarrow> if kf_data f \<noteq> [] then EPOLLIN + EPOLLRDNORM else 0)"

definition miev_ioctl :: int where "miev_ioctl = - ENOTTY"

definition miev_open :: "bool \<Rightarrow> nat \<Rightarrow> int \<times> nat" where
  "miev_open got refs = (if \<not> got then (- ENODEV, refs) else (0, Suc refs))"

definition miev_release :: "nat \<Rightarrow> int \<times> nat" where
  "miev_release refs = (0, refs - 1)"

section \<open>The module\<close>

datatype miev_res = Dev_mem | Chrdev | Cdev | Fifo | Class | Device | Workqueue

record miev_env =
  m_kzalloc :: bool
  m_chrdev :: int
  m_cdev :: int
  m_fifo :: int
  m_class :: int
  m_device :: int
  m_wq :: bool

text \<open>\<open>miev_dev\<close> and \<open>miev_workqueue\<close> are the module's two pointers.\<close>

record miev_sys =
  miev_dev :: "kfifo option"
  miev_workqueue :: bool
  miev_log :: "miev_res ev list"

abbreviation mlog :: "miev_res ev list \<Rightarrow> miev_sys \<Rightarrow> miev_sys" where
  "mlog es s \<equiv> s\<lparr>miev_log := miev_log s @ es\<rparr>"

definition err_free_dev :: "int \<Rightarrow> miev_sys \<Rightarrow> int \<times> miev_sys" where
  "err_free_dev ret s = (ret, mlog [Put Dev_mem] (s\<lparr>miev_dev := None\<rparr>))"

definition err_unregister_chrdev :: "int \<Rightarrow> miev_sys \<Rightarrow> int \<times> miev_sys" where
  "err_unregister_chrdev ret s = err_free_dev ret (mlog [Put Chrdev] s)"

definition err_cdev_del :: "int \<Rightarrow> miev_sys \<Rightarrow> int \<times> miev_sys" where
  "err_cdev_del ret s = err_unregister_chrdev ret (mlog [Put Cdev] s)"

definition err_fifo_free :: "int \<Rightarrow> miev_sys \<Rightarrow> int \<times> miev_sys" where
  "err_fifo_free ret s = err_cdev_del ret (mlog [Put Fifo] s)"

definition err_class_destroy :: "int \<Rightarrow> miev_sys \<Rightarrow> int \<times> miev_sys" where
  "err_class_destroy ret s = err_fifo_free ret (mlog [Put Class] s)"

definition err_device_destroy :: "int \<Rightarrow> miev_sys \<Rightarrow> int \<times> miev_sys" where
  "err_device_destroy ret s = err_class_destroy ret (mlog [Put Device] s)"

definition miev_init_module :: "miev_env \<Rightarrow> miev_sys \<Rightarrow> int \<times> miev_sys" where
  "miev_init_module env s =
     (if \<not> m_kzalloc env then (- ENOMEM, s\<lparr>miev_dev := None\<rparr>)
      else
        (let s = mlog [Get Dev_mem] (s\<lparr>miev_dev := Some \<lparr>kf_data = [], kf_size = 0\<rparr>\<rparr>)
         in if m_chrdev env \<noteq> 0 then err_free_dev (m_chrdev env) s
      else
        (let s = mlog [Get Chrdev] s
         in if m_cdev env \<noteq> 0 then err_unregister_chrdev (m_cdev env) s
      else
        (let s = mlog [Get Cdev] s
         in if m_fifo env \<noteq> 0 then err_cdev_del (m_fifo env) s
      else
        (let s = mlog [Get Fifo] (s\<lparr>miev_dev := Some \<lparr>kf_data = [], kf_size = MIEV_FIFO_SIZE\<rparr>\<rparr>)
         in if m_class env \<noteq> 0 then err_fifo_free (m_class env) s
      else
        (let s = mlog [Get Class] s
         in if m_device env \<noteq> 0 then err_class_destroy (m_device env) s
      else
        (let s = mlog [Get Device] s
         in if \<not> m_wq env then err_device_destroy (- ENOMEM) (s\<lparr>miev_workqueue := False\<rparr>)
            else (0, mlog [Get Workqueue] (s\<lparr>miev_workqueue := True\<rparr>)))))))))"

definition miev_cleanup_module :: "miev_sys \<Rightarrow> miev_sys" where
  "miev_cleanup_module s =
     (let s = (if miev_workqueue s then mlog [Put Workqueue] (s\<lparr>miev_workqueue := False\<rparr>) else s)
      in if miev_dev s = None then s
         else mlog [Put Device, Put Class, Put Fifo, Put Cdev, Put Chrdev, Put Dev_mem]
                (s\<lparr>miev_dev := None\<rparr>))"

section \<open>Building an event\<close>

lemma int_digits_length: "0 \<le> v \<Longrightarrow> Suc (int_digits v) = length (num_str 10 (nat v))"
proof (induction v rule: int_digits.induct)
  case (1 v)
  show ?case
  proof (cases "v \<ge> 10")
    case True
    then have "Suc (int_digits (v div 10)) = length (num_str 10 (nat v div 10))"
      using "1.IH" "1.prems" by (simp add: nat_div_distrib)
    moreover have "num_str 10 (nat v) = num_str 10 (nat v div 10) @ [digit_char (nat v mod 10)]"
      using True by (subst num_str.simps) simp
    ultimately show ?thesis using True by (subst int_digits.simps) simp
  next
    case False
    then have "num_str 10 (nat v) = [digit_char (nat v)]" by (subst num_str.simps) simp
    then show ?thesis using False by (subst int_digits.simps) simp
  qed
qed

text \<open>The size of a printed integer. For every \<open>long\<close> but the smallest,
  \<open>get_integer_size\<close> is the number of characters that printing the value takes; for the
  smallest the negation overflows and the result is 2 instead of 20.\<close>

theorem get_integer_size_correct:
  assumes "is_s64 v"
  shows "get_integer_size v = (if v = LONG_MIN then 2 else length (fmt_d v))"
proof -
  have m: "to_s64 (- v) = - v" if "v \<noteq> LONG_MIN"
    using that assms by (intro to_s64_id) (auto simp: is_s64_def)
  have "to_s64 (- LONG_MIN) = LONG_MIN" by (simp add: to_s64_def)
  moreover have "int_digits LONG_MIN = 0" by (subst int_digits.simps) simp
  ultimately show ?thesis
    using m int_digits_length [of v] int_digits_length [of "- v"]
    by (auto simp: get_integer_size_def fmt_d_def)
qed

theorem get_integer_size_correct_witness:
  "get_integer_size (- 1234) = length (fmt_d (- 1234)) \<and> get_integer_size LONG_MIN = 2"
  using get_integer_size_correct [of "- 1234"] get_integer_size_correct [of LONG_MIN]
  by (simp add: is_s64_def)

text \<open>The parameters of an event and the text the format strings give them.\<close>

datatype param = PInt string int | PStr string string

fun param_text :: "param \<Rightarrow> string" where
  "param_text (PInt k v) = quote k @ '':'' @ fmt_d v"
| "param_text (PStr k v) = quote k @ '':'' @ quote v"

fun param_ok :: "param \<Rightarrow> bool" where
  "param_ok (PInt k v) \<longleftrightarrow> length k < MIEV_MAX_PARAM_NAME"
| "param_ok (PStr k v) \<longleftrightarrow> length k < MIEV_MAX_PARAM_NAME \<and> length v < MIEV_MAX_PARAM_STRING"

fun add_param :: "misight_mievent option \<Rightarrow> param \<Rightarrow> int \<times> misight_mievent option" where
  "add_param e (PInt k v) = cdev_tevent_add_int e (Some k) v"
| "add_param e (PStr k v) = cdev_tevent_add_str e (Some k) (Some v)"

fun add_all :: "misight_mievent option \<Rightarrow> param list \<Rightarrow> int list \<times> misight_mievent option" where
  "add_all e [] = ([], e)"
| "add_all e (p # ps) =
     (case add_param e p of (r, e1) \<Rightarrow> case add_all e1 ps of (rs, e2) \<Rightarrow> (r # rs, e2))"

text \<open>The parameter list, from the \<open>n\<close>th parameter on: separated by commas.\<close>

fun join :: "nat \<Rightarrow> param list \<Rightarrow> string" where
  "join n [] = []"
| "join n (p # ps) = (if n \<noteq> 0 then '','' else []) @ param_text p @ join (Suc n) ps"

definition holds_text :: "misight_mievent \<Rightarrow> string \<Rightarrow> bool" where
  "holds_text e m \<longleftrightarrow> msg e = Some m \<and> used_size e = length m"

lemma append_text_eq:
  assumes "holds_text e m" and "length m < 2047" and "txt \<noteq> []"
  shows "append_text m e txt =
    Some (e\<lparr>msg := Some (m @ take (2047 - length m) txt),
            used_size := length (m @ take (2047 - length m) txt)\<rparr>)"
  using assms by (simp add: append_text_def holds_text_def scnprintf_def Let_def) arith

lemma append_text_full: "holds_text e m \<Longrightarrow> length m = 2047 \<Longrightarrow> append_text m e txt = None"
  by (simp add: append_text_def holds_text_def scnprintf_def Let_def)

lemma add_param_eq:
  assumes "holds_text e m" and "length m < 2047" and "param_ok p" and "para_cnt e < MIEV_MAX_PARAMS"
  defines "m' \<equiv> m @ take (2047 - length m) ((if para_cnt e \<noteq> 0 then '','' else []) @ param_text p)"
  shows "add_param (Some e) p =
    (0, Some (e\<lparr>para_cnt := Suc (para_cnt e), msg := Some m', used_size := length m'\<rparr>))"
proof -
  have ne: "(if para_cnt e \<noteq> 0 then '','' else []) @ param_text p \<noteq> []"
    by (cases p) (auto simp: quote_def)
  show ?thesis
    using append_text_eq [OF assms(1,2) ne] assms(1,3,4)
    by (cases p) (simp_all add: cdev_tevent_add_int_def cdev_tevent_add_str_def holds_text_def m'_def)
qed

lemma add_all_eq:
  assumes "holds_text e m" and "\<forall>p \<in> set ps. param_ok p"
    and "para_cnt e + length ps \<le> MIEV_MAX_PARAMS" and "length (m @ join (para_cnt e) ps) \<le> 2047"
  shows "\<exists>e'. add_all (Some e) ps = (replicate (length ps) 0, Some e') \<and>
    holds_text e' (m @ join (para_cnt e) ps)"
  using assms
proof (induction ps arbitrary: e m)
  case (Cons p ps)
  let ?t = "(if para_cnt e \<noteq> 0 then '','' else []) @ param_text p"
  let ?e = "e\<lparr>para_cnt := Suc (para_cnt e), msg := Some (m @ ?t), used_size := length (m @ ?t)\<rparr>"
  have t: "?t \<noteq> []" by (cases p) (auto simp: quote_def)
  then have pos: "0 < length ?t" by blast
  have "length (m @ join (para_cnt e) (p # ps)) =
      length m + length ?t + length (join (Suc (para_cnt e)) ps)" by simp
  then have l: "length m < 2047" "length ?t \<le> 2047 - length m"
    using Cons.prems(4) pos by linarith+
  have "add_param (Some e) p = (0, Some ?e)"
    using add_param_eq [OF Cons.prems(1) l(1), of p] Cons.prems(2,3)
    unfolding take_all [OF l(2)] by simp
  moreover have "\<exists>e'. add_all (Some ?e) ps = (replicate (length ps) 0, Some e') \<and>
      holds_text e' ((m @ ?t) @ join (para_cnt ?e) ps)"
    using Cons.prems by (intro Cons.IH) (auto simp: holds_text_def)
  ultimately show ?case by (auto simp: holds_text_def)
qed (simp add: holds_text_def)

lemma write_appended:
  assumes "msg e = Some m" and "write_buf_inner dev (Some M) = (r, dev')"
    and "append_text m e (''}'' @ [LF]) = Some (e\<lparr>msg := Some M, used_size := length M\<rparr>)"
  shows "cdev_tevent_write (Some e) dev =
    (r, Some (e\<lparr>msg := Some M, used_size := length M\<rparr>), dev')"
  using assms by (simp add: cdev_tevent_write_def)

lemma write_eq:
  assumes "holds_text e m" and "length m < 2047"
    and "length (kf_data f) + length (m @ take (2047 - length m) (''}'' @ [LF])) \<le> kf_size f"
  shows "\<exists>e'. cdev_tevent_write (Some e) (Some f) =
    (0, Some e', Some (f\<lparr>kf_data := kf_data f @ m @ take (2047 - length m) (''}'' @ [LF])\<rparr>))"
proof -
  let ?m = "m @ take (2047 - length m) (''}'' @ [LF])"
  have "?m \<noteq> []" using assms(2) by simp
  moreover have "kfifo_in f ?m = (length ?m, f\<lparr>kf_data := kf_data f @ ?m\<rparr>)"
    using assms(3) by (rule kfifo_in_fits)
  ultimately have "write_buf_inner (Some f) (Some ?m) = (0, Some (f\<lparr>kf_data := kf_data f @ ?m\<rparr>))"
    by (simp add: write_buf_inner_def)
  moreover have "append_text m e (''}'' @ [LF]) =
      Some (e\<lparr>msg := Some ?m, used_size := length ?m\<rparr>)"
    using assms(1,2) by (rule append_text_eq) simp
  moreover have "msg e = Some m" using assms(1) by (simp add: holds_text_def)
  ultimately show ?thesis using write_appended by blast
qed

lemma length_fmt_d_s64: "is_s64 v \<Longrightarrow> length (fmt_d v) \<le> 20"
  using length_num_str [of 10 "nat (- v)" 19] length_num_str [of 10 "nat v" 19]
  by (cases "v < 0") (auto simp: fmt_d_def is_s64_def nat_less_iff)

lemma alloc_eq:
  assumes "eid < 2 ^ 32" and "is_s64 now"
  shows "\<exists>e. cdev_tevent_alloc (True, True) now eid = Some e \<and>
    holds_text e (event_head eid now) \<and> para_cnt e = 0"
proof -
  have "length (num_str 10 eid) \<le> 10" using assms(1) length_num_str [of 10 eid 10] by simp
  then have "length (event_head eid now) \<le> 60"
    using length_fmt_d_s64 [OF assms(2)] by (simp add: event_head_def fmt_u_def)
  then show ?thesis
    by (simp add: cdev_tevent_alloc_def scnprintf_def Let_def holds_text_def)
      (simp add: event_head_def)
qed

text \<open>C8: an event that fits arrives as one line. For every event id, time and list of at most 64
  parameters with names and strings below their limits whose text fits in the buffer, allocating
  the event, adding the parameters and writing it all succeed, and when the queue has room
  exactly the head, the parameters in order separated by commas, the closing brace and a newline
  are appended to it.\<close>

theorem event_bytes:
  fixes ps :: "param list"
  assumes "eid < 2 ^ 32" and "is_s64 now" and "\<forall>p \<in> set ps. param_ok p"
    and "length ps \<le> MIEV_MAX_PARAMS"
  defines "line \<equiv> event_head eid now @ join 0 ps @ ''}'' @ [LF]"
  assumes "length line \<le> 2047" and "length (kf_data f) + length line \<le> kf_size f"
  shows "\<exists>e e1 e2. cdev_tevent_alloc (True, True) now eid = Some e \<and>
    add_all (Some e) ps = (replicate (length ps) 0, Some e1) \<and>
    cdev_tevent_write (Some e1) (Some f) = (0, Some e2, Some (f\<lparr>kf_data := kf_data f @ line\<rparr>))"
proof -
  obtain e where e: "cdev_tevent_alloc (True, True) now eid = Some e"
    "holds_text e (event_head eid now)" "para_cnt e = 0"
    using alloc_eq [OF assms(1,2)] by blast
  obtain e1 where e1: "add_all (Some e) ps = (replicate (length ps) 0, Some e1)"
    "holds_text e1 (event_head eid now @ join 0 ps)"
    using add_all_eq [OF e(2) assms(3)] assms(4,6) e(3) by (auto simp: line_def)
  let ?m = "event_head eid now @ join 0 ps"
  have "length ?m + 2 \<le> 2047" using assms(6) by (simp add: line_def)
  then have m: "length ?m < 2047" "take (2047 - length ?m) (''}'' @ [LF]) = ''}'' @ [LF]"
    by (auto intro!: take_all)
  obtain e2 where "cdev_tevent_write (Some e1) (Some f) =
      (0, Some e2, Some (f\<lparr>kf_data := kf_data f @ ?m @ ''}'' @ [LF]\<rparr>))"
    using write_eq [OF e1(2) m(1), of f] assms(7) unfolding m(2) by (auto simp: line_def)
  then show ?thesis using e(1) e1(1) by (auto simp: line_def)
qed

definition fifo_empty :: kfifo where
  "fifo_empty = \<lparr>kf_data = [], kf_size = MIEV_FIFO_SIZE\<rparr>"

theorem event_bytes_witness:
  "\<exists>e e1 e2. cdev_tevent_alloc (True, True) 0 902 = Some e \<and>
     add_all (Some e) [PInt ''pid'' 7, PStr ''comm'' ''init''] = ([0, 0], Some e1) \<and>
     cdev_tevent_write (Some e1) (Some fifo_empty) = (0, Some e2, Some (fifo_empty\<lparr>kf_data :=
       event_head 902 0 @ join 0 [PInt ''pid'' 7, PStr ''comm'' ''init''] @ ''}'' @ [LF]\<rparr>))"
proof -
  have "length (num_str 10 902) \<le> 10" "length (fmt_d 0) \<le> 20" "length (fmt_d 7) \<le> 20"
    using length_num_str [of 10 902 10] length_fmt_d_s64 [of 0] length_fmt_d_s64 [of 7]
    by (simp_all add: is_s64_def)
  then have "length (event_head 902 0 @ join 0 [PInt ''pid'' 7, PStr ''comm'' ''init''] @ ''}'' @ [LF])
      \<le> 2047"
    by (simp add: event_head_def fmt_u_def quote_def)
  then show ?thesis
    using event_bytes [of 902 0 "[PInt ''pid'' 7, PStr ''comm'' ''init'']" fifo_empty]
    by (simp add: is_s64_def fifo_empty_def)
qed

text \<open>A parameter that does not fit is cut silently. \<open>scnprintf\<close> returns the characters it
  stored, which is always less than the space it was given, so the test for an overflow never
  succeeds: adding a parameter whose text is longer than the space left reports success and
  stores its beginning, after which the event can no longer be written.\<close>

theorem overlong_param_accepted:
  assumes "holds_text e m" and "length m < 2047" and "param_ok p" and "para_cnt e < MIEV_MAX_PARAMS"
    and "2047 < length m + length (param_text p)"
  shows "\<exists>e' cut. add_param (Some e) p = (0, Some e') \<and> holds_text e' (m @ cut) \<and>
    length (m @ cut) = 2047 \<and> cdev_tevent_write (Some e') dev = (- ENOSPC, Some e', dev)"
proof -
  let ?cut = "take (2047 - length m) ((if para_cnt e \<noteq> 0 then '','' else []) @ param_text p)"
  let ?e = "e\<lparr>para_cnt := Suc (para_cnt e), msg := Some (m @ ?cut), used_size := length (m @ ?cut)\<rparr>"
  have len: "length (m @ ?cut) = 2047" using assms(2,5) by auto
  moreover have h: "holds_text ?e (m @ ?cut)" by (simp add: holds_text_def)
  moreover have "cdev_tevent_write (Some ?e) dev = (- ENOSPC, Some ?e, dev)"
    using append_text_full [OF h len] by (simp add: cdev_tevent_write_def)
  ultimately show ?thesis using add_param_eq [OF assms(1-4)] by blast
qed

definition crowded :: misight_mievent where
  "crowded = \<lparr>event_id = 1, para_cnt = 1, used_size = 2040, msg = Some (replicate 2040 (CHR ''x''))\<rparr>"

theorem overlong_param_accepted_witness:
  "\<exists>e' cut. add_param (Some crowded) (PStr ''reason'' ''watchdog'') = (0, Some e') \<and>
     length (replicate 2040 (CHR ''x'') @ cut) = 2047"
  using overlong_param_accepted [of crowded "replicate 2040 (CHR ''x'')" "PStr ''reason'' ''watchdog''"]
  by (auto simp: crowded_def holds_text_def quote_def)

text \<open>An event one character short of the limit loses its newline. When 2046 characters are
  used, writing the event reports success but only the closing brace still fits: the line is
  queued without its newline and runs into the next event.\<close>

theorem event_without_newline:
  assumes "holds_text e m" and "length m = 2046" and "length (kf_data f) + 2047 \<le> kf_size f"
  shows "\<exists>e'. cdev_tevent_write (Some e) (Some f) =
    (0, Some e', Some (f\<lparr>kf_data := kf_data f @ m @ ''}''\<rparr>))"
  using write_eq [OF assms(1), of f] assms(2,3) by simp

theorem event_without_newline_witness:
  "\<exists>e'. cdev_tevent_write (Some \<lparr>event_id = 1, para_cnt = 1, used_size = 2046,
       msg = Some (replicate 2046 (CHR ''x''))\<rparr>) (Some fifo_empty) =
     (0, Some e', Some (fifo_empty\<lparr>kf_data := kf_data fifo_empty @ replicate 2046 (CHR ''x'') @ ''}''\<rparr>))"
proof -
  have "length (kf_data fifo_empty) + 2047 \<le> kf_size fifo_empty" by (simp add: fifo_empty_def)
  then show ?thesis
    using event_without_newline [of "\<lparr>event_id = 1, para_cnt = 1, used_size = 2046,
        msg = Some (replicate 2046 (CHR ''x''))\<rparr>" "replicate 2046 (CHR ''x'')" fifo_empty]
    by (simp only: holds_text_def misight_mievent.simps length_replicate simp_thms)
qed

section \<open>The stream\<close>

text \<open>
  Writers, readers and the queue: \<open>waiting\<close> readers block until there is data, \<open>going\<close> readers
  have seen data and not copied it yet. \<open>sent\<close> records each buffer given to
  \<open>write_buf_inner\<close> with the number of bytes the queue took, \<open>delivered\<close> the bytes readers got.
\<close>

record miev_chan =
  queue :: kfifo
  waiting :: nat
  going :: nat
  sent :: "(string \<times> nat) list"
  delivered :: string

inductive miev_step :: "miev_chan \<Rightarrow> miev_chan \<Rightarrow> bool" where
  Write: "write_buf_inner (Some (queue s)) (Some b) = (r, Some f) \<Longrightarrow>
     miev_step s (s\<lparr>queue := f, sent := sent s @ [(b, fst (kfifo_in (queue s) b))]\<rparr>)"
| Read_go: "miev_read_check (Some (queue s)) nb = Go \<Longrightarrow> miev_step s (s\<lparr>going := Suc (going s)\<rparr>)"
| Read_block: "miev_read_check (Some (queue s)) nb = Block \<Longrightarrow>
     miev_step s (s\<lparr>waiting := Suc (waiting s)\<rparr>)"
| Wake: "waiting s = Suc n \<Longrightarrow> kf_data (queue s) \<noteq> [] \<Longrightarrow>
     miev_step s (s\<lparr>waiting := n, going := Suc (going s)\<rparr>)"
| Signal: "waiting s = Suc n \<Longrightarrow> miev_step s (s\<lparr>waiting := n\<rparr>)"
| Copy: "going s = Suc n \<Longrightarrow> miev_read_copy (queue s) cnt uncopied = (r, out, f) \<Longrightarrow>
     miev_step s (s\<lparr>queue := f, going := n, delivered := delivered s @ out\<rparr>)"

inductive_cases miev_stepE: "miev_step s s'"

definition chan_start :: miev_chan where
  "chan_start = \<lparr>queue = fifo_empty, waiting = 0, going = 0, sent = [], delivered = []\<rparr>"

inductive miev_reach :: "miev_chan \<Rightarrow> bool" where
  miev_reach_start: "miev_reach chan_start"
| miev_reach_step: "miev_reach s \<Longrightarrow> miev_step s s' \<Longrightarrow> miev_reach s'"

definition stream_inv :: "miev_chan \<Rightarrow> bool" where
  "stream_inv s \<longleftrightarrow> kfifo_wf (queue s) \<and> kf_size (queue s) = MIEV_FIFO_SIZE \<and>
     delivered s @ kf_data (queue s) = concat (map (\<lambda>(b, n). take n b) (sent s))"

lemma write_buf_inner_data:
  assumes "write_buf_inner (Some f) (Some b) = (r, Some f')"
  shows "kf_data f' = kf_data f @ take (fst (kfifo_in f b)) b \<and> kf_size f' = kf_size f \<and>
    (kfifo_wf f \<longrightarrow> kfifo_wf f')"
proof (cases "b = []")
  case True
  then show ?thesis using assms by (simp add: write_buf_inner_def)
next
  case False
  then have "f' = snd (kfifo_in f b)" using assms by (simp add: write_buf_inner_def case_prod_beta)
  then show ?thesis using kfifo_in_wf [of f b] by (auto simp: kfifo_in_def Let_def)
qed

lemma miev_read_copy_data:
  assumes "miev_read_copy f c u = (r, out, f')"
  shows "kf_data f = out @ kf_data f' \<and> kf_size f' = kf_size f \<and> (kfifo_wf f \<longrightarrow> kfifo_wf f')"
proof -
  obtain r' where "kfifo_to_user f c u = (r', out, f')"
    using assms by (auto simp: miev_read_copy_def split: prod.splits)
  from kfifo_to_user_stream [OF this] show ?thesis
    by (metis kfifo_wf_def length_append le_add2 le_trans)
qed

lemma stream_inv_step: "miev_step s s' \<Longrightarrow> stream_inv s \<Longrightarrow> stream_inv s'"
proof (erule miev_stepE)
  fix b r f
  assume "stream_inv s" "s' = s\<lparr>queue := f, sent := sent s @ [(b, fst (kfifo_in (queue s) b))]\<rparr>"
    "write_buf_inner (Some (queue s)) (Some b) = (r, Some f)"
  then show "stream_inv s'"
    using write_buf_inner_data [of "queue s" b r f] by (simp add: stream_inv_def flip: append_assoc)
next
  fix n cnt uncopied r out f
  assume "stream_inv s" "s' = s\<lparr>queue := f, going := n, delivered := delivered s @ out\<rparr>"
    "miev_read_copy (queue s) cnt uncopied = (r, out, f)"
  then show "stream_inv s'"
    using miev_read_copy_data [of "queue s" cnt uncopied r out f] by (simp add: stream_inv_def)
qed (simp_all add: stream_inv_def)

lemma reach_stream_inv: "miev_reach s \<Longrightarrow> stream_inv s"
proof (induction rule: miev_reach.induct)
  case miev_reach_start
  then show ?case by (simp add: stream_inv_def chan_start_def fifo_empty_def kfifo_wf_def)
next
  case (miev_reach_step s s')
  then show ?case using stream_inv_step by blast
qed

text \<open>C3: the device is a faithful byte stream. However writers and readers interleave, however
  many bytes a reader asks for and wherever copying to it faults, the bytes handed out so far
  followed by those queued are, in order, the bytes the queue accepted of each write; the queue
  never exceeds its 128 KiB; and when every write was accepted in full no byte is lost, doubled
  or reordered.\<close>

theorem miev_stream_integrity:
  assumes "miev_reach s"
  shows "delivered s @ kf_data (queue s) = concat (map (\<lambda>(b, n). take n b) (sent s)) \<and>
    length (kf_data (queue s)) \<le> MIEV_FIFO_SIZE \<and>
    ((\<forall>(b, n) \<in> set (sent s). n = length b) \<longrightarrow>
       delivered s @ kf_data (queue s) = concat (map fst (sent s)))"
proof -
  have "concat (map (\<lambda>(b, n). take n b) (sent s)) = concat (map fst (sent s))"
    if "\<forall>(b, n) \<in> set (sent s). n = length b"
    using that by (intro arg_cong [where f = concat] map_cong) auto
  then show ?thesis using reach_stream_inv [OF assms] by (auto simp: stream_inv_def kfifo_wf_def)
qed

lemma chan_two_readers:
  "miev_reach \<lparr>queue = fifo_empty, waiting = 0, going = 1, sent = [(''x'', 1)], delivered = ''x''\<rparr>"
proof -
  let ?f = "fifo_empty\<lparr>kf_data := ''x''\<rparr>"
  let ?s = "\<lambda>q g d. \<lparr>queue = q, waiting = 0, going = g, sent = [(''x'', 1)], delivered = d\<rparr>"
  have k: "kfifo_in fifo_empty ''x'' = (1, ?f)" by (simp add: kfifo_in_def fifo_empty_def)
  have "miev_step chan_start (?s ?f 0 [])"
    using miev_step.Write [of chan_start "''x''" 0 ?f] k
    by (simp add: chan_start_def write_buf_inner_def)
  moreover have "miev_step (?s ?f 0 []) (?s ?f 1 [])"
    using miev_step.Read_go [of "?s ?f 0 []" False] by (simp add: miev_read_check_def)
  moreover have "miev_step (?s ?f 1 []) (?s ?f 2 [])"
    using miev_step.Read_go [of "?s ?f 1 []" False] by (simp add: miev_read_check_def numeral_2_eq_2)
  moreover have "miev_step (?s ?f 2 []) (?s fifo_empty 1 ''x'')"
    using miev_step.Copy [of "?s ?f 2 []" 1 16 0 1 "''x''" fifo_empty]
    by (simp add: miev_read_copy_def kfifo_to_user_def fifo_empty_def numeral_2_eq_2)
  ultimately show ?thesis by (meson miev_reach.intros)
qed

theorem miev_stream_integrity_witness:
  "delivered \<lparr>queue = fifo_empty, waiting = 0, going = 1, sent = [(''x'', 1)], delivered = ''x''\<rparr>
     @ kf_data fifo_empty = ''x''"
  using miev_stream_integrity [OF chan_two_readers] by simp

text \<open>A blocking read can report the end of the file. The queue is examined before the lock
  is taken, so of two readers that both saw the data of one event the second finds the queue
  empty and returns 0 bytes.\<close>

theorem blocking_read_returns_zero:
  "\<exists>s. miev_reach s \<and> 0 < going s \<and> (\<exists>f. miev_read_copy (queue s) 16 0 = (0, [], f))"
proof -
  have "miev_read_copy fifo_empty 16 0 = (0, [], fifo_empty)"
    by (simp add: miev_read_copy_def kfifo_to_user_def fifo_empty_def)
  then show ?thesis
    using chan_two_readers
    by (intro exI [of _ "\<lparr>queue = fifo_empty, waiting = 0, going = 1, sent = [(''x'', 1)],
      delivered = ''x''\<rparr>"]) auto
qed

text \<open>A rejected event leaves a fragment behind. When the queue has some room but not enough,
  the write reports \<open>-ENOSPC\<close> although the beginning of the event has been queued.\<close>

theorem rejected_event_leaves_fragment:
  assumes "kfifo_wf f" and "0 < kf_size f - length (kf_data f)"
    and "kf_size f - length (kf_data f) < length b"
  shows "write_buf_inner (Some f) (Some b) =
    (- ENOSPC, Some (f\<lparr>kf_data := kf_data f @ take (kf_size f - length (kf_data f)) b\<rparr>))"
  using assms by (auto simp: write_buf_inner_def kfifo_in_def Let_def)

theorem rejected_event_leaves_fragment_witness:
  "write_buf_inner (Some \<lparr>kf_data = ''abc'', kf_size = 4\<rparr>) (Some ''xyz'') =
     (- ENOSPC, Some \<lparr>kf_data = ''abcx'', kf_size = 4\<rparr>)"
  using rejected_event_leaves_fragment [of "\<lparr>kf_data = ''abc'', kf_size = 4\<rparr>" "''xyz''"]
  by (simp add: kfifo_wf_def)

section \<open>Loading and unloading\<close>

definition miev_stages :: "miev_env \<Rightarrow> (miev_res \<times> int) list" where
  "miev_stages env =
     [(Dev_mem, if m_kzalloc env then 0 else - ENOMEM), (Chrdev, m_chrdev env), (Cdev, m_cdev env),
      (Fifo, m_fifo env), (Class, m_class env), (Device, m_device env),
      (Workqueue, if m_wq env then 0 else - ENOMEM)]"

lemmas miev_labels = err_free_dev_def err_unregister_chrdev_def err_cdev_del_def err_fifo_free_def
  err_class_destroy_def err_device_destroy_def

definition miev_idle :: "miev_sys \<Rightarrow> bool" where
  "miev_idle s \<longleftrightarrow> miev_dev s = None \<and> \<not> miev_workqueue s"

text \<open>The init routine implements the unwind specification and leaves no dangling pointers.\<close>

lemma miev_init_staged:
  assumes "miev_idle s"
  shows "case miev_init_module env s of (ret, s') \<Rightarrow>
    \<exists>l. staged_init [] (miev_stages env) = (ret, l) \<and> miev_log s' = miev_log s @ l \<and>
      (if ret = 0 then miev_dev s' = Some fifo_empty \<and> miev_workqueue s' else miev_idle s')"
  using assms
  by (auto simp: miev_init_module_def miev_stages_def miev_labels Let_def miev_idle_def
      fifo_empty_def)

interpretation miev: module_lifecycle miev_init_module miev_cleanup_module miev_log miev_idle
proof
  fix s env ret s'
  assume "miev_idle s" "miev_init_module env s = (ret, s')" "ret \<noteq> 0"
  then obtain l where "staged_init [] (miev_stages env) = (ret, l)" "miev_log s' = miev_log s @ l"
    "miev_idle s'"
    using miev_init_staged [of s env] by auto
  then show "miev_idle s' \<and> (\<exists>l. miev_log s' = miev_log s @ l \<and> balanced l)"
    using staged_init_fail_balanced \<open>ret \<noteq> 0\<close> by blast
next
  fix s env s'
  assume "miev_idle s" "miev_init_module env s = (0, s')"
  then obtain l where l: "staged_init [] (miev_stages env) = (0, l)" "miev_log s' = miev_log s @ l"
    "miev_dev s' = Some fifo_empty" "miev_workqueue s'"
    using miev_init_staged [of s env] by auto
  have "run_ledger {#} l = Some (mset (map fst (miev_stages env)))"
    using staged_init_ok [OF l(1)] by (simp add: holds_exactly_def)
  then have "balanced (l @ [Put Workqueue, Put Device, Put Class, Put Fifo, Put Cdev, Put Chrdev,
      Put Dev_mem])"
    by (simp add: balanced_def run_ledger_append miev_stages_def)
  then show "miev_idle (miev_cleanup_module s') \<and>
      (\<exists>l. miev_log (miev_cleanup_module s') = miev_log s @ l \<and> balanced l)"
    using l(2-4) by (simp add: miev_cleanup_module_def Let_def miev_idle_def)
qed

text \<open>C12: the module never leaks. Over any history of load attempts, failing at any of their
  seven steps, and unloads, every resource is released exactly once and in the end the module's
  pointers are NULL; a load that reports success has all seven and an empty queue of 128 KiB.\<close>

theorem miev_history_clean:
  fixes envs :: "miev_env list"
  assumes "miev_idle s" and "balanced (miev_log s)"
  defines "t \<equiv> fold (module_cycle miev_init_module miev_cleanup_module) envs s"
  shows "miev_idle t \<and> balanced (miev_log t) \<and>
    (\<forall>env s'. miev_init_module env t = (0, s') \<longrightarrow>
       miev_dev s' = Some fifo_empty \<and> miev_workqueue s' \<and>
       (\<exists>l. miev_log s' = miev_log t @ l \<and> holds_exactly l (map fst (miev_stages env))))"
proof -
  have t: "miev_idle t \<and> balanced (miev_log t)"
    using miev.history_clean [OF assms(1,2), of envs] by (simp add: t_def)
  have "miev_dev s' = Some fifo_empty \<and> miev_workqueue s' \<and>
      (\<exists>l. miev_log s' = miev_log t @ l \<and> holds_exactly l (map fst (miev_stages env)))"
    if "miev_init_module env t = (0, s')" for env s'
    using miev_init_staged [of t env] that t staged_init_ok [of "miev_stages env"] by auto
  then show ?thesis using t by blast
qed

definition miev_start :: miev_sys where
  "miev_start = \<lparr>miev_dev = None, miev_workqueue = False, miev_log = []\<rparr>"

theorem miev_history_clean_witness:
  "balanced (miev_log (fold (module_cycle miev_init_module miev_cleanup_module)
     [\<lparr>m_kzalloc = True, m_chrdev = 0, m_cdev = 0, m_fifo = 0, m_class = - 12, m_device = 0,
       m_wq = True\<rparr>] miev_start))"
  using miev_history_clean [of miev_start "[\<lparr>m_kzalloc = True, m_chrdev = 0, m_cdev = 0, m_fifo = 0,
      m_class = - 12, m_device = 0, m_wq = True\<rparr>]"]
  by (simp add: miev_idle_def miev_start_def)

end
