(* ===== verification/Module_Symbols.thy ===== *)
theory Module_Symbols
  imports Module_Statics Migt Miev Hwid Thermal_Cpufreq
begin

text \<open>
  The ten modules as object files: the symbols each exports, the symbols each needs of others and
  the dependencies each declares. No symbol is exported twice, which is shown table by table, and
  every symbol needed is traced to the module that provides it.
\<close>

section \<open>Symbols\<close>

datatype kmod = Sched_walt | Mi_sched | Mist_mod | Metis_mod | Migt_mod | Miloadtrace_mod | Miev_mod
  | Perf_helper_mod | Hwid_mod | Thermal_mod

definition migt_exports :: "string list" where
  "migt_exports = [''migt_sched_init'', ''migt_sched_exit'', ''migt_freq_qos_init'',
     ''migt_freq_qos_request_init_first'', ''migt_set_prefer_cluster'', ''migt_get_prefer_cluster'',
     ''get_frame_period'', ''add_work_to_migt'', ''flt_update_sf'', ''flt_irq_work'', ''flt_enable'',
     ''glk_enable'', ''get_migt_thresh'', ''is_render_thread'', ''is_frender_sibling'',
     ''migt_load_tracking_enabled'']"

definition miev_exports :: "string list" where
  "miev_exports = [''cdev_tevent_alloc'', ''cdev_tevent_add_int'', ''cdev_tevent_add_str'',
     ''cdev_tevent_write'', ''cdev_tevent_destroy'']"

definition hwid_exports :: "string list" where
  "hwid_exports = [''product_name_get'', ''get_hw_project_adc'', ''get_hw_build_adc'',
     ''get_hw_version_platform'', ''get_hw_id_value'', ''get_hw_country_version'',
     ''get_hw_version_major'', ''get_hw_version_minor'', ''get_hw_version_build'']"

definition miload_exports :: "string list" where
  "miload_exports = [''group_frame_cpufreq_transition'']"

definition thermal_exports :: "string list" where
  "thermal_exports = [''board_sensor'', ''ambient_sensor'', ''cpu_limits_set_level'']"

fun exported :: "kmod \<Rightarrow> string list" where
  "exported Sched_walt = map fst xiaomi_exports"
| "exported Mi_sched = map fst sched_exports"
| "exported Mist_mod = map fst mist_exports"
| "exported Metis_mod = map fst metis_exports"
| "exported Migt_mod = migt_exports"
| "exported Miloadtrace_mod = miload_exports"
| "exported Miev_mod = miev_exports"
| "exported Perf_helper_mod = []"
| "exported Hwid_mod = hwid_exports"
| "exported Thermal_mod = thermal_exports"

text \<open>
  What the object files take from outside the repository: the functions and variables of the kernel
  and of other modules that each file uses, by the name the source has. A macro or inline function of
  a kernel header stands for what it expands to, which depends on the kernel; purely arithmetic ones
  and those for lists, atomics and barriers, which need nothing of the kernel image, are left out. A
  \<open>module_param\<close> needs the operations of its type. \<open>migt.c\<close> declares functions of other modules
  and the thermal module two of the charger, but neither calls them.
\<close>

definition walt_imports :: "string list" where
  "walt_imports = [''pr_warn'', ''param_ops_bool'']"

definition sched_imports :: "string list" where
  "sched_imports = [''pr_info'', ''refcount_set'', ''spin_lock_init'', ''param_ops_int'',
     ''param_ops_uint'']"

definition mist_imports :: "string list" where
  "mist_imports = [''pr_info'', ''param_ops_uint'', ''param_ops_ulong'', ''param_ops_charp'',
     ''param_array_ops'']"

definition metis_imports :: "string list" where
  "metis_imports = [''pr_info'', ''param_ops_bool'', ''param_ops_uint'', ''param_ops_int'',
     ''param_ops_ulong'']"

definition migt_imports :: "string list" where
  "migt_imports = [''mutex_init'', ''pr_info'', ''vprintk'', ''param_ops_int'']"

definition miload_imports :: "string list" where
  "miload_imports = [''copy_from_user'', ''cpufreq_register_governor'',
     ''cpufreq_unregister_governor'', ''for_each_cpu'', ''init_irq_work'', ''irq_work_sync'',
     ''kfree'', ''kstrtouint'', ''kzalloc'', ''memset'', ''misc_deregister'', ''misc_register'',
     ''per_cpu'', ''pr_info'', ''proc_create'', ''proc_mkdir'', ''proc_remove'',
     ''raw_spin_lock_init'', ''scnprintf'', ''seq_lseek'', ''seq_printf'', ''seq_puts'',
     ''seq_read'', ''simple_strtol'', ''single_open'', ''single_release'', ''synchronize_rcu'',
     ''vprintk'', ''walt_sched_clock'', ''param_ops_uint'', ''param_array_ops'']"

definition miev_imports :: "string list" where
  "miev_imports = [''alloc_chrdev_region'', ''alloc_workqueue'', ''cdev_add'', ''cdev_del'',
     ''cdev_init'', ''class_create'', ''class_destroy'', ''copy_from_user'',
     ''destroy_workqueue'', ''device_create'', ''device_destroy'', ''flush_workqueue'',
     ''init_waitqueue_head'', ''kfifo_alloc'', ''kfifo_free'', ''kfifo_in'', ''kfifo_to_user'',
     ''kfree'', ''ktime_get_real_seconds'', ''kzalloc'', ''module_put'', ''mutex_init'',
     ''mutex_lock'', ''mutex_unlock'', ''no_llseek'', ''poll_wait'', ''pr_err'', ''pr_info'',
     ''scnprintf'', ''strlen'', ''try_module_get'', ''unregister_chrdev_region'',
     ''wait_event_interruptible'', ''wake_up_interruptible'']"

definition perf_imports :: "string list" where
  "perf_imports = [''copy_from_user'', ''kernel_kobj'', ''kobject_create_and_add'',
     ''kobject_put'', ''kstrtobool'', ''memcpy'', ''mutex_lock'', ''mutex_unlock'', ''pr_info'',
     ''pr_warn'', ''proc_create'', ''proc_mkdir'', ''remove_proc_subtree'', ''seq_lseek'',
     ''seq_printf'', ''seq_read'', ''single_open'', ''single_release'', ''strim'',
     ''sysfs_create_group'', ''sysfs_emit'', ''sysfs_remove_group'']"

definition hwid_imports :: "string list" where
  "hwid_imports = [''kernel_kobj'', ''kobject_create_and_add'', ''kobject_del'', ''pr_err'',
     ''pr_info'', ''snprintf'', ''sysfs_create_group'', ''sysfs_remove_group'',
     ''param_ops_uint'']"

definition thermal_imports :: "string list" where
  "thermal_imports = [''INIT_DELAYED_WORK'', ''WARN_ON'', ''alloc_workqueue'',
     ''cancel_delayed_work_sync'', ''cpufreq_cpu_get'', ''cpufreq_cpu_put'',
     ''cpufreq_for_each_valid_entry'', ''cpufreq_table_count_valid_entries'',
     ''cpumask_test_cpu'', ''destroy_workqueue'', ''for_each_possible_cpu'',
     ''freq_qos_add_request'', ''freq_qos_remove_request'', ''freq_qos_update_request'',
     ''kernel_kobj'', ''kernfs_find_and_get'', ''kernfs_put'', ''kfree'', ''kmalloc_array'',
     ''kobject_create_and_add'', ''kobject_get'', ''kobject_put'', ''kstrtoint'', ''kzalloc'',
     ''memcpy'', ''mutex_lock'', ''mutex_unlock'', ''of_find_node_by_name'', ''of_node_put'',
     ''of_property_read_string'', ''panel_event_notifier_register'',
     ''panel_event_notifier_unregister'', ''per_cpu'', ''power_supply_get_by_name'',
     ''power_supply_get_property'', ''power_supply_put'', ''power_supply_reg_notifier'',
     ''pr_debug'', ''pr_err'', ''pr_info'', ''pr_warn'', ''queue_delayed_work'', ''scnprintf'',
     ''simple_strtol'', ''sscanf'', ''strcmp'', ''strim'', ''sysfs_create_group'',
     ''sysfs_notify'', ''sysfs_remove_group'', ''system_wq'', ''param_ops_bool'',
     ''param_ops_uint'']"

fun imported :: "kmod \<Rightarrow> string list" where
  "imported Sched_walt = walt_imports"
| "imported Mi_sched = sched_imports"
| "imported Mist_mod = mist_imports"
| "imported Metis_mod = metis_imports"
| "imported Migt_mod = migt_imports"
| "imported Miloadtrace_mod = miload_imports"
| "imported Miev_mod = miev_imports"
| "imported Perf_helper_mod = perf_imports"
| "imported Hwid_mod = hwid_imports"
| "imported Thermal_mod = thermal_imports"

text \<open>
  \<open>miloadtrace.c\<close> calls its 18 register and unregister functions, which other modules of the
  repository export; nothing else is needed of each other.
\<close>

definition hook_functions :: "string list" where
  "hook_functions = concat (map (\<lambda>h. case externs_of h of (p, reg, unreg) \<Rightarrow> [reg, unreg]) hook_order)"

definition miload_needs :: "string list" where
  "miload_needs = hook_functions @ miload_imports"

fun needs :: "kmod \<Rightarrow> string list" where
  "needs Miloadtrace_mod = miload_needs"
| "needs m = imported m"

text \<open>All of it: what vendor modules outside the repository provide (the rest of \<open>sched-walt\<close> and the
  notifier of the panels), and what the kernel does.\<close>

definition vendor_interface :: "string list" where
  "vendor_interface =
     [''walt_sched_clock'', ''panel_event_notifier_register'', ''panel_event_notifier_unregister'']"

definition kernel_interface :: "string list" where
  "kernel_interface = [''INIT_DELAYED_WORK'', ''WARN_ON'', ''alloc_chrdev_region'',
     ''alloc_workqueue'', ''cancel_delayed_work_sync'', ''cdev_add'', ''cdev_del'',
     ''cdev_init'', ''class_create'', ''class_destroy'', ''copy_from_user'', ''cpufreq_cpu_get'',
     ''cpufreq_cpu_put'', ''cpufreq_for_each_valid_entry'', ''cpufreq_register_governor'',
     ''cpufreq_table_count_valid_entries'', ''cpufreq_unregister_governor'',
     ''cpumask_test_cpu'', ''destroy_workqueue'', ''device_create'', ''device_destroy'',
     ''flush_workqueue'', ''for_each_cpu'', ''for_each_possible_cpu'', ''freq_qos_add_request'',
     ''freq_qos_remove_request'', ''freq_qos_update_request'', ''init_irq_work'',
     ''init_waitqueue_head'', ''irq_work_sync'', ''kernel_kobj'', ''kernfs_find_and_get'',
     ''kernfs_put'', ''kfifo_alloc'', ''kfifo_free'', ''kfifo_in'', ''kfifo_to_user'', ''kfree'',
     ''kmalloc_array'', ''kobject_create_and_add'', ''kobject_del'', ''kobject_get'',
     ''kobject_put'', ''kstrtobool'', ''kstrtoint'', ''kstrtouint'', ''ktime_get_real_seconds'',
     ''kzalloc'', ''memcpy'', ''memset'', ''misc_deregister'', ''misc_register'', ''module_put'',
     ''mutex_init'', ''mutex_lock'', ''mutex_unlock'', ''no_llseek'', ''of_find_node_by_name'',
     ''of_node_put'', ''of_property_read_string'', ''param_array_ops'', ''param_ops_bool'',
     ''param_ops_charp'', ''param_ops_int'', ''param_ops_uint'', ''param_ops_ulong'',
     ''per_cpu'', ''poll_wait'', ''power_supply_get_by_name'', ''power_supply_get_property'',
     ''power_supply_put'', ''power_supply_reg_notifier'', ''pr_debug'', ''pr_err'', ''pr_info'',
     ''pr_warn'', ''proc_create'', ''proc_mkdir'', ''proc_remove'', ''queue_delayed_work'',
     ''raw_spin_lock_init'', ''refcount_set'', ''remove_proc_subtree'', ''scnprintf'',
     ''seq_lseek'', ''seq_printf'', ''seq_puts'', ''seq_read'', ''simple_strtol'',
     ''single_open'', ''single_release'', ''snprintf'', ''spin_lock_init'', ''sscanf'',
     ''strcmp'', ''strim'', ''strlen'', ''synchronize_rcu'', ''sysfs_create_group'',
     ''sysfs_emit'', ''sysfs_notify'', ''sysfs_remove_group'', ''system_wq'', ''try_module_get'',
     ''unregister_chrdev_region'', ''vprintk'', ''wait_event_interruptible'',
     ''wake_up_interruptible'']"

text \<open>The names of the modules and the dependencies their \<open>MODULE_INFO\<close> lines declare; \<open>None\<close> for
  a file without such a line. The scheduler hooks are built into \<open>sched-walt\<close>.\<close>

fun kmod_name :: "kmod \<Rightarrow> string" where
  "kmod_name Sched_walt = ''sched-walt''"
| "kmod_name Mi_sched = ''mi_schedule''"
| "kmod_name Mist_mod = ''mist''"
| "kmod_name Metis_mod = ''metis''"
| "kmod_name Migt_mod = ''migt''"
| "kmod_name Miloadtrace_mod = ''miloadtrace''"
| "kmod_name Miev_mod = ''miev''"
| "kmod_name Perf_helper_mod = ''perf_helper''"
| "kmod_name Hwid_mod = ''hwid''"
| "kmod_name Thermal_mod = ''mi_thermal_interface''"

fun declared_depends :: "kmod \<Rightarrow> string list option" where
  "declared_depends Miloadtrace_mod = Some [''mi_schedule'', ''sched-walt'', ''metis'']"
| "declared_depends Metis_mod = Some [''mi_schedule'', ''mist'']"
| "declared_depends Mist_mod = Some [''clk-qcom'', ''qcom-pmu-lib'', ''qcom-dcvs'']"
| "declared_depends Mi_sched = Some []"
| "declared_depends Perf_helper_mod = Some [''sched-walt'']"
| "declared_depends m = None"

definition uses :: "kmod \<Rightarrow> kmod \<Rightarrow> bool" where
  "uses u m \<longleftrightarrow> (\<exists>n \<in> set (needs u). n \<in> set (exported m))"

section \<open>No symbol is exported twice\<close>

definition small_tables :: "string list" where
  "small_tables = migt_exports @ miload_exports @ miev_exports @ hwid_exports @ thermal_exports"

definition names_apart :: "string list \<Rightarrow> string list \<Rightarrow> bool" where
  "names_apart xs ys \<longleftrightarrow> list_all (\<lambda>x. x \<notin> set ys) xs"

lemmas small_defs = small_tables_def migt_exports_def miev_exports_def hwid_exports_def
  miload_exports_def thermal_exports_def

lemmas name_eval = names_apart_def list.pred_inject list.map fst_conv append.simps list.set insert_iff
  empty_iff list.inject list.distinct char.inject simp_thms

lemmas metis_others = xiaomi_exports_def sched_tables mist_tables small_defs

abbreviation others :: "string list" where
  "others \<equiv> map fst xiaomi_exports @ map fst sched_exports @ map fst mist_exports @ small_tables"

lemma metis_apart_0: "names_apart (map fst metis_exported_data) others"
  by (simp only: metis_exported_data_def metis_others name_eval)

lemma metis_apart_1: "names_apart (map fst metis_exports_1) others"
  by (simp only: metis_exports_1_def metis_others name_eval)

lemma metis_apart_2: "names_apart (map fst metis_exports_2) others"
  by (simp only: metis_exports_2_def metis_others name_eval)

lemma metis_apart_3: "names_apart (map fst metis_exports_3) others"
  by (simp only: metis_exports_3_def metis_others name_eval)

lemma metis_apart_4: "names_apart (map fst metis_exports_4) others"
  by (simp only: metis_exports_4_def metis_others name_eval)

lemma metis_apart_5: "names_apart (map fst metis_exports_5) others"
  by (simp only: metis_exports_5_def metis_others name_eval)

lemma metis_apart_6: "names_apart (map fst metis_exports_6) others"
  by (simp only: metis_exports_6_def metis_others name_eval)

lemma mist_apart: "names_apart (map fst mist_exports) small_tables"
  by (simp only: mist_tables small_defs name_eval)

lemma sched_apart: "names_apart (map fst sched_exports) (map fst mist_exports @ small_tables)"
  by (simp only: sched_tables mist_tables small_defs name_eval)

lemma walt_apart:
  "names_apart (map fst xiaomi_exports) (map fst sched_exports @ map fst mist_exports @ small_tables)"
  by (simp only: xiaomi_exports_def sched_tables mist_tables small_defs name_eval)

lemma migt_apart: "names_apart migt_exports (miload_exports @ miev_exports @ hwid_exports @ thermal_exports)"
  by (simp only: small_defs name_eval)

lemma miload_apart: "names_apart miload_exports (miev_exports @ hwid_exports @ thermal_exports)"
  by (simp only: small_defs name_eval)

lemma miev_apart: "names_apart miev_exports (hwid_exports @ thermal_exports)"
  by (simp only: small_defs name_eval)

lemma hwid_apart: "names_apart hwid_exports thermal_exports"
  by (simp only: small_defs name_eval)

lemma names_apart_append [simp]:
  "names_apart (xs @ ys) zs \<longleftrightarrow> names_apart xs zs \<and> names_apart ys zs"
  "names_apart xs (ys @ zs) \<longleftrightarrow> names_apart xs ys \<and> names_apart xs zs"
  "names_apart [] zs" "names_apart zs []"
  by (auto simp: names_apart_def list_all_iff)

lemma metis_apart: "names_apart (map fst metis_exports) others"
  using metis_apart_0 metis_apart_1 metis_apart_2 metis_apart_3 metis_apart_4 metis_apart_5 metis_apart_6
  by (simp only: metis_exports_def map_append names_apart_append simp_thms)

text \<open>The modules in the order of the lemmas: each is apart from those behind it.\<close>

definition all_kmods :: "kmod list" where
  "all_kmods = [Metis_mod, Sched_walt, Mi_sched, Mist_mod, Migt_mod, Miloadtrace_mod, Miev_mod,
     Hwid_mod, Thermal_mod, Perf_helper_mod]"

lemma all_kmods_UNIV: "m \<in> set all_kmods"
  by (cases m) (simp_all add: all_kmods_def)

lemma sorted_wrt_apart:
  assumes "sorted_wrt (\<lambda>a b. names_apart (f a) (f b)) ms" and "a \<in> set ms" and "b \<in> set ms" and "a \<noteq> b"
  shows "set (f a) \<inter> set (f b) = {}"
  using assms by (induction ms) (auto simp: names_apart_def list_all_iff)

lemma kmods_apart: "sorted_wrt (\<lambda>a b. names_apart (exported a) (exported b)) all_kmods"
  using metis_apart walt_apart sched_apart mist_apart migt_apart miload_apart miev_apart hwid_apart
  unfolding all_kmods_def small_tables_def
  by (simp only: sorted_wrt.simps list.set ball_simps exported.simps names_apart_append simp_thms)

lemma exports_unique: "n \<in> set (exported a) \<Longrightarrow> n \<in> set (exported b) \<Longrightarrow> a = b"
  using sorted_wrt_apart [OF kmods_apart all_kmods_UNIV all_kmods_UNIV, of a b] by blast

section \<open>Who provides what\<close>

fun kmod_of :: "provider \<Rightarrow> kmod" where
  "kmod_of From_walt = Sched_walt"
| "kmod_of From_sched = Mi_sched"
| "kmod_of From_metis = Metis_mod"

abbreviation providers :: "kmod set" where
  "providers \<equiv> {Sched_walt, Mi_sched, Metis_mod}"

lemma extern_names_exported:
  "case externs_of h of (p, reg, unreg) \<Rightarrow> reg \<in> set (exported (kmod_of p)) \<and> unreg \<in> set (exported (kmod_of p))"
  by (cases h) (simp_all add: xiaomi_exports_def sched_tables metis_exports_def metis_exports_4_def)

lemmas import_defs = walt_imports_def sched_imports_def mist_imports_def metis_imports_def
  migt_imports_def miload_imports_def miev_imports_def perf_imports_def hwid_imports_def thermal_imports_def

lemmas interface_defs = kernel_interface_def vendor_interface_def

abbreviation outside_names :: "string list" where
  "outside_names \<equiv> kernel_interface @ vendor_interface"

lemma interface_apart_metis_0: "names_apart (map fst metis_exported_data) outside_names"
  by (simp only: metis_exported_data_def interface_defs name_eval)

lemma interface_apart_metis_1: "names_apart (map fst metis_exports_1) outside_names"
  by (simp only: metis_exports_1_def interface_defs name_eval)

lemma interface_apart_metis_2: "names_apart (map fst metis_exports_2) outside_names"
  by (simp only: metis_exports_2_def interface_defs name_eval)

lemma interface_apart_metis_3: "names_apart (map fst metis_exports_3) outside_names"
  by (simp only: metis_exports_3_def interface_defs name_eval)

lemma interface_apart_metis_4: "names_apart (map fst metis_exports_4) outside_names"
  by (simp only: metis_exports_4_def interface_defs name_eval)

lemma interface_apart_metis_5: "names_apart (map fst metis_exports_5) outside_names"
  by (simp only: metis_exports_5_def interface_defs name_eval)

lemma interface_apart_metis_6: "names_apart (map fst metis_exports_6) outside_names"
  by (simp only: metis_exports_6_def interface_defs name_eval)

lemma interface_apart_walt: "names_apart (map fst xiaomi_exports) outside_names"
  by (simp only: xiaomi_exports_def interface_defs name_eval)

lemma interface_apart_sched: "names_apart (map fst sched_exports) outside_names"
  by (simp only: sched_tables interface_defs name_eval)

lemma interface_apart_mist: "names_apart (map fst mist_exports) outside_names"
  by (simp only: mist_tables interface_defs name_eval)

lemma interface_apart_small: "names_apart small_tables outside_names"
  by (simp only: small_defs interface_defs name_eval)

lemma exported_outside: "names_apart (exported m) outside_names"
proof -
  have "names_apart (map fst metis_exports) outside_names"
    using interface_apart_metis_0 interface_apart_metis_1 interface_apart_metis_2 interface_apart_metis_3
      interface_apart_metis_4 interface_apart_metis_5 interface_apart_metis_6
    by (simp only: metis_exports_def map_append names_apart_append simp_thms)
  then show ?thesis
    using interface_apart_walt interface_apart_sched interface_apart_mist interface_apart_small
    by (cases m) (simp_all only: exported.simps small_tables_def names_apart_append simp_thms)
qed

lemma imports_interface: "set (imported m) \<subseteq> set outside_names"
proof -
  have "list_all (\<lambda>n. n \<in> set outside_names) (imported m)"
    by (cases m; simp only: imported.simps import_defs interface_defs name_eval)
  then show ?thesis by (auto simp: list_all_iff)
qed

lemma imports_outside: "n \<in> set (imported u) \<Longrightarrow> n \<notin> set (exported m)"
  using imports_interface [of u] exported_outside [of m] by (auto simp: names_apart_def list_all_iff)

lemma hook_functions_iff:
  "n \<in> set hook_functions \<longleftrightarrow> (\<exists>h. n = fst (snd (externs_of h)) \<or> n = snd (snd (externs_of h)))"
  unfolding hook_functions_def using hook_order_all(1) by (auto simp: case_prod_beta)

lemma hook_function_exported:
  assumes "n \<in> set hook_functions"
  obtains h where "n \<in> set (exported (kmod_of (fst (externs_of h))))"
    and "n = fst (snd (externs_of h)) \<or> n = snd (snd (externs_of h))"
  using assms extern_names_exported unfolding hook_functions_iff case_prod_beta by blast

lemma needs_iff:
  "n \<in> set (needs u) \<longleftrightarrow> n \<in> set (imported u) \<or> u = Miloadtrace_mod \<and> n \<in> set hook_functions"
  by (cases u) (auto simp: miload_needs_def)

lemma uses_iff: "uses u m \<longleftrightarrow> u = Miloadtrace_mod \<and> (\<exists>n \<in> set hook_functions. n \<in> set (exported m))"
proof -
  have "(n \<in> set (needs u) \<and> n \<in> set (exported m)) \<longleftrightarrow>
      (u = Miloadtrace_mod \<and> n \<in> set hook_functions \<and> n \<in> set (exported m))" for n
    using imports_outside [of n u m] needs_iff [of n u] by argo
  then show ?thesis unfolding uses_def Bex_def by blast
qed

lemma miload_uses: "uses Miloadtrace_mod m \<longleftrightarrow> m \<in> providers"
proof
  assume "uses Miloadtrace_mod m"
  then obtain n where n: "n \<in> set hook_functions" "n \<in> set (exported m)" by (auto simp: uses_iff)
  obtain h where "n \<in> set (exported (kmod_of (fst (externs_of h))))" using n(1) by (rule hook_function_exported)
  with n have "m = kmod_of (fst (externs_of h))" using exports_unique by blast
  then show "m \<in> providers" by (cases "fst (externs_of h)") simp_all
next
  have ex: "uses Miloadtrace_mod (kmod_of (fst (externs_of h)))" for h
  proof -
    have "fst (snd (externs_of h)) \<in> set hook_functions" by (auto simp: hook_functions_iff)
    then show ?thesis
      unfolding uses_iff using extern_names_exported [of h]
      by (auto simp: case_prod_beta intro!: bexI [of _ "fst (snd (externs_of h))"])
  qed
  show "m \<in> providers \<Longrightarrow> uses Miloadtrace_mod m"
    using ex [of Mi_update_fravg] ex [of Task_group_change] ex [of Ui_task_detect] by auto
qed

lemma other_uses: "u \<noteq> Miloadtrace_mod \<Longrightarrow> \<not> uses u m"
  by (simp add: uses_iff)

lemma unresolved_iff:
  "((\<exists>u. n \<in> set (needs u)) \<and> (\<forall>m. n \<notin> set (exported m))) \<longleftrightarrow> (\<exists>u. n \<in> set (imported u))"
proof
  assume n: "(\<exists>u. n \<in> set (needs u)) \<and> (\<forall>m. n \<notin> set (exported m))"
  then obtain u where u: "n \<in> set (needs u)" by blast
  have "n \<notin> set hook_functions"
  proof
    assume "n \<in> set hook_functions"
    then obtain h where "n \<in> set (exported (kmod_of (fst (externs_of h))))" by (rule hook_function_exported)
    then show False using n by blast
  qed
  then show "\<exists>u. n \<in> set (imported u)" using u unfolding needs_iff by blast
next
  assume "\<exists>u. n \<in> set (imported u)"
  then obtain u where u: "n \<in> set (imported u)" by blast
  then have "n \<in> set (needs u)" unfolding needs_iff by (rule disjI1)
  then show "(\<exists>u. n \<in> set (needs u)) \<and> (\<forall>m. n \<notin> set (exported m))" using imports_outside [OF u] by blast
qed

lemma unresolved: "(\<Union>u. set (needs u)) - (\<Union>m. set (exported m)) = (\<Union>u. set (imported u))"
proof (rule set_eqI)
  fix n
  show "n \<in> (\<Union>u. set (needs u)) - (\<Union>m. set (exported m)) \<longleftrightarrow> n \<in> (\<Union>u. set (imported u))"
    using unresolved_iff [of n] by (simp only: Diff_iff UN_iff UNIV_I bex_UNIV simp_thms not_ex)
qed

lemma vendor_users: "(\<exists>n \<in> set vendor_interface. n \<in> set (imported u)) \<longleftrightarrow> u \<in> {Miloadtrace_mod, Thermal_mod}"
  by (cases u; simp only: imported.simps import_defs interface_defs name_eval bex_simps kmod.distinct)

lemma extern_unique:
  "\<exists>!m. fst (snd (externs_of h)) \<in> set (exported m)" "\<exists>!m. snd (snd (externs_of h)) \<in> set (exported m)"
proof -
  have "fst (snd (externs_of h)) \<in> set (exported (kmod_of (fst (externs_of h))))"
    "snd (snd (externs_of h)) \<in> set (exported (kmod_of (fst (externs_of h))))"
    using extern_names_exported [of h] unfolding case_prod_beta by blast+
  then show "\<exists>!m. fst (snd (externs_of h)) \<in> set (exported m)" "\<exists>!m. snd (snd (externs_of h)) \<in> set (exported m)"
    using exports_unique by blast+
qed


end
