(* ===== verification/Module_Loader.thy ===== *)
theory Module_Loader
  imports Module_Symbols
begin

text \<open>
  Loading the ten modules together. The kernel's loader is a parameter of the model; what is used
  of it is its documented behaviour (\<open>loader_ok\<close>) and what else the kernel offers (\<open>outside_ok\<close>).
\<close>

section \<open>The loader\<close>

text \<open>
  The kernel as the modules meet it: the symbols it and modules outside the repository offer, and
  the answers of its loader, given the modules that are loaded.
\<close>

record kernel =
  offered :: "string set"
  load_check :: "kmod list \<Rightarrow> kmod \<Rightarrow> int"
  unload_check :: "kmod list \<Rightarrow> kmod \<Rightarrow> int"

definition available :: "kernel \<Rightarrow> kmod list \<Rightarrow> string set" where
  "available k loaded = offered k \<union> (\<Union>m \<in> set loaded. set (exported m))"

text \<open>
  The documented behaviour: a module is accepted when it is not loaded yet, its symbols resolve
  and it exports no symbol that exists already; it can be removed only while no loaded module
  uses it.
\<close>

definition loader_ok :: "kernel \<Rightarrow> bool" where
  "loader_ok k \<longleftrightarrow>
     (\<forall>loaded m. load_check k loaded m = 0 \<longleftrightarrow> m \<notin> set loaded \<and>
        set (needs m) \<subseteq> available k loaded \<and> set (exported m) \<inter> available k loaded = {}) \<and>
     (\<forall>loaded m. unload_check k loaded m = 0 \<longrightarrow> m \<in> set loaded \<and>
        (\<forall>u \<in> set loaded. \<not> uses u m))"

text \<open>What is outside the repository offers none of the symbols of the ten modules. Whether it offers
  what a module imports from it is left open: kernels differ in this, and one without the notifier
  of the panels does not offer what the thermal module needs.\<close>

definition outside_ok :: "kernel \<Rightarrow> bool" where
  "outside_ok k \<longleftrightarrow> offered k \<inter> (\<Union>m. set (exported m)) = {}"

definition supported :: "kernel \<Rightarrow> kmod \<Rightarrow> bool" where
  "supported k m \<longleftrightarrow> set (imported m) \<subseteq> offered k"

definition insert_module :: "kernel \<Rightarrow> int \<Rightarrow> kmod \<Rightarrow> kmod list \<Rightarrow> int \<times> kmod list" where
  "insert_module k init_ret m loaded =
     (if load_check k loaded m \<noteq> 0 then (load_check k loaded m, loaded)
      else if init_ret \<noteq> 0 then (init_ret, loaded) else (0, m # loaded))"

definition remove_module :: "kernel \<Rightarrow> kmod \<Rightarrow> kmod list \<Rightarrow> int \<times> kmod list" where
  "remove_module k m loaded =
     (if unload_check k loaded m \<noteq> 0 then (unload_check k loaded m, loaded) else (0, removeAll m loaded))"

text \<open>Loading one module after the other; \<open>ri m\<close> is what the init function of \<open>m\<close> returns.\<close>

definition load_all :: "kernel \<Rightarrow> (kmod \<Rightarrow> int) \<Rightarrow> kmod list \<Rightarrow> kmod list \<Rightarrow> kmod list" where
  "load_all k ri ms loaded = fold (\<lambda>m l. snd (insert_module k (ri m) m l)) ms loaded"

lemma exports_free:
  assumes "outside_ok k" and "m \<notin> set loaded"
  shows "set (exported m) \<inter> available k loaded = {}"
proof -
  have "set (exported m) \<inter> set (exported m') = {}" if "m' \<in> set loaded" for m'
    using assms(2) that exports_unique [of _ m m'] by blast
  moreover have "set (exported m) \<inter> offered k = {}"
    using assms(1) unfolding outside_ok_def by blast
  ultimately show ?thesis unfolding available_def by blast
qed

lemma load_check_iff:
  "loader_ok k \<Longrightarrow> load_check k loaded m = 0 \<longleftrightarrow> m \<notin> set loaded \<and>
     set (needs m) \<subseteq> available k loaded \<and> set (exported m) \<inter> available k loaded = {}"
  unfolding loader_ok_def by blast

lemma imported_available:
  "set (imported m) \<subseteq> available k loaded \<longleftrightarrow> supported k m"
  unfolding available_def supported_def using imports_outside [of _ m] by blast

lemma load_other:
  assumes "loader_ok k" and "outside_ok k" and "m \<noteq> Miloadtrace_mod"
  shows "load_check k loaded m = 0 \<longleftrightarrow> m \<notin> set loaded \<and> supported k m"
proof -
  have "set (needs m) = set (imported m)" using assms(3) by (auto simp: needs_iff)
  then have "set (needs m) \<subseteq> available k loaded \<longleftrightarrow> supported k m" by (simp only: imported_available)
  then show ?thesis using load_check_iff [OF assms(1)] exports_free [OF assms(2)] by blast
qed

lemma provider_name:
  assumes "m \<in> providers"
  obtains n where "n \<in> set hook_functions" and "n \<in> set (exported m)"
proof -
  have "uses Miloadtrace_mod m" using assms unfolding miload_uses .
  then show ?thesis using that unfolding uses_iff by blast
qed

lemma resolved_providers:
  assumes "outside_ok k" and "set hook_functions \<subseteq> available k loaded" and "m \<in> providers"
  shows "m \<in> set loaded"
proof -
  obtain n where n: "n \<in> set hook_functions" "n \<in> set (exported m)" using assms(3) by (rule provider_name)
  have "n \<notin> offered k" using assms(1) n(2) unfolding outside_ok_def by blast
  then obtain m' where m': "m' \<in> set loaded" "n \<in> set (exported m')"
    using assms(2) n(1) unfolding available_def by blast
  show ?thesis using exports_unique [OF n(2) m'(2)] m'(1) by simp
qed

lemma providers_resolve:
  assumes "providers \<subseteq> set loaded"
  shows "set hook_functions \<subseteq> available k loaded"
proof
  fix n
  assume "n \<in> set hook_functions"
  then obtain h where h: "n \<in> set (exported (kmod_of (fst (externs_of h))))" by (rule hook_function_exported)
  have "kmod_of (fst (externs_of h)) \<in> set loaded" using assms by (cases "fst (externs_of h)") auto
  then show "n \<in> available k loaded" using h unfolding available_def by blast
qed

lemma load_miload:
  assumes "loader_ok k" and "outside_ok k"
  shows "load_check k loaded Miloadtrace_mod = 0 \<longleftrightarrow>
    Miloadtrace_mod \<notin> set loaded \<and> supported k Miloadtrace_mod \<and> providers \<subseteq> set loaded"
proof -
  have "set hook_functions \<subseteq> available k loaded \<longleftrightarrow> providers \<subseteq> set loaded"
  proof
    show "set hook_functions \<subseteq> available k loaded \<Longrightarrow> providers \<subseteq> set loaded"
      by (rule subsetI, rule resolved_providers [OF assms(2)])
  qed (rule providers_resolve)
  moreover have "set (needs Miloadtrace_mod) = set hook_functions \<union> set (imported Miloadtrace_mod)"
    by (simp add: miload_needs_def)
  moreover have "Miloadtrace_mod \<notin> set loaded \<Longrightarrow> set (exported Miloadtrace_mod) \<inter> available k loaded = {}"
    by (rule exports_free [OF assms(2)])
  ultimately show ?thesis
    unfolding load_check_iff [OF assms(1)] using imported_available [of Miloadtrace_mod k loaded] by auto
qed

section \<open>Load orders\<close>

text \<open>What a module needs to be loaded besides the providers.\<close>

abbreviation loads :: "kernel \<Rightarrow> (kmod \<Rightarrow> int) \<Rightarrow> kmod \<Rightarrow> bool" where
  "loads k ri m \<equiv> supported k m \<and> ri m = 0"

lemma load_all_others:
  assumes "loader_ok k" and "outside_ok k" and "Miloadtrace_mod \<notin> set ms"
  shows "set (load_all k ri ms loaded) = set loaded \<union> {m \<in> set ms. loads k ri m}"
  using assms(3)
proof (induction ms arbitrary: loaded)
  case (Cons m ms)
  have "set (snd (insert_module k (ri m) m loaded)) = (if loads k ri m then insert m (set loaded) else set loaded)"
    using load_other [OF assms(1,2), of m loaded] Cons.prems by (auto simp: insert_module_def)
  then show ?case using Cons by (auto simp: load_all_def)
qed (simp add: load_all_def)

lemma load_all_append: "load_all k ri (xs @ ys) loaded = load_all k ri ys (load_all k ri xs loaded)"
  by (simp add: load_all_def)

text \<open>C27: Which modules a sequence of loads brings up. With the documented loader and any kernel
  that exports none of the modules' own symbols, load any selection of the ten modules, each once and
  in any order, and let the init functions return what they like. A module other than \<open>miloadtrace\<close> is
  loaded at the end exactly when the kernel offers its imports and its init succeeds; the order does
  not matter, in particular not the one \<open>metis\<close> declares behind \<open>mi_schedule\<close> and \<open>mist\<close>. For
  \<open>miloadtrace\<close> the three providers must have come up before it.\<close>

theorem load_orders:
  assumes "loader_ok k" and "outside_ok k" and "distinct ms"
  shows "set (load_all k ri ms []) =
    {m \<in> set ms. loads k ri m \<and> (m = Miloadtrace_mod \<longrightarrow>
      (\<forall>p \<in> providers. loads k ri p \<and> p \<in> set (takeWhile (\<lambda>m. m \<noteq> Miloadtrace_mod) ms)))}"
proof (cases "Miloadtrace_mod \<in> set ms")
  case False
  then show ?thesis using load_all_others [OF assms(1,2) False, of ri "[]"] by auto
next
  case True
  define pre where "pre = takeWhile (\<lambda>m. m \<noteq> Miloadtrace_mod) ms"
  obtain post where ms: "ms = pre @ Miloadtrace_mod # post"
    using split_at_first [OF True] unfolding pre_def by blast
  have nin: "Miloadtrace_mod \<notin> set pre" "Miloadtrace_mod \<notin> set post" using assms(3) ms by auto
  define l where "l = load_all k ri pre []"
  have l: "set l = {m \<in> set pre. loads k ri m}"
    using load_all_others [OF assms(1,2) nin(1), of ri "[]"] by (simp add: l_def)
  let ?l' = "snd (insert_module k (ri Miloadtrace_mod) Miloadtrace_mod l)"
  have all: "set (load_all k ri ms []) = set ?l' \<union> {m \<in> set post. loads k ri m}"
    using load_all_others [OF assms(1,2) nin(2), of ri ?l']
    by (simp add: ms load_all_append l_def) (simp add: load_all_def)
  have "set ?l' = (if loads k ri Miloadtrace_mod \<and> providers \<subseteq> set l then insert Miloadtrace_mod (set l) else set l)"
    using load_miload [OF assms(1,2), of l] nin(1) l by (auto simp: insert_module_def)
  moreover have "providers \<subseteq> set l \<longleftrightarrow> (\<forall>p \<in> providers. loads k ri p \<and> p \<in> set pre)" unfolding l by blast
  ultimately have "set (load_all k ri ms []) =
      {m \<in> set pre \<union> set post. loads k ri m} \<union>
      (if loads k ri Miloadtrace_mod \<and> (\<forall>p \<in> providers. loads k ri p \<and> p \<in> set pre) then {Miloadtrace_mod} else {})"
    unfolding all l by auto
  moreover have "set ms = insert Miloadtrace_mod (set pre \<union> set post)" by (simp add: ms)
  ultimately show ?thesis using nin unfolding pre_def [symmetric] by auto
qed

text \<open>A kernel as documented that offers what the modules import, and one without the notifier of the
  panels.\<close>

definition kernel_with :: "string set \<Rightarrow> kernel" where
  "kernel_with outside = \<lparr>offered = outside,
     load_check = (\<lambda>loaded m. if m \<in> set loaded then - EEXIST
       else if \<not> set (needs m) \<subseteq> outside \<union> (\<Union>m \<in> set loaded. set (exported m)) then - ENOENT
       else if set (exported m) \<inter> (outside \<union> (\<Union>m \<in> set loaded. set (exported m))) \<noteq> {} then - ENOEXEC
       else 0),
     unload_check = (\<lambda>loaded m. if m \<notin> set loaded then - ENOENT
       else if \<exists>u \<in> set loaded. uses u m then - EAGAIN else 0)\<rparr>"

definition plain_kernel :: kernel where
  "plain_kernel = kernel_with (set outside_names)"

definition panel_less_kernel :: kernel where
  "panel_less_kernel = kernel_with (set outside_names - {''panel_event_notifier_register''})"

lemma kernel_with_ok:
  assumes "outside \<subseteq> set outside_names"
  shows "loader_ok (kernel_with outside)" "outside_ok (kernel_with outside)"
proof -
  show "loader_ok (kernel_with outside)"
    unfolding loader_ok_def kernel_with_def available_def by simp
  show "outside_ok (kernel_with outside)"
    using assms exported_outside unfolding outside_ok_def kernel_with_def names_apart_def list_all_iff
    by (auto simp del: set_append)
qed

lemma plain_kernel_ok: "loader_ok plain_kernel" "outside_ok plain_kernel"
  unfolding plain_kernel_def by (rule kernel_with_ok, rule subset_refl)+

lemma panel_less_kernel_ok: "loader_ok panel_less_kernel" "outside_ok panel_less_kernel"
  unfolding panel_less_kernel_def by (rule kernel_with_ok, rule Diff_subset)+

lemma plain_kernel_supports: "supported plain_kernel m"
  using imports_interface unfolding supported_def plain_kernel_def kernel_with_def by simp

lemma panel_less_supports: "supported panel_less_kernel m \<longleftrightarrow> m \<noteq> Thermal_mod"
proof -
  have "''panel_event_notifier_register'' \<in> set (imported m) \<longleftrightarrow> m = Thermal_mod"
    by (cases m; simp only: imported.simps import_defs name_eval kmod.distinct)
  then show ?thesis
    using imports_interface [of m] unfolding supported_def panel_less_kernel_def kernel_with_def
    by (auto simp del: set_append)
qed

theorem load_orders_witness:
  "set (load_all plain_kernel (\<lambda>m. if m = Miev_mod then - 12 else 0)
       [Metis_mod, Miev_mod, Mi_sched, Sched_walt, Miloadtrace_mod, Thermal_mod] []) =
     {Metis_mod, Mi_sched, Sched_walt, Miloadtrace_mod, Thermal_mod} \<and>
   set (load_all panel_less_kernel (\<lambda>_. 0) [Mi_sched, Sched_walt, Thermal_mod, Miloadtrace_mod, Metis_mod] []) =
     {Mi_sched, Sched_walt, Metis_mod}"
  using load_orders [OF plain_kernel_ok, of "[Metis_mod, Miev_mod, Mi_sched, Sched_walt, Miloadtrace_mod, Thermal_mod]"
      "\<lambda>m. if m = Miev_mod then - 12 else 0"]
    load_orders [OF panel_less_kernel_ok, of "[Mi_sched, Sched_walt, Thermal_mod, Miloadtrace_mod, Metis_mod]" "\<lambda>_. 0"]
  by (auto simp: plain_kernel_supports panel_less_supports)

end
