(* ===== verification/Module_System.thy ===== *)
theory Module_System
  imports Module_Loader
begin

text \<open>
  The scheduler modules running together. A machine has the list of loaded modules and the state
  of the four modules that share hooks: the three registries and \<open>miloadtrace\<close>. Modules come and
  go as the loader allows, their parameter files are written, and modules outside the repository
  use the same register functions. The theorem says that no registry ever holds a callback of
  \<open>miloadtrace\<close> while that module is not loaded.
\<close>

section \<open>The machine\<close>

record machine =
  mods :: "kmod list"
  sys :: "sched_world miload_sys"

text \<open>The owner of a slot.\<close>

definition owner :: "miload_hook \<Rightarrow> kmod" where
  "owner h = kmod_of (fst (externs_of h))"

text \<open>
  Loading a module gives it its static data and runs its init function. The result of the init
  functions that only concern their own module is an argument.
\<close>

fun run_init :: "kmod \<Rightarrow> miload_env \<Rightarrow> int \<Rightarrow> sched_world miload_sys \<Rightarrow> int \<times> sched_world miload_sys" where
  "run_init Sched_walt env r s = (0, s\<lparr>world := (world s)\<lparr>w_xiaomi := xiaomi_hooks_init\<rparr>\<rparr>)"
| "run_init Mi_sched env r s =
     (case mi_schedule_init mi_schedule_start of (ret, d) \<Rightarrow> (ret, s\<lparr>world := (world s)\<lparr>w_sched := d\<rparr>\<rparr>))"
| "run_init Metis_mod env r s = (0, s\<lparr>world := (world s)\<lparr>w_metis := metis_start\<rparr>\<rparr>)"
| "run_init Miloadtrace_mod env r s = miloadtrace_init linked env s"
| "run_init m env r s = (r, s)"

fun run_exit :: "kmod \<Rightarrow> sched_world miload_sys \<Rightarrow> sched_world miload_sys" where
  "run_exit Miloadtrace_mod s = miloadtrace_exit linked s"
| "run_exit m s = s"

text \<open>
  What can happen: loading, unloading, a write to one of the two switch files, a module outside
  the repository that registers or unregisters a function of its own.
\<close>

datatype sys_event = Insmod kmod miload_env int | Rmmod kmod | Walt_switch bool | Safe_boot bool
  | Outside_register miload_hook nat | Outside_unregister miload_hook

definition on_world :: "(sched_world \<Rightarrow> sched_world) \<Rightarrow> machine \<Rightarrow> machine" where
  "on_world f M = M\<lparr>sys := (sys M)\<lparr>world := f (world (sys M))\<rparr>\<rparr>"

fun sys_do :: "kernel \<Rightarrow> sys_event \<Rightarrow> machine \<Rightarrow> machine" where
  "sys_do k (Insmod m env r) M =
     (if load_check k (mods M) m \<noteq> 0 then M
      else (case run_init m env r (sys M) of (ret, s) \<Rightarrow>
        M\<lparr>mods := snd (insert_module k ret m (mods M)), sys := s\<rparr>))"
| "sys_do k (Rmmod m) M =
     (if unload_check k (mods M) m \<noteq> 0 then M
      else M\<lparr>mods := snd (remove_module k m (mods M)), sys := run_exit m (sys M)\<rparr>)"
| "sys_do k (Walt_switch b) M =
     (if Sched_walt \<in> set (mods M) then on_world (\<lambda>w. w\<lparr>w_xiaomi := xiaomi_switch b (w_xiaomi w)\<rparr>) M else M)"
| "sys_do k (Safe_boot b) M =
     (if Metis_mod \<in> set (mods M) then on_world (\<lambda>w. w\<lparr>w_metis := metis_switch (\<not> b) (w_metis w)\<rparr>) M else M)"
| "sys_do k (Outside_register h f) M =
     (if owner h \<in> set (mods M) then on_world (\<lambda>w. snd (linked_register h (Some f) w)) M else M)"
| "sys_do k (Outside_unregister h) M =
     (if owner h \<in> set (mods M) then on_world (\<lambda>w. snd (linked_unregister h w)) M else M)"

text \<open>
  The events considered: the safe boot switch is not thrown while \<open>miloadtrace\<close> is loaded, and no
  other module registers a function of \<open>miloadtrace\<close>.
\<close>

fun event_ok :: "machine \<Rightarrow> sys_event \<Rightarrow> bool" where
  "event_ok M (Safe_boot b) = (Miloadtrace_mod \<notin> set (mods M))"
| "event_ok M (Outside_register h f) = (f \<notin> range callback)"
| "event_ok M _ = True"

inductive sys_reach :: "kernel \<Rightarrow> machine \<Rightarrow> bool" for k where
  boot: "mods M = [] \<Longrightarrow> sys_reach k M"
| step: "sys_reach k M \<Longrightarrow> event_ok M e \<Longrightarrow> sys_reach k (sys_do k e M)"

section \<open>What the register functions do to the slots\<close>

abbreviation safe_boot :: "sched_world \<Rightarrow> bool" where
  "safe_boot w \<equiv> metis_safe_boot (w_metis w)"

definition foreign :: "hook \<Rightarrow> bool" where
  "foreign x \<longleftrightarrow> (\<forall>j. x \<noteq> Some (callback j))"

lemma foreign_None [simp]: "foreign None"
  by (simp add: foreign_def)

lemma safe_boot_live: "safe_boot w = (\<not> linked_live w Ui_task_detect)"
  by simp

lemma unregister_slot:
  "linked_slot (snd (linked_unregister h w)) k =
     (if k = h \<and> \<not> (h = Ui_task_detect \<and> safe_boot w) then None else linked_slot w k)"
  by (cases h; cases k) (simp_all add: linked_defs)

lemma register_slot:
  "linked_slot (snd (linked_register h (Some f) w)) k \<in> {None, Some f, linked_slot w k}"
  "k \<noteq> h \<Longrightarrow> linked_slot (snd (linked_register h (Some f) w)) k = linked_slot w k"
  "safe_boot w \<Longrightarrow> linked_slot (snd (linked_register h (Some f) w)) Ui_task_detect = linked_slot w Ui_task_detect"
  by (cases h; cases k; simp add: linked_defs)+

lemma keeps_safe_boot:
  "safe_boot (snd (linked_register h (Some f) w)) = safe_boot w"
  "safe_boot (snd (linked_unregister h w)) = safe_boot w"
  unfolding safe_boot_live linked_register_live linked_unregister_live by simp_all

lemma unregister_fold:
  "linked_slot (fold (xunreg linked) hs w) k =
     (if k \<in> set hs \<and> \<not> (k = Ui_task_detect \<and> safe_boot w) then None else linked_slot w k)"
proof (induction hs arbitrary: w)
  case (Cons h hs)
  then show ?case
    by (auto simp: linked_def unregister_slot keeps_safe_boot simp del: linked_slot.simps)
qed simp

lemma unregister_all:
  "linked_slot (miload_unregister_hooks linked w) h =
     (if h = Ui_task_detect \<and> safe_boot w then linked_slot w h else None)"
  unfolding unregister_is_fold unregister_fold using hook_order_all(1) by simp

lemma register_frozen:
  "safe_boot w \<Longrightarrow> linked_slot (snd (reg_chain linked done hs w)) Ui_task_detect = linked_slot w Ui_task_detect"
  "safe_boot (snd (reg_chain linked done hs w)) = safe_boot w"
proof -
  have "safe_boot (snd (reg_chain linked done hs w)) = safe_boot w \<and> (safe_boot w \<longrightarrow>
     linked_slot (snd (reg_chain linked done hs w)) Ui_task_detect = linked_slot w Ui_task_detect)"
  proof (induction hs arbitrary: "done" w)
    case (Cons h hs)
    have "fst (linked_register h (Some (callback h)) w) = 0" by (rule linked_register_ret)
    then show ?case
      using Cons [of "h # done" "snd (linked_register h (Some (callback h)) w)"]
      by (simp add: linked_def case_prod_beta keeps_safe_boot register_slot(3) del: linked_slot.simps)
  qed simp
  then show "safe_boot w \<Longrightarrow> linked_slot (snd (reg_chain linked done hs w)) Ui_task_detect = linked_slot w Ui_task_detect"
    "safe_boot (snd (reg_chain linked done hs w)) = safe_boot w" by blast+
qed

section \<open>Loading and unloading miloadtrace among foreign hooks\<close>

lemma proc_init_world: "world (snd (miload_proc_init env s)) = world s"
  by (simp add: miload_proc_init_def Let_def)

text \<open>The world after a load of \<open>miloadtrace\<close>: untouched, registered, or registered and cleared.\<close>

lemma init_world:
  obtains (before) "fst (miloadtrace_init linked env s) \<noteq> 0"
      "world (snd (miloadtrace_init linked env s)) = world s"
  | (cleared) "fst (miloadtrace_init linked env s) \<noteq> 0"
      "world (snd (miloadtrace_init linked env s)) =
         miload_unregister_hooks linked (snd (miload_register_hooks linked (world s)))"
  | (loaded) "fst (miloadtrace_init linked env s) = 0"
      "world (snd (miloadtrace_init linked env s)) = snd (miload_register_hooks linked (world s))"
proof -
  let ?s1 = "s\<lparr>recs := init_grp_freq_record, miload_log := miload_log s @ [Get Misc]\<rparr>"
  obtain r s2 where p: "miload_proc_init env ?s1 = (r, s2)" by fastforce
  have w2: "world s2 = world s" using proc_init_world [of env ?s1] p by simp
  obtain w' where w: "miload_register_hooks linked (world s) = (0, w')"
    using linked_register_0 [of "world s"] by (metis prod.collapse)
  consider "misc_ret env \<noteq> 0" | "misc_ret env = 0" "r \<noteq> 0" | "misc_ret env = 0" "r = 0" "governor_ret env \<noteq> 0"
    | "misc_ret env = 0" "r = 0" "governor_ret env = 0" by blast
  then show thesis
  proof cases
    case 1
    then show ?thesis using before by (simp add: miloadtrace_init_def)
  next
    case 2
    then show ?thesis using before p w2
      by (simp add: miloadtrace_init_def Let_def miload_misc_deregister_def)
  next
    case 3
    then show ?thesis using cleared p w w2
      by (simp add: miloadtrace_init_def Let_def miload_misc_deregister_def proc_exit_log)
  next
    case 4
    then show ?thesis using loaded p w w2 by (simp add: miloadtrace_init_def Let_def)
  qed
qed

lemma cleared_foreign:
  assumes "safe_boot w \<longrightarrow> foreign (linked_slot w Ui_task_detect)"
  shows "foreign (linked_slot (miload_unregister_hooks linked w) h)"
  using assms by (auto simp: unregister_all simp del: linked_slot.simps)

lemma registered_frozen:
  "safe_boot (snd (miload_register_hooks linked w)) = safe_boot w"
  "safe_boot w \<Longrightarrow> linked_slot (snd (miload_register_hooks linked w)) Ui_task_detect = linked_slot w Ui_task_detect"
  unfolding register_is_chain by (rule register_frozen; assumption?)+

section \<open>The invariant\<close>

lemma owner_provider: "owner h \<in> providers"
  by (cases "fst (externs_of h)") (simp_all add: owner_def)

definition sys_inv :: "machine \<Rightarrow> bool" where
  "sys_inv M \<longleftrightarrow>
     (if Miloadtrace_mod \<in> set (mods M)
      then providers \<subseteq> set (mods M) \<and>
        (safe_boot (world (sys M)) \<longrightarrow> foreign (linked_slot (world (sys M)) Ui_task_detect))
      else \<forall>h. owner h \<in> set (mods M) \<longrightarrow> foreign (linked_slot (world (sys M)) h))"

lemma run_init_slots:
  assumes "m \<noteq> Miloadtrace_mod"
  shows "linked_slot (world (snd (run_init m env r s))) h = None \<or>
    owner h \<noteq> m \<and> linked_slot (world (snd (run_init m env r s))) h = linked_slot (world s) h"
  using assms
  by (cases m; cases h) (simp_all add: owner_def xiaomi_hooks_init_def metis_start_def
      mi_schedule_init_def mi_schedule_start_def mi_schedule_init_group_def Let_def)

lemma run_init_world_other:
  "m \<notin> insert Miloadtrace_mod providers \<Longrightarrow> snd (run_init m env r s) = s"
  by (cases m) simp_all

lemma insmod_other:
  assumes "sys_inv M" and "loader_ok k" and "outside_ok k" and "m \<noteq> Miloadtrace_mod"
  shows "sys_inv (sys_do k (Insmod m env r) M)"
proof (cases "load_check k (mods M) m = 0")
  case True
  then have new: "m \<notin> set (mods M)" using load_other [OF assms(2-4)] by blast
  obtain ret s where i: "run_init m env r (sys M) = (ret, s)" by fastforce
  define M' where "M' = sys_do k (Insmod m env r) M"
  have M': "sys M' = s" "set (mods M') = (if ret = 0 then insert m (set (mods M)) else set (mods M))"
    using True i by (simp_all add: M'_def insert_module_def)
  show ?thesis
  proof (cases "Miloadtrace_mod \<in> set (mods M)")
    case True
    then have "m \<notin> providers" using assms(1) new by (auto simp: sys_inv_def)
    then have "s = sys M" using run_init_world_other [of m env r "sys M"] assms(4) i by simp
    then show ?thesis
      using True assms(1) M' unfolding M'_def [symmetric] sys_inv_def by (auto simp del: linked_slot.simps)
  next
    case False
    have "foreign (linked_slot (world s) h)" if "owner h \<in> set (mods M')" for h
      using run_init_slots [OF assms(4), of env r "sys M" h] that False assms(1) M' i
      by (auto simp: sys_inv_def simp del: linked_slot.simps split: if_splits)
    then show ?thesis
      using False assms(4) M' unfolding M'_def [symmetric] sys_inv_def by (auto simp del: linked_slot.simps)
  qed
qed (simp add: assms(1))

lemma insmod_miload:
  assumes "sys_inv M" and "loader_ok k" and "outside_ok k"
  shows "sys_inv (sys_do k (Insmod Miloadtrace_mod env r) M)"
proof (cases "load_check k (mods M) Miloadtrace_mod = 0")
  case True
  let ?i = "miloadtrace_init linked env (sys M)"
  define M' where "M' = sys_do k (Insmod Miloadtrace_mod env r) M"
  have l: "Miloadtrace_mod \<notin> set (mods M)" "providers \<subseteq> set (mods M)"
    using True load_miload [OF assms(2,3)] by blast+
  have clean: "foreign (linked_slot (world (sys M)) h)" for h
    using assms(1) l owner_provider [of h] by (auto simp: sys_inv_def simp del: linked_slot.simps)
  have M': "sys M' = snd ?i"
    "set (mods M') = (if fst ?i = 0 then insert Miloadtrace_mod (set (mods M)) else set (mods M))"
    using True by (simp_all add: M'_def insert_module_def case_prod_beta)
  have frozen: "safe_boot (snd (miload_register_hooks linked (world (sys M)))) \<longrightarrow>
      foreign (linked_slot (snd (miload_register_hooks linked (world (sys M)))) Ui_task_detect)"
    using registered_frozen [of "world (sys M)"] clean by (simp del: linked_slot.simps)
  show ?thesis
    unfolding M'_def [symmetric]
  proof (cases rule: init_world [of env "sys M"])
    case before
    then show "sys_inv M'" using M' l clean by (simp add: sys_inv_def del: linked_slot.simps)
  next
    case cleared
    then show "sys_inv M'"
      using M' l cleared_foreign [OF frozen] by (simp add: sys_inv_def del: linked_slot.simps)
  next
    case loaded
    then show "sys_inv M'" using M' l frozen by (auto simp: sys_inv_def simp del: linked_slot.simps)
  qed
qed (simp add: assms(1))

lemma rmmod_inv:
  assumes "sys_inv M" and "loader_ok k"
  shows "sys_inv (sys_do k (Rmmod m) M)"
proof (cases "unload_check k (mods M) m = 0")
  case True
  then have u: "\<not> uses v m" if "v \<in> set (mods M)" for v
    using assms(2) that unfolding loader_ok_def by blast
  show ?thesis
  proof (cases "m = Miloadtrace_mod")
    case True
    have w: "world (run_exit Miloadtrace_mod (sys M)) = miload_unregister_hooks linked (world (sys M))"
      by (simp add: miloadtrace_exit_def Let_def miload_misc_deregister_def proc_exit_log)
    have "Miloadtrace_mod \<in> set (mods M)"
      using \<open>unload_check k (mods M) m = 0\<close> assms(2) True unfolding loader_ok_def by blast
    then have "safe_boot (world (sys M)) \<longrightarrow> foreign (linked_slot (world (sys M)) Ui_task_detect)"
      using assms(1) by (simp add: sys_inv_def del: linked_slot.simps)
    from cleared_foreign [OF this] show ?thesis
      using \<open>unload_check k (mods M) m = 0\<close> True w
      by (simp add: sys_inv_def remove_module_def del: linked_slot.simps run_exit.simps)
  next
    case False
    then have e: "run_exit m (sys M) = sys M" by (cases m) simp_all
    have "m \<notin> providers" if "Miloadtrace_mod \<in> set (mods M)"
      using u [OF that] miload_uses by blast
    then show ?thesis
      using \<open>unload_check k (mods M) m = 0\<close> assms(1) False e
      by (auto simp: sys_inv_def remove_module_def simp del: linked_slot.simps)
  qed
qed (simp add: assms(1))

text \<open>The events that only touch a registry.\<close>

lemma on_world_inv:
  assumes "sys_inv M"
    and "\<And>h. foreign (linked_slot (world (sys M)) h) \<Longrightarrow> foreign (linked_slot (f (world (sys M))) h)"
    and "Miloadtrace_mod \<in> set (mods M) \<Longrightarrow> safe_boot (f (world (sys M))) = safe_boot (world (sys M))"
  shows "sys_inv (on_world f M)"
  using assms by (auto simp: sys_inv_def on_world_def simp del: linked_slot.simps split: if_splits)

lemma switch_slots:
  "linked_slot (w\<lparr>w_xiaomi := xiaomi_switch b (w_xiaomi w)\<rparr>) h = linked_slot w h"
  "linked_slot (w\<lparr>w_metis := metis_switch b (w_metis w)\<rparr>) h = linked_slot w h"
  by (cases h; simp add: xiaomi_switch_def metis_switch_def)+

lemma sys_do_inv:
  assumes "loader_ok k" and "outside_ok k" and "sys_inv M" and "event_ok M e"
  shows "sys_inv (sys_do k e M)"
proof (cases e)
  case (Insmod m env r)
  then show ?thesis
    using insmod_other [OF assms(3,1,2)] insmod_miload [OF assms(3,1,2)] by (cases "m = Miloadtrace_mod") blast+
next
  case (Rmmod m)
  then show ?thesis using rmmod_inv [OF assms(3,1)] by simp
next
  case (Walt_switch b)
  have "sys_inv (on_world (\<lambda>w. w\<lparr>w_xiaomi := xiaomi_switch b (w_xiaomi w)\<rparr>) M)"
    by (rule on_world_inv [OF assms(3)]) (simp_all add: switch_slots del: linked_slot.simps)
  then show ?thesis using Walt_switch assms(3) by simp
next
  case (Safe_boot b)
  have "sys_inv (on_world (\<lambda>w. w\<lparr>w_metis := metis_switch (\<not> b) (w_metis w)\<rparr>) M)"
    using assms(4) Safe_boot
    by (intro on_world_inv [OF assms(3)]) (simp_all add: switch_slots del: linked_slot.simps)
  then show ?thesis using Safe_boot assms(3) by simp
next
  case (Outside_register h f)
  have "foreign (Some f)" using assms(4) Outside_register by (auto simp: foreign_def)
  then have "foreign (linked_slot w j) \<Longrightarrow> foreign (linked_slot (snd (linked_register h (Some f) w)) j)" for w j
    using register_slot(1) [of h f w j] by (auto simp del: linked_slot.simps)
  then have "sys_inv (on_world (\<lambda>w. snd (linked_register h (Some f) w)) M)"
    by (intro on_world_inv [OF assms(3)]) (simp_all add: keeps_safe_boot del: linked_slot.simps)
  then show ?thesis using Outside_register assms(3) by simp
next
  case (Outside_unregister h)
  have "sys_inv (on_world (\<lambda>w. snd (linked_unregister h w)) M)"
    by (rule on_world_inv [OF assms(3)]) (simp_all add: keeps_safe_boot unregister_slot del: linked_slot.simps)
  then show ?thesis using Outside_unregister assms(3) by simp
qed

lemma sys_reach_inv:
  assumes "loader_ok k" and "outside_ok k" and "sys_reach k M"
  shows "sys_inv M"
  using assms(3)
proof induction
  case (boot M)
  then show ?case by (simp add: sys_inv_def)
next
  case (step M e)
  then show ?case using sys_do_inv [OF assms(1,2)] by blast
qed

text \<open>C5: No callback outlives its module. Start with no module loaded and let anything happen that the
  documented loader allows: the ten modules are loaded and unloaded in any order, with any step of
  any load failing, the switch of the scheduler hooks is thrown at any time, modules outside the
  repository use the same hooks. As long as \<open>metis_safe_boot\<close> is not written while \<open>miloadtrace\<close> is
  loaded, the three modules that keep its callbacks are loaded whenever it is, and no registry that
  is loaded holds one of its callbacks when it is not.\<close>

theorem no_stale_callbacks:
  assumes "loader_ok k" and "outside_ok k" and "sys_reach k M"
  shows "(Miloadtrace_mod \<in> set (mods M) \<longrightarrow> providers \<subseteq> set (mods M)) \<and>
    (Miloadtrace_mod \<notin> set (mods M) \<and> owner h \<in> set (mods M) \<longrightarrow>
      linked_slot (world (sys M)) h \<noteq> Some (callback j))"
  using sys_reach_inv [OF assms] unfolding sys_inv_def foreign_def
  by (cases "Miloadtrace_mod \<in> set (mods M)") (simp_all only: if_True if_False, blast+)

text \<open>A run: the registries are loaded, the hooks are enabled, \<open>miloadtrace\<close> comes and goes.\<close>

fun run_ok :: "kernel \<Rightarrow> sys_event list \<Rightarrow> machine \<Rightarrow> bool" where
  "run_ok k [] M = True"
| "run_ok k (e # es) M = (event_ok M e \<and> run_ok k es (sys_do k e M))"

lemma sys_reach_run: "sys_reach k M \<Longrightarrow> run_ok k es M \<Longrightarrow> sys_reach k (fold (sys_do k) es M)"
  by (induction es arbitrary: M) (auto intro: sys_reach.step)

definition registries_up :: "sys_event list" where
  "registries_up = [Insmod Sched_walt miload_env_ok 0, Insmod Mi_sched miload_env_ok 0,
     Insmod Metis_mod miload_env_ok 0, Walt_switch True, Safe_boot False]"

definition with_miload :: machine where
  "with_miload = fold (sys_do plain_kernel) (registries_up @ [Insmod Miloadtrace_mod miload_env_ok 0])
     \<lparr>mods = [], sys = miload_start\<rparr>"

lemma on_world_mods [simp]: "mods (on_world f M) = mods M"
  by (simp add: on_world_def)

lemma insmod_mods:
  "mods (sys_do k (Insmod m env r) M) =
     (if load_check k (mods M) m = 0 \<and> fst (run_init m env r (sys M)) = 0 then m # mods M else mods M)"
  by (simp add: insert_module_def case_prod_beta)

lemma init_ok: "fst (miloadtrace_init linked miload_env_ok s) = 0"
  using linked_register_0 by (simp add: miloadtrace_init_def miload_env_ok_def miload_proc_init_def
      case_prod_beta Let_def)

lemma with_miload_reached:
  "sys_reach plain_kernel with_miload"
  "mods with_miload = [Miloadtrace_mod, Metis_mod, Mi_sched, Sched_walt]"
proof -
  note load = load_other [OF plain_kernel_ok] load_miload [OF plain_kernel_ok] plain_kernel_supports
  let ?M = "fold (sys_do plain_kernel) registries_up \<lparr>mods = [], sys = miload_start\<rparr>"
  have up: "mods ?M = [Metis_mod, Mi_sched, Sched_walt]"
    by (simp add: registries_up_def insmod_mods load mi_schedule_init_def Let_def del: sys_do.simps(1))
  then show "mods with_miload = [Miloadtrace_mod, Metis_mod, Mi_sched, Sched_walt]"
    by (simp add: with_miload_def insmod_mods load init_ok del: sys_do.simps(1))
  have "run_ok plain_kernel registries_up \<lparr>mods = [], sys = miload_start\<rparr>"
    by (simp add: registries_up_def insmod_mods load mi_schedule_init_def Let_def del: sys_do.simps(1))
  then have "sys_reach plain_kernel ?M" by (intro sys_reach_run sys_reach.boot) simp_all
  from sys_reach.step [OF this, of "Insmod Miloadtrace_mod miload_env_ok 0"]
  show "sys_reach plain_kernel with_miload" by (simp add: with_miload_def)
qed

theorem no_stale_callbacks_witness:
  "providers \<subseteq> set (mods with_miload) \<and>
   linked_slot (world (sys (sys_do plain_kernel (Rmmod Miloadtrace_mod) with_miload))) Mi_migrate \<noteq>
     Some (callback Mi_migrate)"
proof
  show "providers \<subseteq> set (mods with_miload)"
    using no_stale_callbacks [OF plain_kernel_ok with_miload_reached(1)] with_miload_reached(2) by simp
  let ?M = "sys_do plain_kernel (Rmmod Miloadtrace_mod) with_miload"
  have "unload_check plain_kernel (mods with_miload) Miloadtrace_mod = 0"
    using miload_uses other_uses by (simp add: plain_kernel_def kernel_with_def with_miload_reached(2))
  then have "mods ?M = [Metis_mod, Mi_sched, Sched_walt]"
    by (simp add: remove_module_def with_miload_reached(2))
  moreover have "sys_reach plain_kernel ?M" using with_miload_reached(1) by (rule sys_reach.step) simp
  moreover have "owner Mi_migrate = Sched_walt" by (simp add: owner_def)
  ultimately show "linked_slot (world (sys ?M)) Mi_migrate \<noteq> Some (callback Mi_migrate)"
    using no_stale_callbacks [OF plain_kernel_ok, of ?M Mi_migrate Mi_migrate] by simp
qed

end
