(* ===== verification/Module_Externs.thy ===== *)
theory Module_Externs
  imports Module_Symbols
begin

text \<open>
  Extern declarations against definitions. A module that calls a function of another module
  declares it itself, there is no shared header; whether the declaration has the prototype of the
  definition is checked by nobody. All 42 declarations of \<open>miloadtrace.c\<close> and \<open>migt.c\<close> are compared
  with the functions the other modules export, types of arguments and results included.
\<close>

section \<open>Prototypes\<close>

text \<open>The types in these prototypes; \<open>C_callback\<close> is \<open>void (*)(void)\<close>.\<close>

datatype ctype = C_void | C_int | C_u64 | C_void_ptr | C_callback

datatype csig = Csig (result: ctype) (params: "ctype list")

text \<open>A register function takes the hook, with the type its module uses for hooks, and returns a
  number; an unregister function takes nothing and returns a number. Functions that do neither are
  not declared anywhere.\<close>

fun export_sig :: "ctype \<Rightarrow> 'sl export \<Rightarrow> csig option" where
  "export_sig hook_type (Sets sl) = Some (Csig C_int [hook_type])"
| "export_sig hook_type (Clears sl) = Some (Csig C_int [])"
| "export_sig hook_type e = None"

fun defined_sig :: "kmod \<Rightarrow> string \<Rightarrow> csig option" where
  "defined_sig Sched_walt n = Option.bind (map_of xiaomi_exports n) (export_sig C_callback)"
| "defined_sig Mi_sched n = Option.bind (map_of sched_exports n) (export_sig C_void_ptr)"
| "defined_sig Mist_mod n = Option.bind (map_of mist_exports n) (export_sig C_void_ptr)"
| "defined_sig Metis_mod n = Option.bind (map_of metis_exports n) (export_sig C_void_ptr)"
| "defined_sig m n = None"

definition declared_agree :: "kmod \<times> string \<times> csig \<Rightarrow> bool" where
  "declared_agree d = (case d of (m, n, sg) \<Rightarrow> defined_sig m n = Some sg)"

text \<open>Types that the calling conventions of the kernel pass in the same way.\<close>

definition same_passing :: "ctype \<Rightarrow> ctype \<Rightarrow> bool" where
  "same_passing a b \<longleftrightarrow> a = b \<or> {a, b} = {C_void_ptr, C_callback}"

definition call_agrees :: "kmod \<times> string \<times> csig \<Rightarrow> bool" where
  "call_agrees d = (case d of (m, n, sg) \<Rightarrow>
     (case defined_sig m n of
        None \<Rightarrow> False
      | Some sg' \<Rightarrow> same_passing (result sg) (result sg') \<and> list_all2 same_passing (params sg) (params sg')))"

section \<open>The declarations\<close>

definition migt_externs :: "(kmod \<times> string \<times> csig) list" where
  "migt_externs =
    [(Metis_mod, ''register_choose_cpu_overutiled'', Csig C_int []),
     (Metis_mod, ''unregister_choose_cpu_overutiled'', Csig C_void []),
     (Metis_mod, ''register_mi_find_energy_efficient_cpu'', Csig C_int []),
     (Metis_mod, ''unregister_mi_find_energy_efficient_cpu'', Csig C_void []),
     (Metis_mod, ''register_mi_lb_detect_func'', Csig C_int []),
     (Metis_mod, ''unregister_mi_lb_detect_func'', Csig C_void []),
     (Metis_mod, ''register_mi_sched_enable'', Csig C_int []),
     (Metis_mod, ''unregister_mi_sched_enable'', Csig C_void []),
     (Metis_mod, ''register_mi_walt_get_indicies'', Csig C_int []),
     (Metis_mod, ''unregister_mi_walt_get_indicies'', Csig C_void []),
     (Metis_mod, ''register_render_task_detect'', Csig C_int []),
     (Metis_mod, ''unregister_render_task_detect'', Csig C_void []),
     (Mi_sched, ''register_sched_load_update_hook'', Csig C_int []),
     (Mi_sched, ''unregister_sched_load_update_hook'', Csig C_void []),
     (Metis_mod, ''register_ui_task_detect'', Csig C_int []),
     (Metis_mod, ''unregister_ui_task_detect'', Csig C_void []),
     (Metis_mod, ''register_vip_task_detect'', Csig C_int []),
     (Metis_mod, ''unregister_vip_task_detect'', Csig C_void []),
     (Mist_mod, ''register_mi_dflt_lat_update_cb'', Csig C_int [C_void_ptr]),
     (Mist_mod, ''unregister_mi_dflt_lat_update_cb'', Csig C_int []),
     (Mist_mod, ''register_mi_dflt_bw_update_cb'', Csig C_int [C_void_ptr]),
     (Mist_mod, ''unregister_mi_dflt_bw_update_cb'', Csig C_int []),
     (Metis_mod, ''register_corectl_boost_hook'', Csig C_int [])]"

definition miload_extern_decls :: "(kmod \<times> string \<times> csig) list" where
  "miload_extern_decls = concat (map (\<lambda>h. case externs_of h of (p, reg, unreg) \<Rightarrow>
     [(kmod_of p, reg, Csig C_int [C_callback]), (kmod_of p, unreg, Csig C_int [])]) hook_order)"

text \<open>The last declaration of \<open>miloadtrace.c\<close> is of a function outside the repository.\<close>

definition clock_extern :: "string \<times> csig" where
  "clock_extern = (''walt_sched_clock'', Csig C_u64 [])"

section \<open>The comparison\<close>

lemma metis_sigs:
  "map_of metis_exports ''register_choose_cpu_overutiled'' = Some (Sets Choose_cpu_overutiled_ptr)"
  "map_of metis_exports ''unregister_choose_cpu_overutiled'' = Some (Clears Choose_cpu_overutiled_ptr)"
  "map_of metis_exports ''register_mi_find_energy_efficient_cpu'' = Some (Sets Mi_find_energy_efficient_cpu_ptr)"
  "map_of metis_exports ''unregister_mi_find_energy_efficient_cpu'' = Some (Clears Mi_find_energy_efficient_cpu_ptr)"
  "map_of metis_exports ''register_mi_lb_detect_func'' = Some (Sets Mi_lb_detect_func_ptr)"
  "map_of metis_exports ''unregister_mi_lb_detect_func'' = Some (Clears Mi_lb_detect_func_ptr)"
  "map_of metis_exports ''register_mi_sched_enable'' = Some (Sets Mi_sched_enable_ptr)"
  "map_of metis_exports ''unregister_mi_sched_enable'' = Some (Clears Mi_sched_enable_ptr)"
  "map_of metis_exports ''register_mi_walt_get_indicies'' = Some (Sets Mi_walt_get_indicies_ptr)"
  "map_of metis_exports ''unregister_mi_walt_get_indicies'' = Some (Clears Mi_walt_get_indicies_ptr)"
  "map_of metis_exports ''register_render_task_detect'' = Some (Sets Render_task_detect_ptr)"
  "map_of metis_exports ''unregister_render_task_detect'' = Some (Clears Render_task_detect_ptr)"
  "map_of metis_exports ''register_vip_task_detect'' = Some (Sets Vip_task_detect_ptr)"
  "map_of metis_exports ''unregister_vip_task_detect'' = Some (Clears Vip_task_detect_ptr)"
  "map_of metis_exports ''register_corectl_boost_hook'' = Some (Sets Corectl_boost_hook_ptr)"
  by (simp_all only: metis_tables lookup_eval)

lemma mist_sigs:
  "map_of mist_exports ''register_mi_dflt_lat_update_cb'' = Some (Sets Mist_dflt_lat_update_cb)"
  "map_of mist_exports ''unregister_mi_dflt_lat_update_cb'' = Some (Clears Mist_dflt_lat_update_cb)"
  "map_of mist_exports ''register_mi_dflt_bw_update_cb'' = Some (Sets Mist_dflt_bw_update_cb)"
  "map_of mist_exports ''unregister_mi_dflt_bw_update_cb'' = Some (Clears Mist_dflt_bw_update_cb)"
  by (simp_all only: mist_tables lookup_eval)

lemmas decl_simps = declared_agree_def call_agrees_def same_passing_def miload_extern_decls_def hook_order_def
  migt_externs_def metis_sigs ui_sigs sched_sigs mist_sigs walt_sigs

text \<open>Every declared function but the clock is exported by the module it is expected of. The three
  register functions of \<open>mi_schedule\<close> and \<open>metis\<close> that \<open>miloadtrace.c\<close> calls are declared with a
  function pointer where the definitions take a \<open>void *\<close>; its other 15 declarations are exact, and all
  18 calls are passed as the definitions expect. The four declarations of \<open>migt.c\<close> for Mist are exact,
  its ten other register functions are declared without the argument they store, and the nine other
  unregister functions without their result.\<close>

theorem extern_prototypes:
  "list_all call_agrees miload_extern_decls \<and>
   map (fst \<circ> snd) [d \<leftarrow> miload_extern_decls. \<not> declared_agree d] =
     [''register_task_group_change_update_f'', ''register_ui_task_detect'', ''register_mi_update_global_period_f''] \<and>
   list_all (\<lambda>(m, n, sg). defined_sig m n \<noteq> None) migt_externs \<and>
   [d \<leftarrow> migt_externs. declared_agree d] = [d \<leftarrow> migt_externs. fst d = Mist_mod] \<and>
   [sg. (m, n, sg) \<leftarrow> migt_externs, m \<noteq> Mist_mod, defined_sig m n = Some (Csig C_int [C_void_ptr])] =
     replicate 10 (Csig C_int []) \<and>
   [sg. (m, n, sg) \<leftarrow> migt_externs, m \<noteq> Mist_mod, defined_sig m n = Some (Csig C_int [])] =
     replicate 9 (Csig C_void []) \<and>
   list_all (\<lambda>m. fst clock_extern \<notin> set (exported m)) all_kmods"
proof (intro conjI)
  show "list_all (\<lambda>m. fst clock_extern \<notin> set (exported m)) all_kmods"
    using imports_outside [of "''walt_sched_clock''" Miloadtrace_mod]
    by (simp add: list_all_iff clock_extern_def miload_imports_def)
qed (simp_all add: decl_simps numeral_eq_Suc insert_commute)

end
