(* ===== verification/Miev_Events.thy ===== *)
theory Miev_Events
  imports Miev
begin

text \<open>
  The event interface of \<open>miev.c\<close> as other drivers use it: events on the heap, handed out and
  taken back as pointers. Several drivers build events at the same time, each through its own
  pointers; the two allocations of an event are entries of a ledger. A call with a pointer that
  is not NULL and not to a live event is \<open>None\<close>: the code follows the pointer without a check.
\<close>

section \<open>The heap\<close>

datatype ev_res = Event_mem nat | Msg_mem nat

record ev_heap =
  events :: "nat \<Rightarrow> misight_mievent option"
  ev_next :: nat
  ev_log :: "ev_res ev list"
  ev_dev :: "kfifo option"

definition ev_start :: "kfifo option \<Rightarrow> ev_heap" where
  "ev_start dev = \<lparr>events = (\<lambda>_. None), ev_next = 0, ev_log = [], ev_dev = dev\<rparr>"

text \<open>\<open>cdev_tevent_alloc\<close> with its allocations and the frees of its error paths.\<close>

definition tevent_alloc :: "bool \<times> bool \<Rightarrow> int \<Rightarrow> nat \<Rightarrow> ev_heap \<Rightarrow> nat option \<times> ev_heap" where
  "tevent_alloc allocs now eid h =
     (let a = ev_next h; h = h\<lparr>ev_next := Suc a\<rparr>
      in case cdev_tevent_alloc allocs now eid of
           Some e \<Rightarrow>
             (Some a, h\<lparr>events := (events h)(a \<mapsto> e),
                        ev_log := ev_log h @ [Get (Event_mem a), Get (Msg_mem a)]\<rparr>)
         | None \<Rightarrow>
             (None, h\<lparr>ev_log := ev_log h @
               (if \<not> fst allocs then []
                else if \<not> snd allocs then [Get (Event_mem a), Put (Event_mem a)]
                else [Get (Event_mem a), Get (Msg_mem a), Put (Msg_mem a), Put (Event_mem a)])\<rparr>))"

text \<open>A call through a pointer: NULL, a live event, or neither.\<close>

definition with_event ::
  "nat option \<Rightarrow> (misight_mievent option \<Rightarrow> int \<times> misight_mievent option) \<Rightarrow> ev_heap \<Rightarrow> (int \<times> ev_heap) option" where
  "with_event p f h =
     (case p of
        None \<Rightarrow> Some (fst (f None), h)
      | Some a \<Rightarrow>
          (case events h a of
             None \<Rightarrow> None
           | Some e \<Rightarrow> (case f (Some e) of (ret, e') \<Rightarrow> Some (ret, h\<lparr>events := (events h)(a := e')\<rparr>))))"

definition tevent_add_int :: "nat option \<Rightarrow> string option \<Rightarrow> int \<Rightarrow> ev_heap \<Rightarrow> (int \<times> ev_heap) option" where
  "tevent_add_int p key value = with_event p (\<lambda>e. cdev_tevent_add_int e key value)"

definition tevent_add_str :: "nat option \<Rightarrow> string option \<Rightarrow> string option \<Rightarrow> ev_heap \<Rightarrow> (int \<times> ev_heap) option" where
  "tevent_add_str p key value = with_event p (\<lambda>e. cdev_tevent_add_str e key value)"

definition tevent_write :: "nat option \<Rightarrow> ev_heap \<Rightarrow> (int \<times> ev_heap) option" where
  "tevent_write p h =
     (case p of
        None \<Rightarrow> Some (fst (cdev_tevent_write None (ev_dev h)), h)
      | Some a \<Rightarrow>
          (case events h a of
             None \<Rightarrow> None
           | Some e \<Rightarrow>
               (case cdev_tevent_write (Some e) (ev_dev h) of
                  (ret, e', dev) \<Rightarrow> Some (ret, h\<lparr>events := (events h)(a := e'), ev_dev := dev\<rparr>))))"

definition cdev_tevent_destroy :: "nat option \<Rightarrow> ev_heap \<Rightarrow> ev_heap option" where
  "cdev_tevent_destroy p h =
     (case p of
        None \<Rightarrow> Some h
      | Some a \<Rightarrow>
          (case events h a of
             None \<Rightarrow> None
           | Some e \<Rightarrow> Some (h\<lparr>events := (events h)(a := None),
                               ev_log := ev_log h @ [Put (Msg_mem a), Put (Event_mem a)]\<rparr>)))"

section \<open>Any use of the interface\<close>

datatype ev_call =
    Alloc "bool \<times> bool" int nat | Add_int "nat option" "string option" int
  | Add_str "nat option" "string option" "string option" | Write_event "nat option"
  | Destroy "nat option"

fun ev_do :: "ev_call \<Rightarrow> ev_heap \<Rightarrow> ev_heap option" where
  "ev_do (Alloc allocs now eid) h = Some (snd (tevent_alloc allocs now eid h))"
| "ev_do (Add_int p key value) h = map_option snd (tevent_add_int p key value h)"
| "ev_do (Add_str p key value) h = map_option snd (tevent_add_str p key value h)"
| "ev_do (Write_event p) h = map_option snd (tevent_write p h)"
| "ev_do (Destroy p) h = cdev_tevent_destroy p h"

fun ev_run :: "ev_call list \<Rightarrow> ev_heap \<Rightarrow> ev_heap option" where
  "ev_run [] h = Some h"
| "ev_run (c # cs) h = Option.bind (ev_do c h) (ev_run cs)"

text \<open>The live events in the order of their addresses, and the memory they own.\<close>

definition live :: "ev_heap \<Rightarrow> nat list" where
  "live h = filter (\<lambda>a. events h a \<noteq> None) [0..<ev_next h]"

definition owned_mem :: "ev_heap \<Rightarrow> ev_res list" where
  "owned_mem h = concat (map (\<lambda>a. [Event_mem a, Msg_mem a]) (live h))"

definition heap_inv :: "ev_heap \<Rightarrow> bool" where
  "heap_inv h \<longleftrightarrow> (\<forall>a \<ge> ev_next h. events h a = None) \<and> holds_exactly (ev_log h) (owned_mem h)"

lemma add_keeps_event:
  "snd (cdev_tevent_add_int (Some e) key value) \<noteq> None"
  "snd (cdev_tevent_add_str (Some e) key sv) \<noteq> None"
  by (auto simp: cdev_tevent_add_int_def cdev_tevent_add_str_def split: option.splits)

lemma write_keeps_event: "fst (snd (cdev_tevent_write (Some e) dev)) \<noteq> None"
  by (auto simp: cdev_tevent_write_def split: option.splits prod.splits)

lemma owned_mem_update:
  assumes "events h a \<noteq> None" and "e' \<noteq> None"
  shows "owned_mem (h\<lparr>events := (events h)(a := e'), ev_dev := dev\<rparr>) = owned_mem h"
  using assms by (auto simp: owned_mem_def live_def intro!: arg_cong [where f = "\<lambda>l. concat (map _ l)"] filter_cong)

lemma heap_inv_update:
  assumes "heap_inv h" and "events h a \<noteq> None" and "e' \<noteq> None"
  shows "heap_inv (h\<lparr>events := (events h)(a := e'), ev_dev := dev\<rparr>)"
proof -
  have "a < ev_next h" using assms(1,2) by (auto simp: heap_inv_def not_le [symmetric])
  then show ?thesis using assms owned_mem_update [OF assms(2,3)] by (auto simp: heap_inv_def)
qed

lemma with_event_inv:
  assumes "heap_inv h" and "with_event p f h = Some (ret, h')" and "\<And>e. snd (f (Some e)) \<noteq> None"
  shows "heap_inv h'"
proof (cases p)
  case (Some a)
  then obtain e where e: "events h a = Some e" "h' = h\<lparr>events := (events h)(a := snd (f (Some e)))\<rparr>"
    using assms(2) by (auto simp: with_event_def split: option.splits prod.splits)
  then show ?thesis
    using heap_inv_update [OF assms(1), of a "snd (f (Some e))" "ev_dev h"] assms(3) by simp
qed (use assms in \<open>simp add: with_event_def\<close>)

text \<open>Allocation adds the new address at the end, destruction takes one out.\<close>

lemma owned_mem_new:
  assumes "events h (ev_next h) = None"
  shows "owned_mem (h\<lparr>ev_next := Suc (ev_next h), events := (events h)(ev_next h \<mapsto> e), ev_log := l\<rparr>) =
    owned_mem h @ [Event_mem (ev_next h), Msg_mem (ev_next h)]"
proof -
  have "filter (\<lambda>a. ((events h)(ev_next h \<mapsto> e)) a \<noteq> None) [0..<ev_next h] =
      filter (\<lambda>a. events h a \<noteq> None) [0..<ev_next h]"
    by (rule filter_cong) auto
  then show ?thesis by (simp add: owned_mem_def live_def)
qed

lemma mset_concat_remove1:
  "a \<in> set xs \<Longrightarrow> mset (concat (map f xs)) = mset (concat (map f (remove1 a xs))) + mset (f a)"
  by (induction xs) auto

lemma owned_mem_free:
  assumes "events h a \<noteq> None" and "a < ev_next h"
  shows "mset (owned_mem h) = mset (owned_mem (h\<lparr>events := (events h)(a := None), ev_log := l\<rparr>)) +
    {#Event_mem a, Msg_mem a#}"
proof -
  have "filter (\<lambda>x. ((events h)(a := None)) x \<noteq> None) [0..<ev_next h] = remove1 a (live h)"
    unfolding live_def using assms
    by (simp add: distinct_remove1_removeAll removeAll_filter_not_eq filter_filter conj_commute
        cong: filter_cong) (rule filter_cong, auto)
  then have "live (h\<lparr>events := (events h)(a := None), ev_log := l\<rparr>) = remove1 a (live h)"
    by (simp add: live_def)
  moreover have "a \<in> set (live h)" using assms by (simp add: live_def)
  ultimately show ?thesis
    using mset_concat_remove1 [of a "live h" "\<lambda>a. [Event_mem a, Msg_mem a]"]
    by (simp add: owned_mem_def)
qed

lemma alloc_inv:
  assumes "heap_inv h"
  shows "heap_inv (snd (tevent_alloc allocs now eid h))"
proof (cases "cdev_tevent_alloc allocs now eid")
  case None
  let ?a = "ev_next h"
  let ?l = "if \<not> fst allocs then []
    else if \<not> snd allocs then [Get (Event_mem ?a), Put (Event_mem ?a)]
    else [Get (Event_mem ?a), Get (Msg_mem ?a), Put (Msg_mem ?a), Put (Event_mem ?a)]"
  have "events h ?a = None" using assms by (simp add: heap_inv_def)
  then have "owned_mem (h\<lparr>ev_next := Suc ?a, ev_log := l\<rparr>) = owned_mem h" for l
    by (simp add: owned_mem_def live_def)
  moreover have "balanced ?l" by (simp add: balanced_def)
  then have "holds_exactly (ev_log h @ ?l) (owned_mem h)"
    using assms run_ledger_balanced_append unfolding heap_inv_def holds_exactly_def by blast
  ultimately show ?thesis
    using assms None by (simp add: tevent_alloc_def Let_def heap_inv_def)
next
  case (Some e)
  have "events h (ev_next h) = None" using assms by (simp add: heap_inv_def)
  from owned_mem_new [OF this] show ?thesis
    using assms Some
    by (simp add: tevent_alloc_def Let_def heap_inv_def holds_exactly_def run_ledger_append)
qed

lemma destroy_inv:
  assumes "heap_inv h" and "cdev_tevent_destroy p h = Some h'"
  shows "heap_inv h'"
proof (cases p)
  case (Some a)
  let ?l = "[Put (Msg_mem a), Put (Event_mem a)]"
  have h': "events h a \<noteq> None" "h' = h\<lparr>events := (events h)(a := None), ev_log := ev_log h @ ?l\<rparr>"
    using Some assms(2) by (auto simp: cdev_tevent_destroy_def split: option.splits)
  then have "a < ev_next h" using assms(1) by (auto simp: heap_inv_def not_le [symmetric])
  from owned_mem_free [OF h'(1) this, of "ev_log h @ ?l"] show ?thesis
    using assms(1) h' by (simp add: heap_inv_def holds_exactly_def run_ledger_append)
qed (use assms in \<open>simp add: cdev_tevent_destroy_def\<close>)

lemma ev_do_inv:
  assumes "heap_inv h" and "ev_do c h = Some h'"
  shows "heap_inv h'"
proof (cases c)
  case (Alloc allocs now eid)
  then show ?thesis using assms(2) alloc_inv [OF assms(1), of allocs now eid] by simp
next
  case (Add_int p key v)
  then show ?thesis
    using assms with_event_inv [OF assms(1)] add_keeps_event(1) by (auto simp: tevent_add_int_def)
next
  case (Add_str p key v)
  then show ?thesis
    using assms with_event_inv [OF assms(1)] add_keeps_event(2) by (auto simp: tevent_add_str_def)
next
  case (Write_event p)
  show ?thesis
  proof (cases p)
    case None
    then show ?thesis using assms Write_event by (auto simp: tevent_write_def)
  next
    case (Some a)
    obtain e where e: "events h a = Some e"
      using assms(2) Write_event Some by (auto simp: tevent_write_def split: option.splits)
    obtain ret e' dev where w: "cdev_tevent_write (Some e) (ev_dev h) = (ret, e', dev)"
      using prod_cases3 by blast
    have "e' \<noteq> None" using write_keeps_event [of e "ev_dev h"] w by simp
    then show ?thesis
      using heap_inv_update [OF assms(1), of a e' dev] assms(2) Write_event Some e w
      by (simp add: tevent_write_def)
  qed
next
  case (Destroy p)
  then show ?thesis using assms destroy_inv by simp
qed

lemma ev_run_inv: "ev_run cs h = Some h' \<Longrightarrow> heap_inv h \<Longrightarrow> heap_inv h'"
  by (induction cs arbitrary: h) (auto simp: bind_eq_Some_conv intro: ev_do_inv)

lemma ev_start_inv: "heap_inv (ev_start dev)"
  by (simp add: heap_inv_def ev_start_def holds_exactly_def owned_mem_def live_def)

text \<open>C24: events do not leak and are not freed twice. However many drivers build, send and destroy
  events through the interface, in any order and with any allocation failing, as long as no call
  is made with a pointer to an event that was destroyed, the memory held is exactly the two
  allocations of every event not yet destroyed; with none left, all memory has been returned.\<close>

theorem event_memory_exact:
  assumes "ev_run cs (ev_start dev) = Some h"
  shows "holds_exactly (ev_log h) (owned_mem h) \<and> (live h = [] \<longrightarrow> balanced (ev_log h))"
proof -
  have inv: "holds_exactly (ev_log h) (owned_mem h)"
    using ev_run_inv [OF assms ev_start_inv] by (simp add: heap_inv_def)
  moreover have "owned_mem h = []" if "live h = []" using that by (simp add: owned_mem_def)
  ultimately show ?thesis using holds_exactly_balanced by metis
qed

theorem event_memory_exact_witness:
  "case ev_run [Alloc (True, False) 5 1, Destroy None] (ev_start None) of
     None \<Rightarrow> False | Some h \<Rightarrow> balanced (ev_log h)"
proof -
  obtain h where h: "ev_run [Alloc (True, False) 5 1, Destroy None] (ev_start None) = Some h"
    by (simp add: cdev_tevent_destroy_def)
  have "live h = []"
    using h by (auto simp: cdev_tevent_destroy_def tevent_alloc_def cdev_tevent_alloc_def Let_def
        live_def ev_start_def)
  then show ?thesis using event_memory_exact [OF h] h by simp
qed

text \<open>A pointer kept after the event was destroyed is followed.\<close>

lemma destroyed_event_faults:
  assumes "events h a = None"
  shows "ev_do (Write_event (Some a)) h = None" and "ev_do (Destroy (Some a)) h = None"
  using assms by (simp_all add: tevent_write_def cdev_tevent_destroy_def)

end
