(* ===== verification/Nested_Life.thy ===== *)
theory Nested_Life
  imports Miev Miloadtrace
begin

text \<open>
  The order of releasing. A balanced log says that everything acquired is released once; it does
  not say in which order, although a proc directory must not go before its entries and a queue not
  before the device that uses it. A log is \<open>nested\<close> when every release is that of the resource
  acquired last among those still held. The locale \<open>nested_lifecycle\<close> strengthens the contract of
  load and unload accordingly; \<open>miev\<close> and \<open>miloadtrace\<close> interpret it.
\<close>

section \<open>Nested logs\<close>

fun run_stack :: "'r list \<Rightarrow> 'r ev list \<Rightarrow> 'r list option" where
  "run_stack st [] = Some st"
| "run_stack st (Get r # es) = run_stack (r # st) es"
| "run_stack [] (Put r # es) = None"
| "run_stack (q # st) (Put r # es) = (if q = r then run_stack st es else None)"

definition nested :: "'r ev list \<Rightarrow> bool" where
  "nested l \<longleftrightarrow> run_stack [] l = Some []"

lemma run_stack_append:
  "run_stack st (xs @ ys) = Option.bind (run_stack st xs) (\<lambda>st'. run_stack st' ys)"
  by (induction st xs rule: run_stack.induct) simp_all

lemma run_stack_frame: "run_stack st l = Some st' \<Longrightarrow> run_stack (st @ base) l = Some (st' @ base)"
  by (induction st l rule: run_stack.induct) (simp_all split: if_splits)

lemma nested_append: "nested xs \<Longrightarrow> nested ys \<Longrightarrow> nested (xs @ ys)"
  by (simp add: nested_def run_stack_append)

lemma nested_Nil [simp]: "nested []"
  by (simp add: nested_def)

lemma run_stack_gets: "run_stack st (map Get rs) = Some (rev rs @ st)"
  by (induction rs arbitrary: st) simp_all

lemma run_stack_puts: "run_stack (rs @ st) (map Put rs) = Some st"
  by (induction rs) simp_all

lemma nested_gets_puts: "nested (map Get rs @ map Put (rev rs))"
  using run_stack_gets [of "[]" rs] run_stack_puts [of "rev rs" "[]"]
  by (simp add: nested_def run_stack_append)

text \<open>A nested log is balanced.\<close>

lemma run_stack_ledger: "run_stack st l = Some st' \<Longrightarrow> run_ledger (mset st) l = Some (mset st')"
  by (induction st l rule: run_stack.induct) (simp_all split: if_splits)

lemma nested_balanced: "nested l \<Longrightarrow> balanced l"
  using run_stack_ledger [of "[]" l "[]"] by (simp add: nested_def balanced_def)

text \<open>The unwind specification releases in the reverse order.\<close>

lemma staged_init_stack:
  "staged_init done st = (ret, l) \<Longrightarrow>
     run_stack done l = Some (if ret = 0 then rev (map fst st) @ done else [])"
proof (induction "done" st arbitrary: ret l rule: staged_init.induct)
  case (2 "done" r e st)
  show ?case
  proof (cases "e = 0")
    case True
    then obtain l' where "staged_init (r # done) st = (ret, l')" "l = Get r # l'"
      using "2.prems" by (auto split: prod.splits)
    then show ?thesis using "2.IH" [of ret l'] True by simp
  next
    case False
    then show ?thesis using "2.prems" run_stack_puts [of "done" "[]"] by auto
  qed
qed simp

lemma staged_init_nested:
  "staged_init [] st = (ret, l) \<Longrightarrow> ret \<noteq> 0 \<Longrightarrow> nested l"
  "staged_init [] st = (0, l) \<Longrightarrow> nested (l @ map Put (rev (map fst st)))"
  using staged_init_stack [of "[]" st ret l] staged_init_stack [of "[]" st 0 l]
    run_stack_puts [of "rev (map fst st)" "[]"]
  by (simp_all add: nested_def run_stack_append)

section \<open>The contract\<close>

locale nested_lifecycle = module_lifecycle init exit log idle
  for init :: "'env \<Rightarrow> 'st \<Rightarrow> int \<times> 'st"
    and exit :: "'st \<Rightarrow> 'st"
    and log :: "'st \<Rightarrow> 'r ev list"
    and idle :: "'st \<Rightarrow> bool" +
  assumes failed_nested:
      "idle s \<Longrightarrow> init e s = (ret, s') \<Longrightarrow> ret \<noteq> 0 \<Longrightarrow> \<exists>l. log s' = log s @ l \<and> nested l"
    and unload_nested:
      "idle s \<Longrightarrow> init e s = (0, s') \<Longrightarrow> \<exists>l. log (exit s') = log s @ l \<and> nested l"
begin

lemma cycle_nested:
  assumes "idle s" and "nested (log s)"
  shows "idle (module_cycle init exit e s) \<and> nested (log (module_cycle init exit e s))"
proof -
  obtain ret s' where i: "init e s = (ret, s')" by fastforce
  show ?thesis
  proof (cases "ret = 0")
    case True
    then show ?thesis
      using load_unload [OF assms(1), of e s'] unload_nested [OF assms(1), of e s'] i assms(2)
      by (auto simp: module_cycle_def intro: nested_append)
  next
    case False
    then show ?thesis
      using failed_load [OF assms(1) i] failed_nested [OF assms(1) i] assms(2) i
      by (auto simp: module_cycle_def intro: nested_append)
  qed
qed

lemma history_nested:
  assumes "idle s" and "nested (log s)"
  shows "nested (log (fold (module_cycle init exit) es s))"
  using assms by (induction es arbitrary: s) (auto dest: cycle_nested)

end

section \<open>The modules\<close>

interpretation miev_nested: nested_lifecycle miev_init_module miev_cleanup_module miev_log miev_idle
proof
  fix s env ret s'
  assume a: "miev_idle s" "miev_init_module env s = (ret, s')" "ret \<noteq> 0"
  then obtain l where "staged_init [] (miev_stages env) = (ret, l)" "miev_log s' = miev_log s @ l"
    using miev_init_staged [of s env] by auto
  then show "\<exists>l. miev_log s' = miev_log s @ l \<and> nested l" using staged_init_nested(1) a(3) by blast
next
  fix s env s'
  assume "miev_idle s" "miev_init_module env s = (0, s')"
  then obtain l where l: "staged_init [] (miev_stages env) = (0, l)" "miev_log s' = miev_log s @ l"
    "miev_dev s' = Some fifo_empty" "miev_workqueue s'"
    using miev_init_staged [of s env] by auto
  then have "miev_log (miev_cleanup_module s') = miev_log s @ l @ map Put (rev (map fst (miev_stages env)))"
    by (simp add: miev_cleanup_module_def miev_stages_def Let_def)
  then show "\<exists>l. miev_log (miev_cleanup_module s') = miev_log s @ l \<and> nested l"
    using staged_init_nested(2) [OF l(1)] by blast
qed

lemma miload_init_log:
  assumes "miloadtrace_init linked env s = (ret, s')"
  shows "ret \<noteq> 0 \<Longrightarrow> \<exists>rs. miload_log s' = miload_log s @ map Get rs @ map Put (rev rs)"
    and "ret = 0 \<Longrightarrow> \<exists>rs. miload_log (miloadtrace_exit linked s') = miload_log s @ map Get rs @ map Put (rev rs)"
proof -
  let ?s0 = "s\<lparr>recs := init_grp_freq_record\<rparr>"
  let ?s1 = "?s0\<lparr>miload_log := miload_log s @ [Get Misc]\<rparr>"
  obtain r s2 where p: "miload_proc_init env ?s1 = (r, s2)" by fastforce
  obtain w' where w: "miload_register_hooks linked (world s2) = (0, w')"
    using linked_register_0 [of "world s2"] by (metis prod.collapse)
  note defs = miloadtrace_init_def miloadtrace_exit_def miload_misc_deregister_def proc_exit_log Let_def
  have l2: "miload_log s2 = miload_log s @ map Get (Misc # (if r = 0 then proc_owned s2 else []))"
    using proc_init_log [OF p] by (simp split: if_splits)
  show "\<exists>rs. miload_log s' = miload_log s @ map Get rs @ map Put (rev rs)" if "ret \<noteq> 0"
  proof (cases "misc_ret env = 0")
    case True
    then have "miload_log s' = miload_log s @ map Get (Misc # (if r = 0 then proc_owned s2 else []))
        @ map Put (rev (Misc # (if r = 0 then proc_owned s2 else [])))"
      using assms that p w l2 by (auto simp: defs split: if_splits)
    then show ?thesis by blast
  next
    case False
    then have "miload_log s' = miload_log s @ map Get [] @ map Put (rev [])" using assms by (auto simp: defs)
    then show ?thesis by blast
  qed
  show "\<exists>rs. miload_log (miloadtrace_exit linked s') = miload_log s @ map Get rs @ map Put (rev rs)"
    if "ret = 0"
  proof -
    have "miload_log (miloadtrace_exit linked s') = miload_log s
        @ map Get (Misc # proc_owned s2 @ [Governor]) @ map Put (rev (Misc # proc_owned s2 @ [Governor]))"
      using assms that p w l2 by (auto simp: defs split: if_splits)
    then show ?thesis by blast
  qed
qed

interpretation miload_nested: nested_lifecycle "miloadtrace_init linked" "miloadtrace_exit linked"
  miload_log miload_idle
proof
  fix s env ret s'
  assume "miloadtrace_init linked env s = (ret, s')" "ret \<noteq> 0"
  then show "\<exists>l. miload_log s' = miload_log s @ l \<and> nested l"
    using miload_init_log(1) nested_gets_puts by blast
next
  fix s env s'
  assume "miloadtrace_init linked env s = (0, s')"
  then show "\<exists>l. miload_log (miloadtrace_exit linked s') = miload_log s @ l \<and> nested l"
    using miload_init_log(2) nested_gets_puts by blast
qed

text \<open>C26: Resources go in the reverse order. Over any history of loads, failing anywhere, and unloads of
  \<open>miev\<close> and of \<open>miloadtrace\<close>, every release is that of the resource acquired last among those
  held: no device, queue, class, proc directory or proc file is released while something set up
  after it is still there.\<close>

theorem releases_nested:
  assumes "miev_idle s" and "nested (miev_log s)" and "miload_idle m" and "nested (miload_log m)"
  shows "nested (miev_log (fold (module_cycle miev_init_module miev_cleanup_module) envs s)) \<and>
    nested (miload_log (fold (module_cycle (miloadtrace_init linked) (miloadtrace_exit linked)) menvs m))"
  using miev_nested.history_nested [OF assms(1,2)] miload_nested.history_nested [OF assms(3,4)] by blast

theorem releases_nested_witness:
  "nested (miev_log (fold (module_cycle miev_init_module miev_cleanup_module)
     [\<lparr>m_kzalloc = True, m_chrdev = 0, m_cdev = 0, m_fifo = 0, m_class = - 12, m_device = 0, m_wq = True\<rparr>]
     miev_start)) \<and>
   nested (miload_log (fold (module_cycle (miloadtrace_init linked) (miloadtrace_exit linked))
     [miload_env_ok] miload_start))"
  by (rule releases_nested)
    (simp_all add: miev_idle_def miev_start_def miload_idle_def miload_start_def world_start_empty)

end
