(* ===== verification/Miev_Removal.thy ===== *)
theory Miev_Removal
  imports Nested_Life
begin

text \<open>
  \<open>/dev/miev\<close> while its module comes and goes. Init and cleanup of \<open>miev.c\<close> are run call by call,
  and between two calls user space opens, reads, writes and closes the device, which becomes
  reachable when \<open>cdev_add\<close> returns, long before init is finished. The steps are proved to add up
  to \<open>miev_init_module\<close> and \<open>miev_cleanup_module\<close>. A file that is open is safe as long as no init
  fails after \<open>cdev_add\<close>; when one does, the device is freed under an open file.
\<close>

section \<open>Init and cleanup, call by call\<close>

text \<open>The zeroed device has an empty queue without room; see \<open>early\<close> below for what a call makes of it.\<close>

datatype act = Acq miev_res | Rel miev_res | Null_dev | Null_wq

fun act_do :: "act \<Rightarrow> miev_sys \<Rightarrow> miev_sys" where
  "act_do (Acq r) s =
     mlog [Get r]
       (if r = Dev_mem then s\<lparr>miev_dev := Some \<lparr>kf_data = [], kf_size = 0\<rparr>\<rparr>
        else if r = Fifo then s\<lparr>miev_dev := Some \<lparr>kf_data = [], kf_size = MIEV_FIFO_SIZE\<rparr>\<rparr>
        else if r = Workqueue then s\<lparr>miev_workqueue := True\<rparr> else s)"
| "act_do (Rel r) s = mlog [Put r] s"
| "act_do Null_dev s = s\<lparr>miev_dev := None\<rparr>"
| "act_do Null_wq s = s\<lparr>miev_workqueue := False\<rparr>"

text \<open>The calls and assignments of init after those in \<open>done\<close>, given what each call will return.\<close>

fun init_acts :: "miev_res list \<Rightarrow> (miev_res \<times> int) list \<Rightarrow> int \<times> act list" where
  "init_acts done [] = (0, [])"
| "init_acts done ((r, e) # st) =
     (if e \<noteq> 0 then (e, (if r = Workqueue then [Null_wq] else []) @ map Rel done @ [Null_dev])
      else (case init_acts (r # done) st of (ret, as) \<Rightarrow> (ret, Acq r # as)))"

definition exit_acts :: "miev_sys \<Rightarrow> act list" where
  "exit_acts s = (if miev_workqueue s then [Rel Workqueue, Null_wq] else []) @
     (if miev_dev s = None then []
      else [Rel Device, Rel Class, Rel Fifo, Rel Cdev, Rel Chrdev, Rel Dev_mem, Null_dev])"

lemma init_acts_sound:
  "miev_init_module env s =
     (case init_acts [] (miev_stages env) of (ret, as) \<Rightarrow> (ret, fold act_do as s))"
  by (simp add: miev_init_module_def miev_stages_def miev_labels Let_def)

lemma exit_acts_sound: "miev_cleanup_module s = fold act_do (exit_acts s) s"
  by (simp add: miev_cleanup_module_def exit_acts_def Let_def)

section \<open>The module and its users\<close>

datatype mod_state = Unloaded | Coming | Live | Going

text \<open>
  \<open>acts\<close> is what the running init or cleanup still has to do, \<open>ret_val\<close> what init will return.
  \<open>refs\<close> are the references on the module that \<open>miev_open\<close> takes, \<open>owner_refs\<close> those the kernel takes
  for an open file because of \<open>.owner\<close>. \<open>blocked\<close> counts the readers that wait in the queue inside the
  device. \<open>late_failure\<close> records that some init failed after \<open>cdev_add\<close>.
\<close>

record miev_machine =
  mod_state :: mod_state
  acts :: "act list"
  ret_val :: int
  mdev :: miev_sys
  refs :: nat
  owner_refs :: nat
  opened :: nat
  blocked :: nat
  late_failure :: bool

definition held :: "miev_sys \<Rightarrow> miev_res list" where
  "held s = (case run_stack [] (miev_log s) of None \<Rightarrow> [] | Some st \<Rightarrow> st)"

definition late :: "miev_env \<Rightarrow> bool" where
  "late env \<longleftrightarrow> Acq Cdev \<in> set (snd (init_acts [] (miev_stages env))) \<and>
     fst (init_acts [] (miev_stages env)) \<noteq> 0"

text \<open>
  The kernel finds the device while it is registered; \<open>try_module_get\<close> fails from the moment the
  module is going, for the kernel's own reference and for that of \<open>miev_open\<close>. \<open>rmmod\<close> is refused
  while references are held, but a module whose init failed is freed whatever the references are.
  While the queue is not allocated, \<open>early\<close>, a read or write may leave anything in it: what a queue of
  zeroed fields does is not documented.
\<close>

inductive dev_step :: "miev_machine \<Rightarrow> miev_machine \<Rightarrow> bool" where
  load: "mod_state M = Unloaded \<Longrightarrow> init_acts [] (miev_stages env) = (ret, as) \<Longrightarrow>
    dev_step M (M\<lparr>mod_state := Coming, acts := as, ret_val := ret,
      late_failure := late_failure M \<or> late env\<rparr>)"
| run: "acts M = a # as \<Longrightarrow> dev_step M (M\<lparr>acts := as, mdev := act_do a (mdev M)\<rparr>)"
| init_ok: "mod_state M = Coming \<Longrightarrow> acts M = [] \<Longrightarrow> ret_val M = 0 \<Longrightarrow> dev_step M (M\<lparr>mod_state := Live\<rparr>)"
| init_failed: "mod_state M = Coming \<Longrightarrow> acts M = [] \<Longrightarrow> ret_val M \<noteq> 0 \<Longrightarrow>
    dev_step M (M\<lparr>mod_state := Unloaded\<rparr>)"
| rmmod: "mod_state M = Live \<Longrightarrow> refs M = 0 \<Longrightarrow> owner_refs M = 0 \<Longrightarrow>
    dev_step M (M\<lparr>mod_state := Going, acts := exit_acts (mdev M)\<rparr>)"
| exit_done: "mod_state M = Going \<Longrightarrow> acts M = [] \<Longrightarrow> dev_step M (M\<lparr>mod_state := Unloaded\<rparr>)"
| open_dev: "Cdev \<in> set (held (mdev M)) \<Longrightarrow> miev_open (mod_state M \<in> {Coming, Live}) (refs M) = (0, r) \<Longrightarrow>
    dev_step M (M\<lparr>refs := r, owner_refs := Suc (owner_refs M), opened := Suc (opened M)\<rparr>)"
| write_dev: "0 < opened M \<Longrightarrow> Fifo \<in> set (held (mdev M)) \<Longrightarrow> miev_write (miev_dev (mdev M)) alloc ubuf cnt = (ret, d) \<Longrightarrow>
    dev_step M (M\<lparr>mdev := (mdev M)\<lparr>miev_dev := d\<rparr>\<rparr>)"
| early: "0 < opened M \<Longrightarrow> Fifo \<notin> set (held (mdev M)) \<Longrightarrow> miev_dev (mdev M) \<noteq> None \<Longrightarrow>
    dev_step M (M\<lparr>mdev := (mdev M)\<lparr>miev_dev := Some f'\<rparr>\<rparr>)"
| read_dev: "blocked M < opened M \<Longrightarrow> Fifo \<in> set (held (mdev M)) \<Longrightarrow> miev_read_check (miev_dev (mdev M)) nonblock = Go \<Longrightarrow>
    miev_dev (mdev M) = Some f \<Longrightarrow> miev_read_copy f cnt uncopied = (ret, out, f') \<Longrightarrow>
    dev_step M (M\<lparr>mdev := (mdev M)\<lparr>miev_dev := Some f'\<rparr>\<rparr>)"
| block: "blocked M < opened M \<Longrightarrow> miev_read_check (miev_dev (mdev M)) False = Block \<Longrightarrow>
    dev_step M (M\<lparr>blocked := Suc (blocked M)\<rparr>)"
| wake: "0 < blocked M \<Longrightarrow> dev_step M (M\<lparr>blocked := blocked M - 1\<rparr>)"
| close_dev: "blocked M < opened M \<Longrightarrow> miev_release (refs M) = (0, r) \<Longrightarrow>
    dev_step M (M\<lparr>refs := r, owner_refs := owner_refs M - 1, opened := opened M - 1\<rparr>)"

definition dev_start :: miev_machine where
  "dev_start = \<lparr>mod_state = Unloaded, acts = [], ret_val = 0, mdev = miev_start, refs = 0,
     owner_refs = 0, opened = 0,
     blocked = 0, late_failure = False\<rparr>"

inductive dev_reach :: "miev_machine \<Rightarrow> bool" where
  start: "dev_reach dev_start"
| step: "dev_reach M \<Longrightarrow> dev_step M M' \<Longrightarrow> dev_reach M'"

section \<open>The invariant\<close>

definition stage_order :: "miev_res list" where
  "stage_order = [Dev_mem, Chrdev, Cdev, Fifo, Class, Device, Workqueue]"

text \<open>After the first \<open>n\<close> calls of an init nothing else has touched what they set up.\<close>

definition set_up :: "nat \<Rightarrow> miev_sys \<Rightarrow> bool" where
  "set_up n s \<longleftrightarrow> run_stack [] (miev_log s) = Some (rev (take n stage_order)) \<and>
     (miev_dev s \<noteq> None \<longleftrightarrow> n \<noteq> 0) \<and> (miev_workqueue s \<longleftrightarrow> 7 \<le> n)"

text \<open>The remaining calls lead back to the state without a device, and the device is not registered.\<close>

definition winding_down :: "miev_machine \<Rightarrow> bool" where
  "winding_down M \<longleftrightarrow> opened M = 0 \<and> set_up 0 (fold act_do (acts M) (mdev M))"

definition phase_inv :: "miev_machine \<Rightarrow> bool" where
  "phase_inv M \<longleftrightarrow>
     (case mod_state M of
        Unloaded \<Rightarrow> opened M = 0 \<and> acts M = [] \<and> set_up 0 (mdev M)
      | Live \<Rightarrow> acts M = [] \<and> set_up 7 (mdev M)
      | Going \<Rightarrow> winding_down M
      | Coming \<Rightarrow>
          if ret_val M = 0 then \<exists>n \<le> 7. acts M = map Acq (drop n stage_order) \<and> set_up n (mdev M) \<and>
            (0 < opened M \<longrightarrow> 3 \<le> n)
          else winding_down M \<and> Acq Cdev \<notin> set (acts M) \<and> Cdev \<notin> set (held (mdev M)))"

definition machine_inv :: "miev_machine \<Rightarrow> bool" where
  "machine_inv M \<longleftrightarrow> refs M = opened M \<and> owner_refs M = opened M \<and> blocked M \<le> opened M \<and> (\<not> late_failure M \<longrightarrow> phase_inv M)"

lemma all_ok_acts: "fst (init_acts done st) = 0 \<Longrightarrow> snd (init_acts done st) = map Acq (map fst st)"
  by (induction "done" st rule: init_acts.induct) (auto simp: case_prod_beta split: if_splits)

lemma miev_stages_order: "map fst (miev_stages env) = stage_order"
  by (simp add: miev_stages_def stage_order_def)

lemma set_up_0: "set_up 0 s \<longleftrightarrow> nested (miev_log s) \<and> miev_idle s"
  by (auto simp: set_up_def nested_def miev_idle_def)

lemma set_up_data:
  "d = None \<longleftrightarrow> miev_dev s = None \<Longrightarrow> set_up n (s\<lparr>miev_dev := d\<rparr>) = set_up n s"
  by (simp add: set_up_def)

lemma held_set_up: "set_up n s \<Longrightarrow> held s = rev (take n stage_order)"
  by (simp add: set_up_def held_def)

lemma cdev_position: "n \<le> 7 \<Longrightarrow> Cdev \<in> set (take n stage_order) \<longleftrightarrow> 3 \<le> n"
  by (cases "n \<le> 2") (auto simp: stage_order_def take_Cons' split: if_splits)

lemma held_act:
  assumes "Cdev \<notin> set (held s)" and "a \<noteq> Acq Cdev"
  shows "Cdev \<notin> set (held (act_do a s))"
proof (cases a)
  case (Acq r)
  then show ?thesis using assms
    by (cases "run_stack [] (miev_log s)") (auto simp: held_def run_stack_append)
next
  case (Rel r)
  show ?thesis
  proof (cases "run_stack [] (miev_log s)")
    case (Some st)
    then show ?thesis using assms Rel by (cases st) (auto simp: held_def run_stack_append)
  qed (simp add: Rel held_def run_stack_append)
qed (use assms in \<open>simp_all add: held_def\<close>)

lemma set_up_step:
  assumes "set_up n s" and "n < 7"
  shows "set_up (Suc n) (act_do (Acq (stage_order ! n)) s)"
proof -
  consider "n = 0" | "n = 1" | "n = 2" | "n = 3" | "n = 4" | "n = 5" | "n = 6" using assms(2) by linarith
  then show ?thesis
    using assms(1) by cases (simp_all add: set_up_def stage_order_def run_stack_append)
qed

text \<open>An init that fails early leads back and never registers the device.\<close>

lemma failing_init:
  assumes "set_up 0 s" and "init_acts [] (miev_stages env) = (ret, as)" and "ret \<noteq> 0"
  shows "set_up 0 (fold act_do as s)"
proof -
  have i: "miev_init_module env s = (ret, fold act_do as s)" using assms(2) by (simp add: init_acts_sound)
  have "miev_idle s" "nested (miev_log s)" using assms(1) by (simp_all add: set_up_0)
  then show ?thesis
    using miev_init_staged [of s env] i assms(3) staged_init_nested(1) [of "miev_stages env" ret]
    by (auto simp: set_up_0 intro: nested_append)
qed

lemma leaving:
  assumes "set_up 7 s"
  shows "set_up 0 (fold act_do (exit_acts s) s)"
  using assms by (auto simp: set_up_def exit_acts_def stage_order_def run_stack_append)

lemma load_inv:
  assumes "machine_inv M" and "mod_state M = Unloaded" and "init_acts [] (miev_stages env) = (ret, as)"
  shows "machine_inv (M\<lparr>mod_state := Coming, acts := as, ret_val := ret,
    late_failure := late_failure M \<or> late env\<rparr>)"
proof (cases "late_failure M \<or> late env")
  case False
  then have u: "opened M = 0" "set_up 0 (mdev M)" using assms(1,2) by (simp_all add: machine_inv_def phase_inv_def)
  show ?thesis
  proof (cases "ret = 0")
    case True
    then have "as = map Acq (drop 0 stage_order)"
      using all_ok_acts [of "[]" "miev_stages env"] assms(3) by (simp add: miev_stages_order)
    then show ?thesis using True u assms(1) by (auto simp: machine_inv_def phase_inv_def intro!: exI [of _ 0])
  next
    case False
    then have "Acq Cdev \<notin> set as" using \<open>\<not> (late_failure M \<or> late env)\<close> assms(3) by (simp add: late_def)
    then show ?thesis
      using False u assms(1) failing_init [OF u(2) assms(3)] held_set_up [OF u(2)]
      by (auto simp: machine_inv_def phase_inv_def winding_down_def)
  qed
qed (use assms(1) in \<open>auto simp: machine_inv_def\<close>)

lemma run_inv:
  assumes "machine_inv M" and "acts M = a # as"
  shows "machine_inv (M\<lparr>acts := as, mdev := act_do a (mdev M)\<rparr>)"
proof (cases "late_failure M")
  case False
  let ?M = "M\<lparr>acts := as, mdev := act_do a (mdev M)\<rparr>"
  have wd: "winding_down M \<Longrightarrow> winding_down ?M" using assms(2) by (simp add: winding_down_def)
  have inv: "phase_inv M" using assms(1) False by (simp add: machine_inv_def)
  have "phase_inv ?M"
  proof (cases "mod_state M = Coming \<and> ret_val M = 0")
    case True
    then obtain n where n: "n \<le> 7" "a # as = map Acq (drop n stage_order)" "set_up n (mdev M)"
      "0 < opened M \<longrightarrow> 3 \<le> n"
      using inv assms(2) by (auto simp: phase_inv_def)
    then have "n < 7" by (cases "n = 7") (auto simp: stage_order_def)
    then have "a = Acq (stage_order ! n)" "as = map Acq (drop (Suc n) stage_order)"
      using n(2) by (auto simp: stage_order_def Cons_nth_drop_Suc [symmetric])
    then show ?thesis
      using True n set_up_step [OF n(3) \<open>n < 7\<close>] \<open>n < 7\<close>
      by (auto simp: phase_inv_def intro!: exI [of _ "Suc n"])
  next
    case False
    then show ?thesis
      using inv assms(2) wd held_act [of "mdev M" a] by (cases "mod_state M") (auto simp: phase_inv_def)
  qed
  then show ?thesis using assms(1) by (simp add: machine_inv_def)
qed (use assms(1) in \<open>auto simp: machine_inv_def\<close>)

text \<open>Reading and writing keep the device what it is.\<close>

lemma data_inv:
  assumes "machine_inv M" and "0 < opened M" and "d = None \<longleftrightarrow> miev_dev (mdev M) = None"
  shows "machine_inv (M\<lparr>mdev := (mdev M)\<lparr>miev_dev := d\<rparr>\<rparr>)"
proof (cases "late_failure M")
  case True
  then show ?thesis using assms(1) by (simp add: machine_inv_def)
next
  case False
  have inv: "phase_inv M" using assms(1) False by (simp add: machine_inv_def)
  have "phase_inv (M\<lparr>mdev := (mdev M)\<lparr>miev_dev := d\<rparr>\<rparr>)"
  proof (cases "mod_state M")
    case Coming
    then have "ret_val M = 0" using inv assms(2) by (cases "ret_val M = 0") (simp_all add: phase_inv_def winding_down_def)
    then show ?thesis using Coming inv by (simp add: phase_inv_def set_up_data [OF assms(3)])
  qed (use inv assms(2) in \<open>simp_all add: phase_inv_def winding_down_def set_up_data [OF assms(3)]\<close>)
  then show ?thesis using assms(1) by (simp add: machine_inv_def)
qed

lemma miev_write_dev: "miev_write dev alloc ubuf cnt = (ret, d) \<Longrightarrow> d = None \<longleftrightarrow> dev = None"
  by (auto simp: miev_write_def write_buf_inner_def Let_def split: if_splits option.splits prod.splits)

lemma open_inv:
  assumes "machine_inv M" and "Cdev \<in> set (held (mdev M))"
    and "miev_open (mod_state M \<in> {Coming, Live}) (refs M) = (0, r)"
  shows "machine_inv (M\<lparr>refs := r, owner_refs := Suc (owner_refs M), opened := Suc (opened M)\<rparr>)"
proof (cases "late_failure M")
  case True
  then show ?thesis using assms by (auto simp: machine_inv_def miev_open_def split: if_splits)
next
  case False
  have st: "mod_state M \<in> {Coming, Live}" "r = Suc (refs M)"
    using assms(3) by (auto simp: miev_open_def split: if_splits)
  have inv: "phase_inv M" using assms(1) False by (simp add: machine_inv_def)
  have "phase_inv (M\<lparr>refs := r, owner_refs := Suc (owner_refs M), opened := Suc (opened M)\<rparr>)"
  proof (cases "mod_state M")
    case Coming
    then obtain n where n: "ret_val M = 0" "n \<le> 7" "acts M = map Acq (drop n stage_order)" "set_up n (mdev M)"
      using inv assms(2) by (auto simp: phase_inv_def split: if_splits)
    then have "3 \<le> n" using assms(2) held_set_up cdev_position [OF n(2)] by simp
    then show ?thesis using Coming n by (auto simp: phase_inv_def)
  next
    case Live
    then show ?thesis using inv by (simp add: phase_inv_def)
  qed (use st in simp_all)
  then show ?thesis using assms(1) st by (simp add: machine_inv_def)
qed

lemma init_complete:
  assumes "phase_inv M" and "mod_state M = Coming" and "acts M = []" and "ret_val M = 0"
  shows "set_up 7 (mdev M)"
proof -
  obtain n where n: "n \<le> 7" "drop n stage_order = []" "set_up n (mdev M)"
    using assms by (auto simp: phase_inv_def simp del: drop_eq_Nil)
  then have "n = 7" by (simp add: stage_order_def)
  then show ?thesis using n(3) by simp
qed

lemma dev_step_inv: "dev_step M M' \<Longrightarrow> machine_inv M \<Longrightarrow> machine_inv M'"
proof (induction rule: dev_step.induct)
  case (load M env ret as)
  then show ?case by (intro load_inv)
next
  case (run M a as)
  then show ?case by (intro run_inv)
next
  case (init_ok M)
  then show ?case using init_complete [of M] by (auto simp: machine_inv_def phase_inv_def)
next
  case (init_failed M)
  then show ?case by (auto simp: machine_inv_def phase_inv_def winding_down_def)
next
  case (rmmod M)
  then show ?case using leaving by (auto simp: machine_inv_def phase_inv_def winding_down_def)
next
  case (exit_done M)
  then show ?case by (auto simp: machine_inv_def phase_inv_def winding_down_def)
next
  case (open_dev M r)
  then show ?case by (intro open_inv)
next
  case (write_dev M alloc ubuf cnt ret d)
  then show ?case by (intro data_inv) (auto dest: miev_write_dev)
next
  case (early M f')
  then show ?case by (intro data_inv) auto
next
  case (read_dev M nonblock f cnt uncopied ret out f')
  then show ?case by (intro data_inv) auto
next
  case (block M)
  then show ?case by (auto simp: machine_inv_def phase_inv_def winding_down_def split: mod_state.splits)
next
  case (wake M)
  then show ?case by (auto simp: machine_inv_def phase_inv_def winding_down_def split: mod_state.splits)
next
  case (close_dev M r)
  then show ?case
    by (auto simp: machine_inv_def phase_inv_def winding_down_def miev_release_def split: mod_state.splits)
qed

lemma dev_reach_inv: "dev_reach M \<Longrightarrow> machine_inv M"
proof (induction rule: dev_reach.induct)
  case start
  then show ?case by (simp add: dev_start_def machine_inv_def phase_inv_def set_up_0 miev_start_def miev_idle_def)
qed (rule dev_step_inv)

section \<open>Open files\<close>

text \<open>C6: An open file has its device. While no init has failed after \<open>cdev_add\<close>, and however opens,
  reads, writes, closes, loads and unloads interleave with the single calls of init and cleanup,
  an open file is one reference of its own and one of the kernel, no cleanup runs while a file is open, and the device of an open
  file is allocated and registered and reachable through \<open>miev_dev\<close>; once init is done it has its
  queue, class, device node and workqueue.\<close>

theorem open_file_alive:
  assumes "dev_reach M" and "\<not> late_failure M" and "0 < opened M"
  shows "refs M = opened M \<and> owner_refs M = opened M \<and> mod_state M \<in> {Coming, Live} \<and> miev_dev (mdev M) \<noteq> None \<and>
    {Dev_mem, Chrdev, Cdev} \<subseteq> set (held (mdev M)) \<and>
    (mod_state M = Live \<longrightarrow> held (mdev M) = [Workqueue, Device, Class, Fifo, Cdev, Chrdev, Dev_mem])"
proof -
  have inv: "machine_inv M" "phase_inv M"
    using dev_reach_inv [OF assms(1)] assms(2) by (simp_all add: machine_inv_def)
  obtain n where n: "3 \<le> n" "n \<le> 7" "set_up n (mdev M)" "mod_state M \<in> {Coming, Live}"
    "mod_state M = Live \<longrightarrow> n = 7"
    using inv(2) assms(3)
    by (cases "mod_state M") (auto simp: phase_inv_def winding_down_def split: if_splits intro: that [of 7])
  have "take 3 stage_order = take 3 (take n stage_order)" using n(1) by (simp add: min_def)
  then have "set (take 3 stage_order) \<subseteq> set (take n stage_order)" by (metis set_take_subset)
  then show ?thesis
    using n inv(1) held_set_up [OF n(3)] by (auto simp: machine_inv_def set_up_def stage_order_def numeral_eq_Suc)
qed

text \<open>A run that opens the device while init is still at work.\<close>

lemma dev_reach_runs:
  "dev_reach M \<Longrightarrow> acts M = as @ bs \<Longrightarrow> dev_reach (M\<lparr>acts := bs, mdev := fold act_do as (mdev M)\<rparr>)"
proof (induction as arbitrary: M)
  case (Cons a as)
  then have "dev_reach (M\<lparr>acts := as @ bs, mdev := act_do a (mdev M)\<rparr>)"
    using dev_reach.step dev_step.run by fastforce
  from Cons.IH [OF this] show ?case by simp
next
  case (Nil M)
  have "M\<lparr>acts := bs, mdev := mdev M\<rparr> = M"
    using Nil.prems(2) by (intro miev_machine.equality) simp_all
  then show ?case using Nil.prems(1) by (simp only: fold_simps id_apply)
qed

definition opened_early :: "miev_env \<Rightarrow> miev_machine" where
  "opened_early env = dev_start\<lparr>mod_state := Coming,
     acts := drop 3 (snd (init_acts [] (miev_stages env))), ret_val := fst (init_acts [] (miev_stages env)),
     mdev := fold act_do [Acq Dev_mem, Acq Chrdev, Acq Cdev] miev_start,
     refs := 1, owner_refs := 1, opened := 1, blocked := 1, late_failure := late env\<rparr>"

lemma opened_early_reach:
  assumes "m_kzalloc env" and "m_chrdev env = 0" and "m_cdev env = 0"
  shows "dev_reach (opened_early env)"
proof -
  obtain ret as where i: "init_acts [] (miev_stages env) = (ret, as)" by fastforce
  have as: "as = [Acq Dev_mem, Acq Chrdev, Acq Cdev] @ drop 3 as"
    using i assms by (auto simp: miev_stages_def case_prod_beta split: if_splits)
  let ?L = "dev_start\<lparr>mod_state := Coming, acts := as, ret_val := ret, late_failure := late env\<rparr>"
  let ?s = "fold act_do [Acq Dev_mem, Acq Chrdev, Acq Cdev] miev_start"
  have "dev_reach ?L"
    using dev_reach.step [OF dev_reach.start dev_step.load [OF _ i]] by (simp add: dev_start_def)
  from dev_reach_runs [OF this, of "[Acq Dev_mem, Acq Chrdev, Acq Cdev]" "drop 3 as"] as
  have c: "dev_reach (?L\<lparr>acts := drop 3 as, mdev := ?s\<rparr>)" by (simp add: dev_start_def)
  have s: "Cdev \<in> set (held ?s)" "miev_dev ?s = Some \<lparr>kf_data = [], kf_size = 0\<rparr>"
    by (simp_all add: held_def miev_start_def)
  have "dev_step (?L\<lparr>acts := drop 3 as, mdev := ?s\<rparr>)
      (?L\<lparr>acts := drop 3 as, mdev := ?s, refs := 1, owner_refs := 1, opened := 1\<rparr>)"
    using dev_step.open_dev [of "?L\<lparr>acts := drop 3 as, mdev := ?s\<rparr>" 1] s(1)
    by (simp add: miev_open_def dev_start_def)
  from dev_reach.step [OF c this]
  have o: "dev_reach (?L\<lparr>acts := drop 3 as, mdev := ?s, refs := 1, owner_refs := 1, opened := 1\<rparr>)" .
  have "dev_step (?L\<lparr>acts := drop 3 as, mdev := ?s, refs := 1, owner_refs := 1, opened := 1\<rparr>) (opened_early env)"
    using dev_step.block [of "?L\<lparr>acts := drop 3 as, mdev := ?s, refs := 1, owner_refs := 1, opened := 1\<rparr>"] s(2) i
    by (simp add: miev_read_check_def dev_start_def opened_early_def)
  from dev_reach.step [OF o this] show ?thesis .
qed

theorem open_file_alive_witness:
  "miev_dev (mdev (opened_early \<lparr>m_kzalloc = True, m_chrdev = 0, m_cdev = 0, m_fifo = 0, m_class = 0,
     m_device = 0, m_wq = True\<rparr>)) \<noteq> None"
  using open_file_alive [of "opened_early \<lparr>m_kzalloc = True, m_chrdev = 0, m_cdev = 0, m_fifo = 0,
      m_class = 0, m_device = 0, m_wq = True\<rparr>"] opened_early_reach
  by (simp add: opened_early_def late_def miev_stages_def dev_start_def)

text \<open>C18: A late failure frees the device under a reader. Whenever init fails after \<open>cdev_add\<close>, at the
  queue, the class, the device node or the workqueue, there is a run in which a reader opened the
  device in between and waits in the queue inside it, and in which init then frees the device and
  the module is gone while the reader still waits and holds its reference.\<close>

theorem late_failure_use_after_free:
  assumes "late env"
  shows "\<exists>M. dev_reach M \<and> mod_state M = Unloaded \<and> miev_dev (mdev M) = None \<and> held (mdev M) = [] \<and>
    0 < blocked M \<and> 0 < refs M"
proof -
  obtain ret as where i: "init_acts [] (miev_stages env) = (ret, as)" by fastforce
  have l: "Acq Cdev \<in> set as" "ret \<noteq> 0" using assms i by (simp_all add: late_def)
  then have ok: "m_kzalloc env" "m_chrdev env = 0" "m_cdev env = 0"
    using i by (auto simp: miev_stages_def case_prod_beta split: if_splits)
  have as: "as = [Acq Dev_mem, Acq Chrdev, Acq Cdev] @ drop 3 as"
    using i ok by (auto simp: miev_stages_def case_prod_beta split: if_splits)
  let ?M = "(opened_early env)\<lparr>acts := [], mdev := fold act_do as miev_start\<rparr>"
  have "fold act_do (drop 3 as) (mdev (opened_early env)) = fold act_do as miev_start"
    by (subst (2) as) (simp add: opened_early_def)
  then have "dev_reach ?M"
    using dev_reach_runs [OF opened_early_reach [OF ok], of "drop 3 as" "[]"] i
    by (simp add: opened_early_def)
  moreover have "dev_step ?M (?M\<lparr>mod_state := Unloaded\<rparr>)"
    using l(2) i by (intro dev_step.init_failed) (simp_all add: opened_early_def)
  ultimately have "dev_reach (?M\<lparr>mod_state := Unloaded\<rparr>)" by (rule dev_reach.step)
  moreover have "set_up 0 (fold act_do as miev_start)"
    using failing_init [OF _ i l(2), of miev_start] by (simp add: set_up_0 miev_start_def miev_idle_def)
  then have "miev_dev (fold act_do as miev_start) = None" "held (fold act_do as miev_start) = []"
    using held_set_up [of 0] by (simp_all add: set_up_def)
  ultimately show ?thesis
    by (intro exI [of _ "?M\<lparr>mod_state := Unloaded\<rparr>"]) (simp add: opened_early_def)
qed

theorem late_failure_use_after_free_witness:
  "\<exists>M. dev_reach M \<and> mod_state M = Unloaded \<and> held (mdev M) = [] \<and> 0 < blocked M"
  using late_failure_use_after_free [of "\<lparr>m_kzalloc = True, m_chrdev = 0, m_cdev = 0, m_fifo = 0,
      m_class = - 12, m_device = 0, m_wq = True\<rparr>"]
  by (auto simp: late_def miev_stages_def)

end
