(* ===== verification/Governor.thy ===== *)
theory Governor
  imports Miloadtrace
begin

text \<open>
  The governor \<open>migov\<close> of \<open>miloadtrace.c\<close> under cpufreq. The core calls the functions of the
  governor's table for any number of policies: init and exit when the governor is selected and
  left, start and stop around every change of a policy's CPUs, limits while it runs. The locale
  \<open>policy_governor\<close> is what the core relies on; its lemma says that the memory held is that of the
  policies the governor is selected for, in any history. The pointers of the CPUs are treated on
  the model itself.
\<close>

section \<open>The table of the governor\<close>

record cpufreq_governor =
  gov_name :: string
  gov_init :: "bool \<times> bool \<Rightarrow> gov_policy \<Rightarrow> gov_sys \<Rightarrow> int \<times> gov_policy \<times> gov_sys"
  gov_exit :: "gov_policy \<Rightarrow> gov_sys \<Rightarrow> gov_policy \<times> gov_sys"
  gov_begin :: "gov_policy \<Rightarrow> gov_sys \<Rightarrow> int \<times> gov_sys"
  gov_stop :: "gov_policy \<Rightarrow> gov_sys \<Rightarrow> gov_sys"
  gov_limits :: "gov_policy option \<Rightarrow> freq_rec \<Rightarrow> freq_rec"

text \<open>Stopping only waits until no other CPU is inside the governor.\<close>

definition cpu_gov_stop :: "gov_policy \<Rightarrow> gov_sys \<Rightarrow> gov_sys" where
  "cpu_gov_stop p s = s"

definition mi_gov :: cpufreq_governor where
  "mi_gov = \<lparr>gov_name = ''migov'', gov_init = cpu_gov_init, gov_exit = cpu_gov_exit,
     gov_begin = cpu_gov_start, gov_stop = cpu_gov_stop, gov_limits = cpu_gov_limits\<rparr>"

text \<open>Registration hands the table to the core and returns the core's answer.\<close>

definition migtgov_register :: "int \<Rightarrow> cpufreq_governor list \<Rightarrow> int \<times> cpufreq_governor list" where
  "migtgov_register ret govs = (ret, if ret = 0 then mi_gov # govs else govs)"

definition migtgov_unregister :: "cpufreq_governor list \<Rightarrow> cpufreq_governor list" where
  "migtgov_unregister govs = [g \<leftarrow> govs. gov_name g \<noteq> gov_name mi_gov]"

section \<open>What the core relies on\<close>

locale policy_governor =
  fixes init :: "'a \<Rightarrow> 'p \<Rightarrow> 's \<Rightarrow> int \<times> 'p \<times> 's"
    and exit :: "'p \<Rightarrow> 's \<Rightarrow> 'p \<times> 's"
    and owned :: "'p \<Rightarrow> 'r list"
    and log :: "'s \<Rightarrow> 'r ev list"
  assumes init_owns: "owned p = [] \<Longrightarrow> init a p s = (ret, p', s') \<Longrightarrow>
        \<exists>l. log s' = log s @ l \<and> holds_exactly l (owned p') \<and> (ret \<noteq> 0 \<longrightarrow> owned p' = [])"
    and exit_releases: "exit p s = (p', s') \<Longrightarrow>
        log s' = log s @ map Put (rev (owned p)) \<and> owned p' = []"
begin

definition all_owned :: "'p list \<Rightarrow> 'r multiset" where
  "all_owned ps = mset (concat (map owned ps))"

lemma all_owned_update:
  assumes "i < length ps"
  shows "all_owned (ps[i := p']) + mset (owned (ps ! i)) = all_owned ps + mset (owned p')"
  using assms
proof (induction ps arbitrary: i)
  case (Cons p ps)
  then show ?case by (cases i) (auto simp: all_owned_def ac_simps)
qed simp

lemma init_ledger:
  assumes "i < length ps" and "owned (ps ! i) = []" and "run_ledger {#} (log s) = Some (all_owned ps)"
    and "init a (ps ! i) s = (ret, p', s')"
  shows "run_ledger {#} (log s') = Some (all_owned (ps[i := p']))"
proof -
  obtain l where l: "log s' = log s @ l" "holds_exactly l (owned p')"
    using init_owns [OF assms(2,4)] by blast
  have "run_ledger (all_owned ps) l = Some (all_owned ps + mset (owned p'))"
    using run_ledger_frame [of "{#}" l "mset (owned p')" "all_owned ps"] l(2)
    by (simp add: holds_exactly_def add.commute)
  then show ?thesis
    using all_owned_update [OF assms(1), of p'] assms(2,3) l(1) by (simp add: run_ledger_append)
qed

lemma exit_ledger:
  assumes "i < length ps" and "run_ledger {#} (log s) = Some (all_owned ps)"
    and "exit (ps ! i) s = (p', s')"
  shows "run_ledger {#} (log s') = Some (all_owned (ps[i := p']))"
proof -
  have e: "log s' = log s @ map Put (rev (owned (ps ! i)))" "owned p' = []"
    using exit_releases [OF assms(3)] by blast+
  have "all_owned ps = mset (rev (owned (ps ! i))) + all_owned (ps[i := p'])"
    using all_owned_update [OF assms(1), of p'] e(2) by (simp add: add.commute)
  then show ?thesis
    using run_ledger_puts [of "rev (owned (ps ! i))" "all_owned (ps[i := p'])"] assms(2) e(1)
    by (simp add: run_ledger_append)
qed

end

definition policy_memory :: "gov_policy \<Rightarrow> gov_res list" where
  "policy_memory p = (case governor_data p of None \<Rightarrow> [] | Some a \<Rightarrow> [Mg_policy a, Tunables a])"

interpretation migov: policy_governor "gov_init mi_gov" "gov_exit mi_gov" policy_memory gov_log
proof
  fix p a s ret p' s'
  assume "policy_memory p = []" "gov_init mi_gov a p s = (ret, p', s')"
  then show "\<exists>l. gov_log s' = gov_log s @ l \<and> holds_exactly l (policy_memory p') \<and> (ret \<noteq> 0 \<longrightarrow> policy_memory p' = [])"
    by (auto simp: mi_gov_def cpu_gov_init_def Let_def policy_memory_def holds_exactly_def
        split: if_splits option.splits)
next
  fix p s p' s'
  assume "gov_exit mi_gov p s = (p', s')"
  then show "gov_log s' = gov_log s @ map Put (rev (policy_memory p)) \<and> policy_memory p' = []"
    by (auto simp: mi_gov_def cpu_gov_exit_def policy_memory_def split: option.splits)
qed

section \<open>The core and its policies\<close>

datatype gov_phase = Off | Selected | Running

text \<open>
  The policies with the phase of the governor on each. The core selects the governor on a policy
  that does not have it, starts and stops it in turn, changes the CPUs of a policy while the
  governor is stopped and its frequency while it runs, leaves it only when it is stopped, and gives
  every CPU to one policy.
\<close>

record gov_core =
  pols :: "gov_policy list"
  phases :: "gov_phase list"
  gsys :: gov_sys
  grec :: freq_rec

inductive gov_step :: "gov_core \<Rightarrow> gov_core \<Rightarrow> bool" where
  select: "i < length (pols G) \<Longrightarrow> phases G ! i = Off \<Longrightarrow> gov_init mi_gov a (pols G ! i) (gsys G) = (ret, p, s) \<Longrightarrow>
    gov_step G (G\<lparr>pols := (pols G)[i := p], gsys := s,
      phases := if ret = 0 then (phases G)[i := Selected] else phases G\<rparr>)"
| leave: "i < length (pols G) \<Longrightarrow> phases G ! i = Selected \<Longrightarrow> gov_exit mi_gov (pols G ! i) (gsys G) = (p, s) \<Longrightarrow>
    gov_step G (G\<lparr>pols := (pols G)[i := p], gsys := s, phases := (phases G)[i := Off]\<rparr>)"
| begin_pol: "i < length (pols G) \<Longrightarrow> phases G ! i = Selected \<Longrightarrow> gov_begin mi_gov (pols G ! i) (gsys G) = (0, s) \<Longrightarrow>
    gov_step G (G\<lparr>gsys := s, phases := (phases G)[i := Running]\<rparr>)"
| stop: "i < length (pols G) \<Longrightarrow> phases G ! i = Running \<Longrightarrow>
    gov_step G (G\<lparr>gsys := gov_stop mi_gov (pols G ! i) (gsys G), phases := (phases G)[i := Selected]\<rparr>)"
| hotplug: "i < length (pols G) \<Longrightarrow> phases G ! i \<noteq> Running \<Longrightarrow>
    \<forall>j < length (pols G). j \<noteq> i \<longrightarrow> set cpus \<inter> set (gp_cpus (pols G ! j)) = {} \<Longrightarrow>
    gov_step G (G\<lparr>pols := (pols G)[i := (pols G ! i)\<lparr>gp_cpus := cpus\<rparr>]\<rparr>)"
| limits: "i < length (pols G) \<Longrightarrow> phases G ! i = Running \<Longrightarrow>
    gov_step G (G\<lparr>pols := (pols G)[i := (pols G ! i)\<lparr>gp_cur := f\<rparr>],
      grec := gov_limits mi_gov (Some ((pols G ! i)\<lparr>gp_cur := f\<rparr>)) (grec G)\<rparr>)"

text \<open>At first the governor is selected nowhere.\<close>

inductive gov_reach :: "gov_core \<Rightarrow> bool" where
  start: "length (phases G) = length (pols G) \<Longrightarrow> set (phases G) \<subseteq> {Off} \<Longrightarrow>
    \<forall>p \<in> set (pols G). governor_data p = None \<Longrightarrow>
    \<forall>i < length (pols G). \<forall>j < length (pols G). i \<noteq> j \<longrightarrow>
      set (gp_cpus (pols G ! i)) \<inter> set (gp_cpus (pols G ! j)) = {} \<Longrightarrow>
    gsys G = gov_start \<Longrightarrow> gov_reach G"
| step: "gov_reach G \<Longrightarrow> gov_step G G' \<Longrightarrow> gov_reach G'"

section \<open>Invariants\<close>

definition default_tunables :: migov_tunables where
  "default_tunables = \<lparr>hispeed_load = 90, up_rate_limit_us = 0, down_rate_limit_us = 0\<rparr>"

text \<open>One policy: it has data exactly while the governor is selected, and the data is live.\<close>

definition policy_ok :: "gov_sys \<Rightarrow> gov_policy \<Rightarrow> gov_phase \<Rightarrow> bool" where
  "policy_ok s p ph \<longleftrightarrow>
     (case governor_data p of
        None \<Rightarrow> ph = Off
      | Some a \<Rightarrow> ph \<noteq> Off \<and> a < gov_next s \<and> gov_heap s a = Some default_tunables) \<and>
     (ph = Running \<longrightarrow> (\<forall>c \<in> set (gp_cpus p). gov_cpu s c = governor_data p))"

text \<open>Two policies share neither data nor CPUs.\<close>

definition policies_apart :: "gov_policy \<Rightarrow> gov_policy \<Rightarrow> bool" where
  "policies_apart p q \<longleftrightarrow> (governor_data p = governor_data q \<longrightarrow> governor_data p = None) \<and>
     set (gp_cpus p) \<inter> set (gp_cpus q) = {}"

definition gov_inv :: "gov_core \<Rightarrow> bool" where
  "gov_inv G \<longleftrightarrow> length (phases G) = length (pols G) \<and>
     (\<forall>i < length (pols G). policy_ok (gsys G) (pols G ! i) (phases G ! i)) \<and>
     (\<forall>i < length (pols G). \<forall>j < length (pols G). i \<noteq> j \<longrightarrow> policies_apart (pols G ! i) (pols G ! j)) \<and>
     run_ledger {#} (gov_log (gsys G)) = Some (migov.all_owned (pols G))"

text \<open>A step of policy \<open>i\<close> keeps the invariant when it keeps that policy in order and apart from
  the others and leaves the others as they were.\<close>

lemma gov_inv_update:
  assumes "gov_inv G" and "i < length (pols G)" and "policy_ok s p ph"
    and "\<And>j. j < length (pols G) \<Longrightarrow> j \<noteq> i \<Longrightarrow> policies_apart p (pols G ! j) \<and> policies_apart (pols G ! j) p"
    and "\<And>j. j < length (pols G) \<Longrightarrow> j \<noteq> i \<Longrightarrow> policy_ok s (pols G ! j) (phases G ! j)"
    and "run_ledger {#} (gov_log s) = Some (migov.all_owned ((pols G)[i := p]))"
  shows "gov_inv (G\<lparr>pols := (pols G)[i := p], gsys := s, phases := (phases G)[i := ph], grec := r\<rparr>)"
proof -
  have len: "length (phases G) = length (pols G)" using assms(1) by (simp add: gov_inv_def)
  have "policies_apart ((pols G)[i := p] ! a) ((pols G)[i := p] ! b)"
    if "a < length (pols G)" "b < length (pols G)" "a \<noteq> b" for a b
    using assms(1,2,4) that by (cases "a = i"; cases "b = i") (auto simp: gov_inv_def)
  moreover have "policy_ok s ((pols G)[i := p] ! a) ((phases G)[i := ph] ! a)" if "a < length (pols G)" for a
    using assms(2,3,5) that len by (cases "a = i") simp_all
  ultimately show ?thesis using assms(6) len unfolding gov_inv_def by simp
qed

lemma apart_sym: "policies_apart p q \<Longrightarrow> policies_apart q p"
  by (auto simp: policies_apart_def)

lemma same_data_apart:
  "policies_apart p q \<Longrightarrow> governor_data p' = governor_data p \<Longrightarrow> gp_cpus p' = gp_cpus p \<Longrightarrow> policies_apart p' q"
  by (simp add: policies_apart_def)

lemma all_owned_same:
  "policy_memory p = policy_memory (ps ! i) \<Longrightarrow> i < length ps \<Longrightarrow> migov.all_owned (ps[i := p]) = migov.all_owned ps"
  using migov.all_owned_update [of i ps p] by simp

lemma gov_invD:
  assumes "gov_inv G" and "i < length (pols G)"
  shows "policy_ok (gsys G) (pols G ! i) (phases G ! i)"
    and "j < length (pols G) \<Longrightarrow> j \<noteq> i \<Longrightarrow> policies_apart (pols G ! i) (pols G ! j)"
    and "run_ledger {#} (gov_log (gsys G)) = Some (migov.all_owned (pols G))"
  using assms by (auto simp: gov_inv_def)

lemma select_inv:
  assumes "gov_inv G" and "i < length (pols G)" and "phases G ! i = Off"
    and "gov_init mi_gov a (pols G ! i) (gsys G) = (ret, p, s)"
  shows "gov_inv (G\<lparr>pols := (pols G)[i := p], gsys := s,
    phases := (phases G)[i := if ret = 0 then Selected else Off]\<rparr>)"
proof -
  note ok = gov_invD [OF assms(1)]
  have none: "governor_data (pols G ! i) = None"
    using ok(1) [OF assms(2)] assms(3) by (auto simp: policy_ok_def split: option.splits)
  have p: "governor_data p = (if ret = 0 then Some (gov_next (gsys G)) else None)" "gp_cpus p = gp_cpus (pols G ! i)"
    and s: "gov_cpu s = gov_cpu (gsys G)" "gov_next s = Suc (gov_next (gsys G))"
      "\<And>b. b \<noteq> gov_next (gsys G) \<Longrightarrow> gov_heap s b = gov_heap (gsys G) b"
      "ret = 0 \<Longrightarrow> gov_heap s (gov_next (gsys G)) = Some default_tunables"
    using assms(4) none
    by (auto simp: mi_gov_def cpu_gov_init_def Let_def default_tunables_def split: if_splits)
  have data: "governor_data (pols G ! j) \<noteq> Some (gov_next (gsys G))" if "j < length (pols G)" for j
    using ok(1) [OF that] by (auto simp: policy_ok_def)
  have "policies_apart p (pols G ! j)" if "j < length (pols G)" "j \<noteq> i" for j
    using ok(2) [OF assms(2) that] p data [OF that(1)] by (auto simp: policies_apart_def split: if_splits)
  moreover have "policy_ok s (pols G ! j) (phases G ! j)" if "j < length (pols G)" "j \<noteq> i" for j
    using ok(1) [OF that(1)] s data [OF that(1)] by (auto simp: policy_ok_def split: option.splits)
  moreover have "policy_ok s p (if ret = 0 then Selected else Off)" using p s by (simp add: policy_ok_def)
  moreover have "run_ledger {#} (gov_log s) = Some (migov.all_owned ((pols G)[i := p]))"
    using migov.init_ledger [OF assms(2) _ ok(3) [OF assms(2)] assms(4)] none by (simp add: policy_memory_def)
  ultimately show ?thesis
    using gov_inv_update [OF assms(1,2), where r = "grec G"] apart_sym by simp
qed

lemma leave_inv:
  assumes "gov_inv G" and "i < length (pols G)" and "phases G ! i = Selected"
    and "gov_exit mi_gov (pols G ! i) (gsys G) = (p, s)"
  shows "gov_inv (G\<lparr>pols := (pols G)[i := p], gsys := s, phases := (phases G)[i := Off]\<rparr>)"
proof -
  note ok = gov_invD [OF assms(1)]
  obtain a where a: "governor_data (pols G ! i) = Some a"
    using ok(1) [OF assms(2)] assms(3) by (auto simp: policy_ok_def split: option.splits)
  have p: "governor_data p = None" "gp_cpus p = gp_cpus (pols G ! i)"
    and s: "gov_cpu s = gov_cpu (gsys G)" "gov_next s = gov_next (gsys G)"
      "gov_heap s = (gov_heap (gsys G))(a := None)"
    using assms(4) a by (auto simp: mi_gov_def cpu_gov_exit_def)
  have data: "governor_data (pols G ! j) \<noteq> Some a" if "j < length (pols G)" "j \<noteq> i" for j
    using ok(2) [OF assms(2) that] a by (auto simp: policies_apart_def)
  have "policies_apart p (pols G ! j)" if "j < length (pols G)" "j \<noteq> i" for j
    using ok(2) [OF assms(2) that] p by (auto simp: policies_apart_def)
  moreover have "policy_ok s (pols G ! j) (phases G ! j)" if "j < length (pols G)" "j \<noteq> i" for j
    using ok(1) [OF that(1)] s data [OF that] by (auto simp: policy_ok_def split: option.splits)
  moreover have "policy_ok s p Off" using p by (simp add: policy_ok_def)
  moreover have "run_ledger {#} (gov_log s) = Some (migov.all_owned ((pols G)[i := p]))"
    using migov.exit_ledger [OF assms(2) ok(3) [OF assms(2)] assms(4)] .
  ultimately show ?thesis
    using gov_inv_update [OF assms(1,2), where r = "grec G"] apart_sym by simp
qed

lemma start_points_other: "c \<notin> set cpus \<Longrightarrow> fold (\<lambda>cpu m. m(cpu := a)) cpus m c = m c"
  by (induction cpus arbitrary: m) auto

lemma begin_inv:
  assumes "gov_inv G" and "i < length (pols G)" and "phases G ! i = Selected"
    and "gov_begin mi_gov (pols G ! i) (gsys G) = (ret, s)"
  shows "gov_inv (G\<lparr>gsys := s, phases := (phases G)[i := Running]\<rparr>)"
proof -
  note ok = gov_invD [OF assms(1)]
  have s: "s = (gsys G)\<lparr>gov_cpu := fold (\<lambda>cpu m. m(cpu := governor_data (pols G ! i)))
      (gp_cpus (pols G ! i)) (gov_cpu (gsys G))\<rparr>"
    using assms(4) by (simp add: mi_gov_def cpu_gov_start_def)
  have "policy_ok s (pols G ! j) (phases G ! j)" if "j < length (pols G)" "j \<noteq> i" for j
  proof -
    have "c \<notin> set (gp_cpus (pols G ! i))" if "c \<in> set (gp_cpus (pols G ! j))" for c
      using ok(2) [OF assms(2) \<open>j < length (pols G)\<close> \<open>j \<noteq> i\<close>] that by (auto simp: policies_apart_def)
    then show ?thesis
      using ok(1) [OF that(1)] by (auto simp: s policy_ok_def start_points_other split: option.splits)
  qed
  moreover have "policy_ok s (pols G ! i) Running"
    using ok(1) [OF assms(2)] assms(3) by (auto simp: s policy_ok_def start_points split: option.splits)
  moreover have "gov_log s = gov_log (gsys G)" by (simp add: s)
  ultimately show ?thesis
    using gov_inv_update [OF assms(1,2), of s "pols G ! i" Running "grec G"] ok(2) [OF assms(2)]
      ok(3) [OF assms(2)] apart_sym by simp
qed

lemma stop_inv:
  assumes "gov_inv G" and "i < length (pols G)" and "phases G ! i = Running"
  shows "gov_inv (G\<lparr>gsys := gov_stop mi_gov (pols G ! i) (gsys G), phases := (phases G)[i := Selected]\<rparr>)"
proof -
  note ok = gov_invD [OF assms(1)]
  have "policy_ok (gsys G) (pols G ! i) Selected"
    using ok(1) [OF assms(2)] assms(3) by (auto simp: policy_ok_def split: option.splits)
  then show ?thesis
    using gov_inv_update [OF assms(1,2), of "gsys G" "pols G ! i" Selected "grec G"] ok(1,3)
      ok(2) [OF assms(2)] apart_sym assms(2) by (simp add: mi_gov_def cpu_gov_stop_def)
qed

lemma hotplug_inv:
  assumes "gov_inv G" and "i < length (pols G)" and "phases G ! i \<noteq> Running"
    and "\<forall>j < length (pols G). j \<noteq> i \<longrightarrow> set cpus \<inter> set (gp_cpus (pols G ! j)) = {}"
  shows "gov_inv (G\<lparr>pols := (pols G)[i := (pols G ! i)\<lparr>gp_cpus := cpus\<rparr>]\<rparr>)"
proof -
  note ok = gov_invD [OF assms(1)]
  let ?p = "(pols G ! i)\<lparr>gp_cpus := cpus\<rparr>"
  have "policy_ok (gsys G) ?p (phases G ! i)"
    using ok(1) [OF assms(2)] assms(3) by (auto simp: policy_ok_def split: option.splits)
  moreover have "policies_apart ?p (pols G ! j)" if "j < length (pols G)" "j \<noteq> i" for j
    using ok(2) [OF assms(2) that] assms(4) that by (auto simp: policies_apart_def)
  moreover have "migov.all_owned ((pols G)[i := ?p]) = migov.all_owned (pols G)"
    using assms(2) by (intro all_owned_same) (simp_all add: policy_memory_def)
  ultimately show ?thesis
    using gov_inv_update [OF assms(1,2), of "gsys G" ?p "phases G ! i" "grec G"] ok(1,3) assms(2) apart_sym
    by simp
qed

lemma limits_inv:
  assumes "gov_inv G" and "i < length (pols G)"
  shows "gov_inv (G\<lparr>pols := (pols G)[i := (pols G ! i)\<lparr>gp_cur := f\<rparr>], grec := r\<rparr>)"
proof -
  note ok = gov_invD [OF assms(1)]
  let ?p = "(pols G ! i)\<lparr>gp_cur := f\<rparr>"
  have "policy_ok (gsys G) ?p (phases G ! i)" using ok(1) [OF assms(2)] by (simp add: policy_ok_def)
  moreover have "policies_apart ?p (pols G ! j)" if "j < length (pols G)" "j \<noteq> i" for j
    using ok(2) [OF assms(2) that] by (simp add: policies_apart_def)
  moreover have "migov.all_owned ((pols G)[i := ?p]) = migov.all_owned (pols G)"
    using assms(2) by (intro all_owned_same) (simp_all add: policy_memory_def)
  ultimately show ?thesis
    using gov_inv_update [OF assms(1,2), of "gsys G" ?p "phases G ! i" r] ok(1,3) assms(2) apart_sym by simp
qed

lemma gov_step_inv: "gov_step G G' \<Longrightarrow> gov_inv G \<Longrightarrow> gov_inv G'"
proof (induction rule: gov_step.induct)
  case (select i G a ret p s)
  then have "(if ret = 0 then (phases G)[i := Selected] else phases G) =
      (phases G)[i := if ret = 0 then Selected else Off]" using list_update_id [of "phases G" i] by simp
  then show ?case using select_inv select by simp
next
  case (leave i G p s)
  then show ?case by (intro leave_inv)
next
  case (begin_pol i G s)
  then show ?case by (intro begin_inv)
next
  case (stop i G)
  then show ?case by (intro stop_inv)
next
  case (hotplug i G cpus)
  then show ?case by (intro hotplug_inv)
next
  case (limits i G f)
  then show ?case by (intro limits_inv)
qed

lemma gov_reach_inv: "gov_reach G \<Longrightarrow> gov_inv G"
proof (induction rule: gov_reach.induct)
  case (start G)
  have "policy_ok (gsys G) (pols G ! i) (phases G ! i)" if "i < length (pols G)" for i
  proof -
    have "phases G ! i \<in> set (phases G)" using start(1) that by simp
    then have "phases G ! i = Off" using start(2) by blast
    moreover have "governor_data (pols G ! i) = None" using start that by simp
    ultimately show ?thesis by (simp add: policy_ok_def)
  qed
  moreover have "concat (map policy_memory (pols G)) = []" using start by (auto simp: policy_memory_def)
  ultimately show ?case
    using start by (auto simp: gov_inv_def policies_apart_def migov.all_owned_def gov_start_def)
qed (rule gov_step_inv)

text \<open>C13: The governor's data is always right while it runs. However cpufreq selects, starts, stops and
  leaves the governor on any number of policies, whatever allocation fails, with CPUs moving
  between policies while they are stopped: the memory held is exactly the two allocations of each
  policy that has the governor, and while the governor runs on a policy, the pointer of each of its
  CPUs leads to the live data of that policy and of no other, with the default tunables.\<close>

theorem governor_pointers_valid:
  assumes "gov_reach G"
  shows "run_ledger {#} (gov_log (gsys G)) = Some (mset (concat (map policy_memory (pols G)))) \<and>
    (i < length (pols G) \<and> phases G ! i = Running \<and> c \<in> set (gp_cpus (pols G ! i)) \<longrightarrow>
      (\<exists>a. gov_cpu (gsys G) c = Some a \<and> governor_data (pols G ! i) = Some a \<and>
        gov_heap (gsys G) a = Some default_tunables \<and>
        (\<forall>j. j < length (pols G) \<and> governor_data (pols G ! j) = Some a \<longrightarrow> j = i)))"
proof -
  have inv: "gov_inv G" using gov_reach_inv [OF assms] .
  have "run_ledger {#} (gov_log (gsys G)) = Some (mset (concat (map policy_memory (pols G))))"
    using inv by (simp add: gov_inv_def migov.all_owned_def)
  moreover have "\<exists>a. gov_cpu (gsys G) c = Some a \<and> governor_data (pols G ! i) = Some a \<and>
        gov_heap (gsys G) a = Some default_tunables \<and>
        (\<forall>j. j < length (pols G) \<and> governor_data (pols G ! j) = Some a \<longrightarrow> j = i)"
    if "i < length (pols G)" "phases G ! i = Running" "c \<in> set (gp_cpus (pols G ! i))"
    using gov_invD(1,2) [OF inv that(1)] that(2,3)
    by (fastforce simp: policy_ok_def policies_apart_def split: option.splits)
  ultimately show ?thesis by blast
qed

text \<open>Two policies, the governor running on the second.\<close>

definition demo_gov :: gov_core where
  "demo_gov = \<lparr>pols = [\<lparr>gp_cpu = 0, gp_cur = 1, gp_cpus = [0, 1], governor_data = None\<rparr>,
      \<lparr>gp_cpu = 2, gp_cur = 1, gp_cpus = [2, 3], governor_data = None\<rparr>],
     phases = [Off, Off], gsys = gov_start, grec = init_grp_freq_record\<rparr>"

definition demo_gov_running :: gov_core where
  "demo_gov_running = demo_gov\<lparr>
     pols := [pols demo_gov ! 0, (pols demo_gov ! 1)\<lparr>governor_data := Some 0\<rparr>],
     gsys := snd (cpu_gov_start ((pols demo_gov ! 1)\<lparr>governor_data := Some 0\<rparr>)
       (snd (snd (cpu_gov_init (True, True) (pols demo_gov ! 1) gov_start)))),
     phases := [Off, Running]\<rparr>"

lemma demo_gov_reach: "gov_reach demo_gov_running"
proof -
  let ?s = "snd (snd (cpu_gov_init (True, True) (pols demo_gov ! 1) gov_start))"
  let ?p = "(pols demo_gov ! 1)\<lparr>governor_data := Some 0\<rparr>"
  have "gov_reach demo_gov"
    by (rule gov_reach.start) (auto simp: demo_gov_def less_Suc_eq numeral_2_eq_2)
  moreover have "gov_step demo_gov (demo_gov\<lparr>pols := (pols demo_gov)[1 := ?p], gsys := ?s,
      phases := if (0::int) = 0 then (phases demo_gov)[1 := Selected] else phases demo_gov\<rparr>)"
    by (rule gov_step.select [where a = "(True, True)"])
      (simp_all add: demo_gov_def mi_gov_def cpu_gov_init_def gov_start_def Let_def)
  ultimately have sel: "gov_reach (demo_gov\<lparr>pols := [pols demo_gov ! 0, ?p], gsys := ?s, phases := [Off, Selected]\<rparr>)"
    using gov_reach.step by (fastforce simp: demo_gov_def)
  have "gov_step (demo_gov\<lparr>pols := [pols demo_gov ! 0, ?p], gsys := ?s, phases := [Off, Selected]\<rparr>)
      (demo_gov\<lparr>pols := [pols demo_gov ! 0, ?p], gsys := snd (cpu_gov_start ?p ?s), phases := [Off, Running]\<rparr>)"
    using gov_step.begin_pol [of 1 "demo_gov\<lparr>pols := [pols demo_gov ! 0, ?p], gsys := ?s, phases := [Off, Selected]\<rparr>"
        "snd (cpu_gov_start ?p ?s)"]
    by (simp add: mi_gov_def cpu_gov_start_def)
  from gov_reach.step [OF sel this] show ?thesis by (simp add: demo_gov_running_def)
qed

theorem governor_pointers_valid_witness:
  "\<exists>a. gov_cpu (gsys demo_gov_running) 3 = Some a \<and> gov_heap (gsys demo_gov_running) a = Some default_tunables"
  using governor_pointers_valid [OF demo_gov_reach, of 1 3]
  by (auto simp: demo_gov_running_def demo_gov_def)

end
