(* ===== verification/Perf_Helper.thy ===== *)
theory Perf_Helper
  imports Text_Buffer Lifecycle
begin

text \<open>
  \<open>perf_helper.c\<close>: the text buffers behind its proc and sysfs files, the reclaim counter, the two
  scheduler switches, and the setup and teardown of the three groups of files. Copying from user
  memory may fault after some bytes; the kernel then clears the rest of the destination.
\<close>

section \<open>State and handlers\<close>

abbreviation PERF_HELPER_BUF_SIZE :: nat where "PERF_HELPER_BUF_SIZE \<equiv> 1024"
abbreviation PERF_HELPER_LOG_SIZE :: nat where "PERF_HELPER_LOG_SIZE \<equiv> 16384"
abbreviation KDAMOND_SIZE :: nat where "KDAMOND_SIZE \<equiv> 64"

record perf_helper =
  perflock_records_buff :: "char list"
  perflock_exception_buff :: "char list"
  mimd_log_buff :: "char list"
  reclaim_buff :: "char list"
  kdamond_cpuset :: "char list"
  sched_long_runnable_check :: bool
  sched_long_running_check :: bool
  scan_type :: u32
  reclaim_count :: u64

definition perf_helper_start :: perf_helper where
  "perf_helper_start =
     \<lparr>perflock_records_buff = replicate PERF_HELPER_LOG_SIZE NUL,
      perflock_exception_buff = replicate PERF_HELPER_LOG_SIZE NUL,
      mimd_log_buff = replicate PERF_HELPER_LOG_SIZE NUL,
      reclaim_buff = replicate PERF_HELPER_BUF_SIZE NUL,
      kdamond_cpuset = ''0-7'' @ replicate 61 NUL,
      sched_long_runnable_check = False, sched_long_running_check = False,
      scan_type = 0, reclaim_count = 0\<rparr>"

text \<open>
  A write of the bytes \<open>src\<close> of which the last \<open>fault\<close> of those to be copied cannot be read;
  the destination may be NULL.
\<close>

definition copy_from_user :: "char list \<Rightarrow> char list \<Rightarrow> nat \<Rightarrow> nat \<Rightarrow> char list" where
  "copy_from_user dst src len fault =
     take (len - min fault len) src @ replicate (min fault len) NUL @ drop len dst"

definition perf_helper_copy_user ::
  "char list option \<Rightarrow> char list \<Rightarrow> nat \<Rightarrow> int \<times> char list option" where
  "perf_helper_copy_user dst src fault =
     (case dst of
        None \<Rightarrow> (- EINVAL, None)
      | Some d \<Rightarrow>
          if length d = 0 then (- EINVAL, Some d)
          else
            (let len = min (length src) (length d - 1)
             in if min fault len \<noteq> 0 then (- EFAULT, Some (copy_from_user d src len fault))
                else (int (length src),
                      Some (strim ((copy_from_user d src len 0)[len := NUL])))))"

abbreviation stored :: "int \<times> char list option \<Rightarrow> char list" where
  "stored r \<equiv> the (snd r)"

definition perflock_records_show :: "perf_helper \<Rightarrow> string" where
  "perflock_records_show s = cstr (perflock_records_buff s) @ [LF]"

definition perflock_exception_show :: "perf_helper \<Rightarrow> string" where
  "perflock_exception_show s = cstr (perflock_exception_buff s) @ [LF]"

definition perflock_records_write :: "char list \<Rightarrow> nat \<Rightarrow> perf_helper \<Rightarrow> int \<times> perf_helper" where
  "perflock_records_write src fault s =
     (let r = perf_helper_copy_user (Some (perflock_records_buff s)) src fault
      in (fst r, s\<lparr>perflock_records_buff := stored r\<rparr>))"

definition perflock_exception_write :: "char list \<Rightarrow> nat \<Rightarrow> perf_helper \<Rightarrow> int \<times> perf_helper" where
  "perflock_exception_write src fault s =
     (let r = perf_helper_copy_user (Some (perflock_exception_buff s)) src fault
      in (fst r, s\<lparr>perflock_exception_buff := stored r\<rparr>))"

definition pid_show_common :: "int option \<Rightarrow> string" where
  "pid_show_common pid = fmt_d (case pid of None \<Rightarrow> - 1 | Some p \<Rightarrow> p) @ [LF]"

definition mimdlog_show :: "perf_helper \<Rightarrow> string" where
  "mimdlog_show s = cstr (mimd_log_buff s) @ [LF]"

definition mimdlog_write :: "char list \<Rightarrow> nat \<Rightarrow> perf_helper \<Rightarrow> int \<times> perf_helper" where
  "mimdlog_write src fault s =
     (let r = perf_helper_copy_user (Some (mimd_log_buff s)) src fault
      in (fst r, s\<lparr>mimd_log_buff := stored r\<rparr>))"

definition global_reclaim_show :: "perf_helper \<Rightarrow> string" where
  "global_reclaim_show s =
     ''reclaimed='' @ fmt_u (unat (reclaim_count s)) @ [LF] @ cstr (reclaim_buff s) @ [LF]"

definition global_reclaim_write :: "char list \<Rightarrow> nat \<Rightarrow> perf_helper \<Rightarrow> int \<times> perf_helper" where
  "global_reclaim_write src fault s =
     (let r = perf_helper_copy_user (Some (reclaim_buff s)) src fault;
          s = s\<lparr>reclaim_buff := stored r\<rparr>
      in (fst r, if fst r > 0 then s\<lparr>reclaim_count := reclaim_count s + 1\<rparr> else s))"

definition mimdtrigger_show :: "perf_helper \<Rightarrow> string" where
  "mimdtrigger_show s = fmt_u (unat (reclaim_count s)) @ [LF]"

definition mimdtrigger_store :: "string \<Rightarrow> perf_helper \<Rightarrow> int \<times> perf_helper" where
  "mimdtrigger_store buf s = (int (length buf), s\<lparr>reclaim_count := reclaim_count s + 1\<rparr>)"

definition mimdnotifier_show :: "perf_helper \<Rightarrow> string" where
  "mimdnotifier_show s = fmt_u (unat (scan_type s)) @ [LF]"

definition mimdnotifier_store :: "string \<Rightarrow> perf_helper \<Rightarrow> int \<times> perf_helper" where
  "mimdnotifier_store buf s = (int (length buf), s)"

text \<open>\<open>kb\<close> stands for \<open>kstrtobool\<close>: an error code or the value it stores.\<close>

definition sched_long_runnable_check_store ::
  "(string \<Rightarrow> int + bool) \<Rightarrow> string \<Rightarrow> perf_helper \<Rightarrow> int \<times> perf_helper" where
  "sched_long_runnable_check_store kb buf s =
     (case kb buf of
        Inl e \<Rightarrow> (if e \<noteq> 0 then e else int (length buf), s)
      | Inr b \<Rightarrow> (int (length buf), s\<lparr>sched_long_runnable_check := b\<rparr>))"

definition sched_long_running_check_store ::
  "(string \<Rightarrow> int + bool) \<Rightarrow> string \<Rightarrow> perf_helper \<Rightarrow> int \<times> perf_helper" where
  "sched_long_running_check_store kb buf s =
     (case kb buf of
        Inl e \<Rightarrow> (if e \<noteq> 0 then e else int (length buf), s)
      | Inr b \<Rightarrow> (int (length buf), s\<lparr>sched_long_running_check := b\<rparr>))"

definition sched_long_runnable_check_show :: "perf_helper \<Rightarrow> string" where
  "sched_long_runnable_check_show s = fmt_u (if sched_long_runnable_check s then 1 else 0) @ [LF]"

definition sched_long_running_check_show :: "perf_helper \<Rightarrow> string" where
  "sched_long_running_check_show s = fmt_u (if sched_long_running_check s then 1 else 0) @ [LF]"

definition kdamond_cpuset_show :: "perf_helper \<Rightarrow> string" where
  "kdamond_cpuset_show s = cstr (kdamond_cpuset s) @ [LF]"

definition kdamond_copy :: "char list \<Rightarrow> char list \<Rightarrow> char list" where
  "kdamond_copy dst buf =
     (let len = min (length buf) (KDAMOND_SIZE - 1) in strim ((memcpy dst buf len)[len := NUL]))"

definition kdamond_cpuset_store :: "string \<Rightarrow> perf_helper \<Rightarrow> int \<times> perf_helper" where
  "kdamond_cpuset_store buf s =
     (int (length buf), s\<lparr>kdamond_cpuset := kdamond_copy (kdamond_cpuset s) buf\<rparr>)"

section \<open>The text buffers\<close>

lemma copy_from_user_ok: "copy_from_user dst src len 0 = memcpy dst src len"
  by (simp add: copy_from_user_def memcpy_def)

lemma copy_user_ok:
  assumes "length buf = n" and "0 < n"
  shows "cstr (stored (perf_helper_copy_user (Some buf) src 0)) = rstrip (cstr (take (n - 1) src))"
    and "length (stored (perf_helper_copy_user (Some buf) src 0)) = n"
  using copy_terminate_trim [OF assms, of "min (length src) (n - 1)" src] assms
  by (simp_all add: perf_helper_copy_user_def copy_from_user_ok Let_def)

interpretation perf_log: text_buffer PERF_HELPER_LOG_SIZE
  "\<lambda>buf src. stored (perf_helper_copy_user (Some buf) src 0)"
  by unfold_locales
    (simp, rule copy_user_ok(2), assumption, simp, rule copy_user_ok(1), assumption, simp)

interpretation perf_reclaim: text_buffer PERF_HELPER_BUF_SIZE
  "\<lambda>buf src. stored (perf_helper_copy_user (Some buf) src 0)"
  by unfold_locales
    (simp, rule copy_user_ok(2), assumption, simp, rule copy_user_ok(1), assumption, simp)

interpretation kdamond: text_buffer KDAMOND_SIZE kdamond_copy
  by unfold_locales
    (simp_all only: kdamond_copy_def Let_def
      copy_terminate_trim [where n = KDAMOND_SIZE, OF _ _ refl] zero_less_numeral)

text \<open>A buffer of the right size whose last byte is NUL.\<close>

definition buf_ok :: "nat \<Rightarrow> char list \<Rightarrow> bool" where
  "buf_ok n b \<longleftrightarrow> length b = n \<and> b \<noteq> [] \<and> last b = NUL"

definition perf_wf :: "perf_helper \<Rightarrow> bool" where
  "perf_wf s \<longleftrightarrow>
     buf_ok PERF_HELPER_LOG_SIZE (perflock_records_buff s) \<and>
     buf_ok PERF_HELPER_LOG_SIZE (perflock_exception_buff s) \<and>
     buf_ok PERF_HELPER_LOG_SIZE (mimd_log_buff s) \<and>
     buf_ok PERF_HELPER_BUF_SIZE (reclaim_buff s) \<and>
     buf_ok KDAMOND_SIZE (kdamond_cpuset s)"

lemma last_update_NUL: "last b = NUL \<Longrightarrow> last (b[i := NUL]) = NUL"
  by (cases "b = []"; cases "i < length b")
    (simp_all add: last_conv_nth nth_list_update list_update_beyond)

lemma copy_from_user_shape:
  assumes "len \<le> length src" and "len < length dst"
  shows "length (copy_from_user dst src len k) = length dst"
    and "last (copy_from_user dst src len k) = last dst"
proof -
  have "length (take (len - min k len) src) = len - min k len" using assms(1) by simp
  then show "length (copy_from_user dst src len k) = length dst"
    using assms(2) by (simp add: copy_from_user_def)
  show "last (copy_from_user dst src len k) = last dst"
    using assms(2) by (simp add: copy_from_user_def last_drop)
qed

lemma strim_last: "last b = NUL \<Longrightarrow> last (strim b) = NUL"
  by (simp add: strim_def last_update_NUL)

lemma copy_user_buf_ok:
  assumes "buf_ok n b"
  shows "buf_ok n (stored (perf_helper_copy_user (Some b) src fault))"
proof -
  let ?len = "min (length src) (length b - 1)"
  have b: "b \<noteq> []" "length b = n" "last b = NUL" using assms by (auto simp: buf_ok_def)
  then have lt: "?len < length b" by (cases b) auto
  have "length (copy_from_user b src ?len k) = n" for k
    using copy_from_user_shape(1) [OF _ lt] b by simp
  moreover have "last (copy_from_user b src ?len k) = NUL" for k
    using copy_from_user_shape(2) [OF _ lt] b by simp
  ultimately show ?thesis
    using b by (auto simp: perf_helper_copy_user_def Let_def buf_ok_def strim_last last_update_NUL
        simp flip: length_greater_0_conv)
qed

lemma kdamond_buf_ok:
  assumes "buf_ok KDAMOND_SIZE b"
  shows "buf_ok KDAMOND_SIZE (kdamond_copy b src)"
proof -
  let ?len = "min (length src) (KDAMOND_SIZE - 1)"
  have lt: "?len < length b" and b: "length b = KDAMOND_SIZE" "last b = NUL"
    using assms by (auto simp: buf_ok_def)
  then have "last (memcpy b src ?len) = NUL" "length (memcpy b src ?len) = KDAMOND_SIZE"
    by (simp_all add: memcpy_def last_drop)
  then show ?thesis
    by (auto simp: kdamond_copy_def Let_def buf_ok_def strim_last last_update_NUL
        simp flip: length_greater_0_conv)
qed

section \<open>Sequences of file operations\<close>

text \<open>The writes user space can do, each with the bytes and the part of them that faults.\<close>

datatype perf_op =
    Records "char list" nat | Exception_log "char list" nat | Mimdlog "char list" nat
  | Reclaim "char list" nat | Trigger string | Notifier string | Cpuset string
  | Runnable string | Running string

fun perf_do :: "(string \<Rightarrow> int + bool) \<Rightarrow> perf_op \<Rightarrow> perf_helper \<Rightarrow> perf_helper" where
  "perf_do kb (Records b k) s = snd (perflock_records_write b k s)"
| "perf_do kb (Exception_log b k) s = snd (perflock_exception_write b k s)"
| "perf_do kb (Mimdlog b k) s = snd (mimdlog_write b k s)"
| "perf_do kb (Reclaim b k) s = snd (global_reclaim_write b k s)"
| "perf_do kb (Trigger b) s = snd (mimdtrigger_store b s)"
| "perf_do kb (Notifier b) s = snd (mimdnotifier_store b s)"
| "perf_do kb (Cpuset b) s = snd (kdamond_cpuset_store b s)"
| "perf_do kb (Runnable b) s = snd (sched_long_runnable_check_store kb b s)"
| "perf_do kb (Running b) s = snd (sched_long_running_check_store kb b s)"

text \<open>An operation that counts as a reclaim: a trigger, or a write of something without a fault.\<close>

fun counts :: "perf_op \<Rightarrow> bool" where
  "counts (Trigger b) = True"
| "counts (Reclaim b k) = (b \<noteq> [] \<and> k = 0)"
| "counts p = False"

lemma perf_wf_start: "perf_wf perf_helper_start"
  by (simp add: perf_wf_def perf_helper_start_def buf_ok_def last_conv_nth)

lemma perf_wf_do: "perf_wf s \<Longrightarrow> perf_wf (perf_do kb p s)"
  by (cases p)
    (auto simp: perf_wf_def perflock_records_write_def perflock_exception_write_def
      mimdlog_write_def global_reclaim_write_def mimdtrigger_store_def mimdnotifier_store_def
      kdamond_cpuset_store_def sched_long_runnable_check_store_def
      sched_long_running_check_store_def Let_def copy_user_buf_ok kdamond_buf_ok split: sum.split)

lemma reclaim_ret:
  assumes "buf_ok PERF_HELPER_BUF_SIZE buf"
  shows "fst (perf_helper_copy_user (Some buf) b k) > 0 \<longleftrightarrow> b \<noteq> [] \<and> k = 0"
  using assms by (auto simp: perf_helper_copy_user_def buf_ok_def Let_def)

lemma reclaim_count_do:
  "perf_wf s \<Longrightarrow> reclaim_count (perf_do kb p s) = reclaim_count s + (if counts p then 1 else 0)"
  using reclaim_ret
  by (cases p)
    (auto simp: perf_wf_def perflock_records_write_def perflock_exception_write_def
      mimdlog_write_def global_reclaim_write_def mimdtrigger_store_def mimdnotifier_store_def
      kdamond_cpuset_store_def sched_long_runnable_check_store_def
      sched_long_running_check_store_def Let_def split: sum.split)

lemma cstr_buf_ok:
  assumes "buf_ok n b"
  shows "length (cstr b) < n"
proof -
  have "NUL \<in> set b" using assms last_in_set [of b] by (auto simp: buf_ok_def)
  then have "cstr b \<noteq> b" by (metis (full_types) cstr_def set_takeWhileD)
  then have "length (cstr b) < length b"
    unfolding cstr_def by (metis le_neq_implies_less length_takeWhile_le takeWhile_eq_take take_all_iff order_refl)
  then show ?thesis using assms by (simp add: buf_ok_def)
qed

text \<open>C36: the files never read past their buffers. Whatever is written to the files in whatever
  order, of any length and with a fault at any byte, each of the five buffers still ends in a
  NUL, so every \<open>%s\<close> that shows one stops inside it; and the reclaim counter is the number of
  triggers and of non-empty writes that did not fault, modulo its 64 bits.\<close>

theorem perf_files_safe:
  fixes ops :: "perf_op list" and kb :: "string \<Rightarrow> int + bool"
  defines "s \<equiv> fold (perf_do kb) ops perf_helper_start"
  shows "length (cstr (perflock_records_buff s)) < PERF_HELPER_LOG_SIZE \<and>
    length (cstr (perflock_exception_buff s)) < PERF_HELPER_LOG_SIZE \<and>
    length (cstr (mimd_log_buff s)) < PERF_HELPER_LOG_SIZE \<and>
    length (cstr (reclaim_buff s)) < PERF_HELPER_BUF_SIZE \<and>
    length (cstr (kdamond_cpuset s)) < KDAMOND_SIZE \<and>
    reclaim_count s = of_nat (length (filter counts ops))"
proof -
  have "perf_wf (fold (perf_do kb) ops s0) \<and>
      reclaim_count (fold (perf_do kb) ops s0) = reclaim_count s0 + of_nat (length (filter counts ops))"
    if "perf_wf s0" for s0
    using that
  proof (induction ops arbitrary: s0)
    case (Cons p ops)
    then show ?case
      using Cons.IH [OF perf_wf_do [OF Cons.prems], of kb p] reclaim_count_do [OF Cons.prems, of kb p]
      by simp
  qed simp
  from this [OF perf_wf_start] have "perf_wf s" "reclaim_count s = of_nat (length (filter counts ops))"
    by (simp_all add: s_def perf_helper_start_def)
  then show ?thesis by (simp add: perf_wf_def cstr_buf_ok)
qed

text \<open>A clean line is read back as written.\<close>

lemma records_roundtrip:
  assumes "perf_wf s" and "NUL \<notin> set txt" and "txt = [] \<or> \<not> isspace (last txt)"
    and "length txt + 1 < PERF_HELPER_LOG_SIZE"
  shows "perflock_records_show (snd (perflock_records_write (txt @ [LF]) 0 s)) = txt @ [LF]"
proof -
  have "length (perflock_records_buff s) = PERF_HELPER_LOG_SIZE"
    using assms(1) by (simp add: perf_wf_def buf_ok_def)
  then show ?thesis
    using perf_log.read_back [of "perflock_records_buff s" "txt" "[LF]"] assms(2-4)
    by (simp add: perflock_records_show_def perflock_records_write_def Let_def)
qed

section \<open>Setup and teardown\<close>

datatype perf_res = Proc_perflock | Proc_mimd | Mimd_kobj | Mimd_group | Assi_kobj | Assi_group

record perf_env =
  perflock_dir_ok :: bool
  mimd_dir_ok :: bool
  mimd_kobj_ok :: bool
  mimd_group_ret :: int
  assi_kobj_ok :: bool
  assi_group_ret :: int

record perf_mod =
  perflock_dir :: bool
  mimd_dir :: bool
  mimd_kobj :: bool
  sched_assi_kobj :: bool
  perf_log :: "perf_res ev list"

abbreviation plog :: "perf_res ev list \<Rightarrow> perf_mod \<Rightarrow> perf_mod" where
  "plog es s \<equiv> s\<lparr>perf_log := perf_log s @ es\<rparr>"

text \<open>The files below a proc directory live and die with it and are not counted.\<close>

definition perflock_init :: "perf_env \<Rightarrow> perf_mod \<Rightarrow> int \<times> perf_mod" where
  "perflock_init env s =
     (if \<not> perflock_dir_ok env then (- ENOMEM, s\<lparr>perflock_dir := False\<rparr>)
      else (0, plog [Get Proc_perflock] (s\<lparr>perflock_dir := True\<rparr>)))"

text \<open>Removing a subtree by name removes it when it exists.\<close>

definition perflock_exit :: "perf_mod \<Rightarrow> perf_mod" where
  "perflock_exit s =
     (if perflock_dir s then plog [Put Proc_perflock] s else s)\<lparr>perflock_dir := False\<rparr>"

definition mimd_init :: "perf_env \<Rightarrow> perf_mod \<Rightarrow> int \<times> perf_mod" where
  "mimd_init env s =
     (let s = (if mimd_dir_ok env then plog [Get Proc_mimd] s else s)\<lparr>mimd_dir := mimd_dir_ok env\<rparr>
      in if \<not> mimd_kobj_ok env then (- ENOMEM, s\<lparr>mimd_kobj := False\<rparr>)
         else (let s = plog [Get Mimd_kobj] (s\<lparr>mimd_kobj := True\<rparr>)
               in if mimd_group_ret env \<noteq> 0 then (mimd_group_ret env, s)
                  else (0, plog [Get Mimd_group] s)))"

definition mimd_exit :: "perf_mod \<Rightarrow> perf_mod" where
  "mimd_exit s =
     (let s = (if mimd_kobj s
               then plog [Put Mimd_group, Put Mimd_kobj] (s\<lparr>mimd_kobj := False\<rparr>) else s)
      in (if mimd_dir s then plog [Put Proc_mimd] s else s)\<lparr>mimd_dir := False\<rparr>)"

definition sched_assi_init :: "perf_env \<Rightarrow> perf_mod \<Rightarrow> int \<times> perf_mod" where
  "sched_assi_init env s =
     (if \<not> assi_kobj_ok env then (- ENOMEM, s\<lparr>sched_assi_kobj := False\<rparr>)
      else (let s = plog [Get Assi_kobj] (s\<lparr>sched_assi_kobj := True\<rparr>)
            in if assi_group_ret env \<noteq> 0 then (assi_group_ret env, s)
               else (0, plog [Get Assi_group] s)))"

definition sched_assi_exit :: "perf_mod \<Rightarrow> perf_mod" where
  "sched_assi_exit s =
     (if \<not> sched_assi_kobj s then s
      else plog [Put Assi_group, Put Assi_kobj] (s\<lparr>sched_assi_kobj := False\<rparr>))"

definition perf_helper_init :: "perf_env \<Rightarrow> perf_mod \<Rightarrow> int \<times> perf_mod" where
  "perf_helper_init env s =
     (case perflock_init env s of (ret, s) \<Rightarrow>
        if ret \<noteq> 0 then (ret, s)
        else (case mimd_init env s of (ret, s) \<Rightarrow>
                if ret \<noteq> 0 then (ret, perflock_exit s)
                else (case sched_assi_init env s of (ret, s) \<Rightarrow>
                        if ret \<noteq> 0 then (ret, perflock_exit (mimd_exit s)) else (0, s))))"

definition perf_helper_exit :: "perf_mod \<Rightarrow> perf_mod" where
  "perf_helper_exit s = perflock_exit (mimd_exit (sched_assi_exit s))"

definition perf_mod_start :: perf_mod where
  "perf_mod_start = \<lparr>perflock_dir = False, mimd_dir = False, mimd_kobj = False,
     sched_assi_kobj = False, perf_log = []\<rparr>"

text \<open>What a failed load leaves behind, by the step that failed.\<close>

definition leaked :: "perf_env \<Rightarrow> perf_res list" where
  "leaked env =
     (if \<not> perflock_dir_ok env then []
      else if \<not> mimd_kobj_ok env then (if mimd_dir_ok env then [Proc_mimd] else [])
      else if mimd_group_ret env \<noteq> 0 then (if mimd_dir_ok env then [Proc_mimd] else []) @ [Mimd_kobj]
      else if assi_kobj_ok env then [Assi_kobj] else [])"

text \<open>Loading the perf helper, on every path. A load that succeeds and is followed by an
  unload releases everything exactly once. A failed load leaves exactly this behind: the proc
  directory of the memory daemon (if it was made) when its kernel object fails, that directory
  and the kernel object when its group fails, and the scheduler object when its group fails; no
  failure releases anything twice.\<close>

theorem perf_helper_load_paths:
  assumes "perf_helper_init env perf_mod_start = (ret, s)"
  shows "if ret = 0 then balanced (perf_log (perf_helper_exit s))
    else holds_exactly (perf_log s) (leaked env)"
  using assms
  by (auto simp: perf_helper_init_def perflock_init_def mimd_init_def sched_assi_init_def
      perf_helper_exit_def perflock_exit_def mimd_exit_def sched_assi_exit_def perf_mod_start_def
      leaked_def Let_def balanced_def holds_exactly_def split: if_splits)

definition perf_env_ok :: perf_env where
  "perf_env_ok = \<lparr>perflock_dir_ok = True, mimd_dir_ok = True, mimd_kobj_ok = True,
     mimd_group_ret = 0, assi_kobj_ok = True, assi_group_ret = 0\<rparr>"

theorem perf_helper_load_paths_witness:
  "holds_exactly (perf_log (snd (perf_helper_init (perf_env_ok\<lparr>mimd_group_ret := - 12\<rparr>)
     perf_mod_start))) [Proc_mimd, Mimd_kobj]"
proof -
  let ?r = "perf_helper_init (perf_env_ok\<lparr>mimd_group_ret := - 12\<rparr>) perf_mod_start"
  have "fst ?r = - 12"
    by (simp add: perf_helper_init_def perflock_init_def mimd_init_def perf_env_ok_def Let_def)
  then have "?r = (- 12, snd ?r)" by (metis prod.collapse)
  from perf_helper_load_paths [OF this]
  have "holds_exactly (perf_log (snd ?r)) (leaked (perf_env_ok\<lparr>mimd_group_ret := - 12\<rparr>))" by simp
  moreover have "leaked (perf_env_ok\<lparr>mimd_group_ret := - 12\<rparr>) = [Proc_mimd, Mimd_kobj]"
    by (simp add: leaked_def perf_env_ok_def)
  ultimately show ?thesis by simp
qed

end
