(* ===== verification/Perf_Files.thy ===== *)
theory Perf_Files
  imports Perf_Helper
begin

text \<open>
  The files of \<open>perf_helper.c\<close> as user space sees them: the proc operations and sysfs attributes
  with their paths and modes, and the dispatch from a path to the handlers of \<open>Perf_Helper\<close>. A
  proc file without a write operation answers \<open>-EIO\<close>.
\<close>

section \<open>Files\<close>

datatype pid_file = Kswapd_pid | Kcompactd_pid | Sfui_pid | Sfre_pid

datatype perf_file =
    Records_file | Exception_file | Pid_file pid_file | Mimdlog_file | Reclaim_file
  | Trigger_file | Notifier_file | Runnable_file | Running_file | Cpuset_file

text \<open>The pids are initialised to -1; no code of the module sets them.\<close>

fun pid_value :: "pid_file \<Rightarrow> int option" where
  "pid_value Kswapd_pid = Some (- 1)"
| "pid_value Kcompactd_pid = Some (- 1)"
| "pid_value Sfui_pid = Some (- 1)"
| "pid_value Sfre_pid = Some (- 1)"

text \<open>The show function that each open hands to \<open>single_open\<close>, with its private data.\<close>

fun perf_show :: "perf_file \<Rightarrow> perf_helper \<Rightarrow> string" where
  "perf_show Records_file s = perflock_records_show s"
| "perf_show Exception_file s = perflock_exception_show s"
| "perf_show (Pid_file p) s = pid_show_common (pid_value p)"
| "perf_show Mimdlog_file s = mimdlog_show s"
| "perf_show Reclaim_file s = global_reclaim_show s"
| "perf_show Trigger_file s = mimdtrigger_show s"
| "perf_show Notifier_file s = mimdnotifier_show s"
| "perf_show Runnable_file s = sched_long_runnable_check_show s"
| "perf_show Running_file s = sched_long_running_check_show s"
| "perf_show Cpuset_file s = kdamond_cpuset_show s"

text \<open>A write of \<open>buf\<close>; for proc files the last \<open>fault\<close> bytes cannot be read.\<close>

fun perf_store ::
  "(string \<Rightarrow> int + bool) \<Rightarrow> perf_file \<Rightarrow> char list \<Rightarrow> nat \<Rightarrow> perf_helper \<Rightarrow> int \<times> perf_helper" where
  "perf_store kb Records_file buf fault s = perflock_records_write buf fault s"
| "perf_store kb Exception_file buf fault s = perflock_exception_write buf fault s"
| "perf_store kb (Pid_file p) buf fault s = (- EIO, s)"
| "perf_store kb Mimdlog_file buf fault s = mimdlog_write buf fault s"
| "perf_store kb Reclaim_file buf fault s = global_reclaim_write buf fault s"
| "perf_store kb Trigger_file buf fault s = mimdtrigger_store buf s"
| "perf_store kb Notifier_file buf fault s = mimdnotifier_store buf s"
| "perf_store kb Runnable_file buf fault s = sched_long_runnable_check_store kb buf s"
| "perf_store kb Running_file buf fault s = sched_long_running_check_store kb buf s"
| "perf_store kb Cpuset_file buf fault s = kdamond_cpuset_store buf s"

definition perflock_files :: "(string \<times> nat \<times> perf_file) list" where
  "perflock_files =
     [(''/proc/perflock/perflock_records'', 436, Records_file),
      (''/proc/perflock/perflock_exception'', 436, Exception_file),
      (''/proc/perflock/kswapd_pid'', 292, Pid_file Kswapd_pid),
      (''/proc/perflock/kcompactd_pid'', 292, Pid_file Kcompactd_pid),
      (''/proc/perflock/sfui_pid'', 292, Pid_file Sfui_pid),
      (''/proc/perflock/sfre_pid'', 292, Pid_file Sfre_pid)]"

definition mimd_proc_files :: "(string \<times> nat \<times> perf_file) list" where
  "mimd_proc_files =
     [(''/proc/mimd/mimdlog'', 436, Mimdlog_file),
      (''/proc/mimd/global_reclaim'', 436, Reclaim_file)]"

definition mimd_attrs :: "(string \<times> nat \<times> perf_file) list" where
  "mimd_attrs =
     [(''/sys/kernel/mimd/mimdtrigger'', 436, Trigger_file),
      (''/sys/kernel/mimd/mimdnotifier'', 436, Notifier_file)]"

definition sched_assi_attrs :: "(string \<times> nat \<times> perf_file) list" where
  "sched_assi_attrs =
     [(''/sys/kernel/perf_helper/sched_assi/sched_long_runnable'', 436, Runnable_file),
      (''/sys/kernel/perf_helper/sched_assi/sched_long_running'', 436, Running_file),
      (''/sys/kernel/perf_helper/sched_assi/kdamond_cpuset'', 436, Cpuset_file)]"

definition perf_files :: "(string \<times> nat \<times> perf_file) list" where
  "perf_files = perflock_files @ mimd_proc_files @ mimd_attrs @ sched_assi_attrs"

definition perf_read :: "string \<Rightarrow> perf_helper \<Rightarrow> string option" where
  "perf_read path s = map_option (\<lambda>(mode, f). perf_show f s) (map_of perf_files path)"

definition perf_write ::
  "(string \<Rightarrow> int + bool) \<Rightarrow> string \<Rightarrow> char list \<Rightarrow> nat \<Rightarrow> perf_helper \<Rightarrow> int \<times> perf_helper" where
  "perf_write kb path buf fault s =
     (case map_of perf_files path of
        None \<Rightarrow> (- ENOENT, s)
      | Some (mode, f) \<Rightarrow> perf_store kb f buf fault s)"

section \<open>Independence and reading back\<close>

lemmas perf_tables = perf_files_def perflock_files_def mimd_proc_files_def mimd_attrs_def
  sched_assi_attrs_def

lemma perf_files_distinct: "distinct (map (snd \<circ> snd) perf_files)"
  by (simp add: perf_tables)

lemma perf_lookup_inj:
  assumes "map_of perf_files x = Some (m, f)" and "map_of perf_files y = Some (m', f)"
  shows "x = y"
  using inj_onD [OF _ _ map_of_SomeD [OF assms(1)] map_of_SomeD [OF assms(2)], of "snd \<circ> snd"]
    perf_files_distinct by (simp add: distinct_map)

definition shows_count :: "perf_file \<Rightarrow> bool" where
  "shows_count f \<longleftrightarrow> f = Reclaim_file \<or> f = Trigger_file"

lemmas perf_write_defs = perflock_records_write_def perflock_exception_write_def mimdlog_write_def
  global_reclaim_write_def mimdtrigger_store_def mimdnotifier_store_def kdamond_cpuset_store_def
  sched_long_runnable_check_store_def sched_long_running_check_store_def

lemmas perf_show_defs = perflock_records_show_def perflock_exception_show_def mimdlog_show_def
  global_reclaim_show_def mimdtrigger_show_def mimdnotifier_show_def kdamond_cpuset_show_def
  sched_long_runnable_check_show_def sched_long_running_check_show_def

lemma perf_store_frame:
  assumes "g \<noteq> f" and "\<not> (shows_count f \<and> shows_count g)"
  shows "perf_show g (snd (perf_store kb f buf fault s)) = perf_show g s"
  using assms
  by (cases f; cases g) (simp_all add: perf_write_defs perf_show_defs Let_def shows_count_def
      split: sum.split)

text \<open>C21: The files of the performance helper are independent but for the counter. A write of any
  bytes, with a fault at any place, to any path changes the contents of no other file, except
  that \<open>global_reclaim\<close> and \<open>mimdtrigger\<close> both show the reclaim counter, which both change.\<close>

theorem perf_files_independent:
  assumes "y \<noteq> x" and "\<not> {x, y} = {''/proc/mimd/global_reclaim'', ''/sys/kernel/mimd/mimdtrigger''}"
  shows "perf_read y (snd (perf_write kb x buf fault s)) = perf_read y s"
proof (cases "map_of perf_files x")
  case (Some e)
  obtain m f where x: "map_of perf_files x = Some (m, f)" using Some by (cases e) auto
  have paths: "map_of perf_files ''/proc/mimd/global_reclaim'' = Some (436, Reclaim_file)"
    "map_of perf_files ''/sys/kernel/mimd/mimdtrigger'' = Some (436, Trigger_file)"
    by (simp_all add: perf_tables)
  have at: "p = ''/proc/mimd/global_reclaim''" if "map_of perf_files p = Some (n, Reclaim_file)" for p n
    using perf_lookup_inj [OF that paths(1)] .
  have at': "p = ''/sys/kernel/mimd/mimdtrigger''" if "map_of perf_files p = Some (n, Trigger_file)" for p n
    using perf_lookup_inj [OF that paths(2)] .
  show ?thesis
  proof (cases "map_of perf_files y")
    case (Some e')
    then obtain m' g where y: "map_of perf_files y = Some (m', g)" by (cases e') auto
    have "g \<noteq> f" using perf_lookup_inj [of x m f y m'] x y assms(1) by auto
    moreover have "\<not> (shows_count f \<and> shows_count g)"
    proof
      assume "shows_count f \<and> shows_count g"
      then consider "f = Reclaim_file" "g = Trigger_file" | "f = Trigger_file" "g = Reclaim_file"
        using \<open>g \<noteq> f\<close> by (auto simp: shows_count_def)
      then show False
      proof cases
        case 1
        then show False using at [of x m] at' [of y m'] x y assms(2) by simp
      next
        case 2
        then show False using at' [of x m] at [of y m'] x y assms(2) by (simp add: insert_commute)
      qed
    qed
    ultimately show ?thesis using x y perf_store_frame by (simp add: perf_read_def perf_write_def)
  qed (simp add: perf_read_def)
qed (simp add: perf_write_def)

theorem perf_files_independent_witness:
  "perf_read ''/proc/mimd/mimdlog'' (snd (perf_write (\<lambda>_. Inr True)
     ''/sys/kernel/mimd/mimdtrigger'' ''1'' 0 perf_helper_start)) =
   perf_read ''/proc/mimd/mimdlog'' perf_helper_start"
  using perf_files_independent [of "''/proc/mimd/mimdlog''" "''/sys/kernel/mimd/mimdtrigger''"]
  by (simp add: doubleton_eq_iff)

end
