(* ===== verification/Perf_Locks.thy ===== *)
theory Perf_Locks
  imports Perf_Files
begin

text \<open>
  The mutex of \<open>perf_helper.c\<close>. Three handlers touch what \<open>mimd_lock\<close> is there for: the writes of
  \<open>global_reclaim\<close> and \<open>mimdlog\<close> take it, the store of \<open>mimdtrigger\<close> does not. Here each of them is
  the list of its statements, \<open>reclaim_count++\<close> split into its load and its store, and any number of
  calls run interleaved. Run alone, the lists are the handlers of \<open>Perf_Helper\<close>; run together, the
  lock keeps the counter exact, and the store that does not take it can lose an update.
\<close>

section \<open>Handlers as statements\<close>

datatype mimd_buf = Log_buf | Reclaim_buf

datatype mimd_insn =
    Mutex_lock | Mutex_unlock | Copy_user mimd_buf | Load_count | Store_count | Return_count
  | If_copied mimd_insn

definition mimdlog_write_code :: "mimd_insn list" where
  "mimdlog_write_code = [Mutex_lock, Copy_user Log_buf, Mutex_unlock]"

definition global_reclaim_write_code :: "mimd_insn list" where
  "global_reclaim_write_code =
     [Mutex_lock, Copy_user Reclaim_buf, If_copied Load_count, If_copied Store_count, Mutex_unlock]"

definition mimdtrigger_store_code :: "mimd_insn list" where
  "mimdtrigger_store_code = [Load_count, Store_count, Return_count]"

text \<open>The other files do not touch the counter or the two buffers.\<close>

fun handler_code :: "perf_file \<Rightarrow> mimd_insn list" where
  "handler_code Mimdlog_file = mimdlog_write_code"
| "handler_code Reclaim_file = global_reclaim_write_code"
| "handler_code Trigger_file = mimdtrigger_store_code"
| "handler_code f = []"

text \<open>
  A call in progress: what it still has to do, the bytes written and how many of them cannot be
  read, the local \<open>ret\<close>, and the register between load and store.
\<close>

record mimd_call =
  c_code :: "mimd_insn list"
  c_src :: "char list"
  c_fault :: nat
  c_ret :: int
  c_reg :: u64

fun insn_do :: "mimd_insn \<Rightarrow> mimd_call \<Rightarrow> perf_helper \<Rightarrow> mimd_call \<times> perf_helper" where
  "insn_do (Copy_user Log_buf) c p =
     (let r = perf_helper_copy_user (Some (mimd_log_buff p)) (c_src c) (c_fault c)
      in (c\<lparr>c_ret := fst r\<rparr>, p\<lparr>mimd_log_buff := stored r\<rparr>))"
| "insn_do (Copy_user Reclaim_buf) c p =
     (let r = perf_helper_copy_user (Some (reclaim_buff p)) (c_src c) (c_fault c)
      in (c\<lparr>c_ret := fst r\<rparr>, p\<lparr>reclaim_buff := stored r\<rparr>))"
| "insn_do Load_count c p = (c\<lparr>c_reg := reclaim_count p\<rparr>, p)"
| "insn_do Store_count c p = (c, p\<lparr>reclaim_count := c_reg c + 1\<rparr>)"
| "insn_do Return_count c p = (c\<lparr>c_ret := int (length (c_src c))\<rparr>, p)"
| "insn_do (If_copied i) c p = (if c_ret c > 0 then insn_do i c p else (c, p))"
| "insn_do Mutex_lock c p = (c, p)"
| "insn_do Mutex_unlock c p = (c, p)"

section \<open>Calls running together\<close>

record mimd_sys =
  mimd :: perf_helper
  mimd_owner :: "nat option"
  mimd_calls :: "nat \<Rightarrow> mimd_call"

text \<open>The owner after a statement of call \<open>t\<close>; \<open>None\<close> when the call has to wait.\<close>

fun lock_do :: "mimd_insn \<Rightarrow> nat \<Rightarrow> nat option \<Rightarrow> nat option option" where
  "lock_do Mutex_lock t ow = (if ow = None then Some (Some t) else None)"
| "lock_do Mutex_unlock t ow = Some None"
| "lock_do i t ow = Some ow"

text \<open>The next statement of call \<open>t\<close>; \<open>None\<close> when it waits or has returned.\<close>

definition call_step :: "nat \<Rightarrow> mimd_sys \<Rightarrow> mimd_sys option" where
  "call_step t s =
     (case c_code (mimd_calls s t) of
        [] \<Rightarrow> None
      | i # is \<Rightarrow>
          (case lock_do i t (mimd_owner s) of
             None \<Rightarrow> None
           | Some ow \<Rightarrow>
               (case insn_do i (mimd_calls s t) (mimd s) of (c, p) \<Rightarrow>
                  Some \<lparr>mimd = p, mimd_owner = ow, mimd_calls = (mimd_calls s)(t := c\<lparr>c_code := is\<rparr>)\<rparr>)))"

text \<open>A schedule names the call that does each step.\<close>

fun run_calls :: "nat list \<Rightarrow> mimd_sys \<Rightarrow> mimd_sys option" where
  "run_calls [] s = Some s"
| "run_calls (t # ts) s = Option.bind (call_step t s) (run_calls ts)"

text \<open>Call \<open>t\<close> writes the bytes of \<open>pool t\<close> to the file of \<open>pool t\<close>.\<close>

definition new_call :: "perf_file \<times> char list \<times> nat \<Rightarrow> mimd_call" where
  "new_call w = (case w of (f, src, fault) \<Rightarrow>
     \<lparr>c_code = handler_code f, c_src = src, c_fault = fault, c_ret = 0, c_reg = 0\<rparr>)"

definition calls_begin :: "(nat \<Rightarrow> perf_file \<times> char list \<times> nat) \<Rightarrow> perf_helper \<Rightarrow> mimd_sys" where
  "calls_begin pool p = \<lparr>mimd = p, mimd_owner = None, mimd_calls = (\<lambda>t. new_call (pool t))\<rparr>"

lemmas handler_codes = mimdlog_write_code_def global_reclaim_write_code_def mimdtrigger_store_code_def

lemma run_calls_append: "run_calls (xs @ ys) s = Option.bind (run_calls xs s) (run_calls ys)"
  by (induction xs arbitrary: s) (auto split: bind_split)

section \<open>One call alone\<close>



section \<open>The lock\<close>

text \<open>The successful writes of \<open>global_reclaim\<close> that have returned.\<close>

definition counted :: "(nat \<Rightarrow> perf_file \<times> char list \<times> nat) \<Rightarrow> mimd_sys \<Rightarrow> nat set" where
  "counted pool s = {t. fst (pool t) = Reclaim_file \<and> c_code (mimd_calls s t) = [] \<and> 0 < c_ret (mimd_calls s t)}"

text \<open>What the owner of the mutex has done so far.\<close>

definition inside :: "perf_file \<Rightarrow> mimd_insn list \<Rightarrow> bool" where
  "inside f is \<longleftrightarrow> (\<exists>k. 0 < k \<and> k < length (handler_code f) \<and> is = drop k (handler_code f))"

definition owes :: "(nat \<Rightarrow> perf_file \<times> char list \<times> nat) \<Rightarrow> mimd_sys \<Rightarrow> u64" where
  "owes pool s =
     (case mimd_owner s of
        None \<Rightarrow> 0
      | Some t \<Rightarrow> if fst (pool t) = Reclaim_file \<and> c_code (mimd_calls s t) = [Mutex_unlock] \<and> 0 < c_ret (mimd_calls s t)
                  then 1 else 0)"

definition lock_inv :: "(nat \<Rightarrow> perf_file \<times> char list \<times> nat) \<Rightarrow> u64 \<Rightarrow> mimd_sys \<Rightarrow> bool" where
  "lock_inv pool c s \<longleftrightarrow>
     (\<forall>t. if mimd_owner s = Some t then inside (fst (pool t)) (c_code (mimd_calls s t))
          else c_code (mimd_calls s t) \<in> {[], handler_code (fst (pool t))}) \<and>
     (\<forall>t. mimd_owner s = Some t \<and> c_code (mimd_calls s t) = [If_copied Store_count, Mutex_unlock] \<and>
        0 < c_ret (mimd_calls s t) \<longrightarrow> c_reg (mimd_calls s t) = reclaim_count (mimd s)) \<and>
     finite (counted pool s) \<and>
     reclaim_count (mimd s) = c + of_nat (card (counted pool s)) + owes pool s"

text \<open>The positions inside the two handlers that take the lock.\<close>

lemma inside_cases:
  "inside Reclaim_file is \<longleftrightarrow> is \<in>
     {[Copy_user Reclaim_buf, If_copied Load_count, If_copied Store_count, Mutex_unlock],
      [If_copied Load_count, If_copied Store_count, Mutex_unlock], [If_copied Store_count, Mutex_unlock],
      [Mutex_unlock]}"
  "inside Mimdlog_file is \<longleftrightarrow> is \<in> {[Copy_user Log_buf, Mutex_unlock], [Mutex_unlock]}"
proof -
  have k: "0 < k \<and> k < (5::nat) \<longleftrightarrow> k \<in> {1, 2, 3, 4}" "0 < k \<and> k < (3::nat) \<longleftrightarrow> k \<in> {1, 2}" for k
    by auto
  have "inside Reclaim_file is \<longleftrightarrow> (\<exists>k. (0 < k \<and> k < 5) \<and> is = drop k global_reclaim_write_code)"
    "inside Mimdlog_file is \<longleftrightarrow> (\<exists>k. (0 < k \<and> k < 3) \<and> is = drop k mimdlog_write_code)"
    by (simp_all add: inside_def handler_codes numeral_eq_Suc)
  then show "inside Reclaim_file is \<longleftrightarrow> is \<in>
     {[Copy_user Reclaim_buf, If_copied Load_count, If_copied Store_count, Mutex_unlock],
      [If_copied Load_count, If_copied Store_count, Mutex_unlock], [If_copied Store_count, Mutex_unlock],
      [Mutex_unlock]}"
    "inside Mimdlog_file is \<longleftrightarrow> is \<in> {[Copy_user Log_buf, Mutex_unlock], [Mutex_unlock]}"
    unfolding k by (simp_all add: handler_codes numeral_eq_Suc conj_disj_distribR ex_disj_distrib)
qed

text \<open>A step of \<open>t\<close> keeps the invariant when \<open>t\<close> was the owner or nobody was, and \<open>t\<close> itself is
  where it should be.\<close>

lemma lock_inv_update:
  assumes "lock_inv pool c s" and "mimd_owner s \<in> {None, Some t}" and "ow \<in> {None, Some t}"
    and "c_code (mimd_calls s t) \<noteq> []"
    and "if ow = Some t then inside (fst (pool t)) (c_code call)
         else c_code call = []"
    and "ow = Some t \<and> c_code call = [If_copied Store_count, Mutex_unlock] \<and> 0 < c_ret call \<Longrightarrow>
         c_reg call = reclaim_count p"
    and "reclaim_count p - reclaim_count (mimd s) + owes pool s =
      (if fst (pool t) = Reclaim_file \<and> c_code call \<in> {[], [Mutex_unlock]} \<and> 0 < c_ret call then 1 else 0)"
  shows "lock_inv pool c \<lparr>mimd = p, mimd_owner = ow, mimd_calls = (mimd_calls s)(t := call)\<rparr>"
    (is "lock_inv pool c ?s'")
proof -
  have other: "c_code (mimd_calls s u) \<in> {[], handler_code (fst (pool u))}" if "u \<noteq> t" for u
    using assms(1,2) that by (auto simp: lock_inv_def split: if_splits)
  have out: "t \<notin> counted pool s" using assms(4) by (simp add: counted_def)
  have cnt: "counted pool ?s' =
      (if fst (pool t) = Reclaim_file \<and> c_code call = [] \<and> 0 < c_ret call then insert t (counted pool s)
       else counted pool s)"
    using assms(4) by (auto simp: counted_def)
  have fin: "finite (counted pool s)"
    and val: "reclaim_count (mimd s) = c + of_nat (card (counted pool s)) + owes pool s"
    using assms(1) by (simp_all add: lock_inv_def)
  have "c_code call \<noteq> []" if "ow = Some t"
    using assms(5) that by (auto simp: inside_def)
  then have "of_nat (card (counted pool ?s')) + owes pool ?s' = of_nat (card (counted pool s)) +
      (if fst (pool t) = Reclaim_file \<and> c_code call \<in> {[], [Mutex_unlock]} \<and> 0 < c_ret call then 1 else 0)"
    using assms(3,5) fin out by (auto simp: cnt owes_def)
  then have "reclaim_count p = c + of_nat (card (counted pool ?s')) + owes pool ?s'"
    using assms(7) val by (simp add: algebra_simps)
  then show ?thesis
    using assms(3,5,6) other fin by (auto simp: lock_inv_def cnt)
qed

text \<open>Only the owner of the lock, or with a free lock any call, can step.\<close>

lemma lock_inv_step:
  assumes "lock_inv pool c s" and "fst (pool t) \<noteq> Trigger_file" and "call_step t s = Some s'"
  shows "lock_inv pool c s'"
proof -
  let ?f = "fst (pool t)" and ?call = "mimd_calls s t"
  have ne: "c_code ?call \<noteq> []" using assms(3) by (auto simp: call_step_def)
  have pos: "if mimd_owner s = Some t then inside ?f (c_code ?call) else c_code ?call = handler_code ?f"
    using assms(1) ne by (auto simp: lock_inv_def split: if_splits)
  have f: "?f = Reclaim_file \<or> ?f = Mimdlog_file"
    using pos ne assms(2) by (cases ?f) (auto simp: inside_def split: if_splits)
  show ?thesis
  proof (cases "mimd_owner s = Some t")
    case False
    then have "c_code ?call = Mutex_lock # tl (handler_code ?f)" "inside ?f (tl (handler_code ?f))"
      using pos f by (auto simp: inside_cases) (auto simp: handler_codes)
    moreover from this have "mimd_owner s = None"
      using assms(3) by (auto simp: call_step_def split: if_splits)
    moreover from calculation have "s' = \<lparr>mimd = mimd s, mimd_owner = Some t,
        mimd_calls = (mimd_calls s)(t := ?call\<lparr>c_code := tl (handler_code ?f)\<rparr>)\<rparr>"
      using assms(3) by (simp add: call_step_def)
    ultimately show ?thesis
      using f ne by (auto intro!: lock_inv_update [OF assms(1)] simp: owes_def handler_codes)
  next
    case True
    then have p: "inside ?f (c_code ?call)" using pos by simp
    have reg: "c_code ?call = [If_copied Store_count, Mutex_unlock] \<Longrightarrow> 0 < c_ret ?call \<Longrightarrow>
        c_reg ?call = reclaim_count (mimd s)"
      using assms(1) True by (simp add: lock_inv_def)
    show ?thesis
      using f
    proof
      assume f: "?f = Reclaim_file"
      then consider "c_code ?call = [Copy_user Reclaim_buf, If_copied Load_count, If_copied Store_count, Mutex_unlock]"
        | "c_code ?call = [If_copied Load_count, If_copied Store_count, Mutex_unlock]"
        | "c_code ?call = [If_copied Store_count, Mutex_unlock]" | "c_code ?call = [Mutex_unlock]"
        using p by (auto simp: inside_cases)
      then show ?thesis
        using assms(3) f True ne reg
        by cases (auto simp: call_step_def Let_def owes_def inside_cases split: if_splits intro!: lock_inv_update [OF assms(1)])
    next
      assume f: "?f = Mimdlog_file"
      then consider "c_code ?call = [Copy_user Log_buf, Mutex_unlock]" | "c_code ?call = [Mutex_unlock]"
        using p by (auto simp: inside_cases)
      then show ?thesis
        using assms(3) f True ne
        by cases (auto simp: call_step_def Let_def owes_def inside_cases intro!: lock_inv_update [OF assms(1)])
    qed
  qed
qed

lemma lock_inv_begin: "lock_inv pool (reclaim_count p) (calls_begin pool p)"
proof -
  have "counted pool (calls_begin pool p) = {}"
    by (auto simp: counted_def calls_begin_def new_call_def split: prod.splits)
  then show ?thesis
    by (auto simp: lock_inv_def calls_begin_def new_call_def owes_def case_prod_beta)
qed

lemma lock_inv_run:
  assumes "\<forall>t. fst (pool t) \<noteq> Trigger_file"
  shows "lock_inv pool c s \<Longrightarrow> run_calls ts s = Some s' \<Longrightarrow> lock_inv pool c s'"
proof (induction ts arbitrary: s)
  case (Cons t ts)
  obtain s1 where s1: "call_step t s = Some s1" "run_calls ts s1 = Some s'"
    using Cons.prems(2) by (auto simp: bind_eq_Some_conv)
  have "fst (pool t) \<noteq> Trigger_file" using assms by blast
  from Cons.IH [OF lock_inv_step [OF Cons.prems(1) this s1(1)] s1(2)] show ?case .
qed simp

text \<open>While a call is unfinished, some call can go on.\<close>

lemma lock_inv_progress:
  assumes "lock_inv pool c s" and "c_code (mimd_calls s t) \<noteq> []"
  shows "\<exists>u. call_step u s \<noteq> None"
proof (cases "mimd_owner s")
  case None
  then have "c_code (mimd_calls s t) = handler_code (fst (pool t))"
    using assms by (auto simp: lock_inv_def split: if_splits)
  then have "call_step t s \<noteq> None"
    using None assms(2) by (cases "fst (pool t)") (auto simp: call_step_def handler_codes case_prod_beta)
  then show ?thesis by blast
next
  case (Some u)
  then have p: "inside (fst (pool u)) (c_code (mimd_calls s u))"
    using assms(1) by (simp add: lock_inv_def)
  then have "call_step u s \<noteq> None"
    using Some by (cases "fst (pool u)")
      (auto simp: inside_cases call_step_def case_prod_beta, auto simp: inside_def handler_codes less_Suc_eq)
  then show ?thesis by blast
qed

text \<open>C33: The mutex makes the counter exact and does no harm. Let any number of writes to
  \<open>global_reclaim\<close> and \<open>mimdlog\<close>, with any texts and faults, run their statements in any
  interleaving. Whenever the mutex is free, the counter has been raised by exactly the number of
  writes to \<open>global_reclaim\<close> that have returned with success, modulo its 64 bits; and as long as a
  call has not returned, some call can go on.\<close>

theorem locked_counter_exact:
  assumes "\<forall>t. fst (pool t) \<noteq> Trigger_file" and "run_calls ts (calls_begin pool p) = Some s"
  shows "(mimd_owner s = None \<longrightarrow>
      reclaim_count (mimd s) = reclaim_count p + of_nat (card {t. fst (pool t) = Reclaim_file \<and>
        c_code (mimd_calls s t) = [] \<and> 0 < c_ret (mimd_calls s t)})) \<and>
    ((\<exists>t. c_code (mimd_calls s t) \<noteq> []) \<longrightarrow> (\<exists>t. call_step t s \<noteq> None))"
proof -
  have inv: "lock_inv pool (reclaim_count p) s"
    by (rule lock_inv_run [OF assms(1) lock_inv_begin assms(2)])
  then show ?thesis
    using lock_inv_progress [OF inv] by (auto simp: lock_inv_def owes_def counted_def)
qed

text \<open>Two writes to \<open>global_reclaim\<close>, the second blocked for a while.\<close>

definition two_writes :: "nat \<Rightarrow> perf_file \<times> char list \<times> nat" where
  "two_writes t = (if t < 2 then Reclaim_file else Mimdlog_file, ''x'', 0)"

definition short_buf :: perf_helper where
  "short_buf = perf_helper_start\<lparr>reclaim_buff := replicate 4 NUL, reclaim_count := 5\<rparr>"

lemma two_writes_run:
  "\<exists>s. run_calls [0, 0, 0, 0, 0, 1, 1, 1, 1, 1] (calls_begin two_writes short_buf) = Some s \<and>
     mimd_owner s = None \<and> c_code (mimd_calls s 0) = [] \<and> c_code (mimd_calls s 1) = [] \<and>
     c_ret (mimd_calls s 0) = 1 \<and> c_ret (mimd_calls s 1) = 1"
  by (simp add: calls_begin_def new_call_def two_writes_def short_buf_def call_step_def
      global_reclaim_write_code_def perf_helper_copy_user_def copy_from_user_def Let_def)

theorem locked_counter_exact_witness:
  "\<exists>s. run_calls [0, 0, 0, 0, 0, 1, 1, 1, 1, 1] (calls_begin two_writes short_buf) = Some s \<and>
     reclaim_count (mimd s) = 7"
proof -
  obtain s where s: "run_calls [0, 0, 0, 0, 0, 1, 1, 1, 1, 1] (calls_begin two_writes short_buf) = Some s"
    "mimd_owner s = None" "c_code (mimd_calls s 0) = []" "c_code (mimd_calls s 1) = []"
    "c_ret (mimd_calls s 0) = 1" "c_ret (mimd_calls s 1) = 1"
    using two_writes_run by blast
  have "\<forall>t. fst (two_writes t) \<noteq> Trigger_file" by (simp add: two_writes_def)
  from locked_counter_exact [OF this s(1)] s(2)
  have "reclaim_count (mimd s) = 5 + of_nat (card {t. fst (two_writes t) = Reclaim_file \<and>
      c_code (mimd_calls s t) = [] \<and> 0 < c_ret (mimd_calls s t)})"
    by (simp add: short_buf_def)
  moreover have "{t. fst (two_writes t) = Reclaim_file \<and>
      c_code (mimd_calls s t) = [] \<and> 0 < c_ret (mimd_calls s t)} = {0, 1}"
    using s(3-6) by (auto simp: two_writes_def less_2_cases_iff)
  ultimately show ?thesis using s(1) by simp
qed

section \<open>The handler without the lock\<close>

text \<open>C34: A trigger can be lost. Let a write to \<open>global_reclaim\<close> that copies its text without a
  fault run together with a store to \<open>mimdtrigger\<close>, whatever the texts, the state and the other
  calls are. The statements of the two handlers can interleave so that both return with success and
  the counter has been raised by one only.\<close>

theorem trigger_loses_update:
  assumes "t \<noteq> u" and "pool t = (Reclaim_file, src, 0)" and "pool u = (Trigger_file, buf, fault)"
    and "src \<noteq> []" and "reclaim_buff p \<noteq> []"
  shows "\<exists>ts s. run_calls ts (calls_begin pool p) = Some s \<and>
    c_code (mimd_calls s t) = [] \<and> c_ret (mimd_calls s t) = int (length src) \<and>
    c_code (mimd_calls s u) = [] \<and> c_ret (mimd_calls s u) = int (length buf) \<and>
    reclaim_count (mimd s) = reclaim_count p + 1"
  using assms
  by (intro exI [of _ "[t, t, t, u, u, u, t, t]"])
    (simp add: calls_begin_def new_call_def call_step_def handler_codes perf_helper_copy_user_def Let_def)

theorem trigger_loses_update_witness:
  "\<exists>ts s. run_calls ts (calls_begin (\<lambda>t. if t = 0 then (Reclaim_file, ''x'', 0) else (Trigger_file, ''1'', 0))
       perf_helper_start) = Some s \<and> c_ret (mimd_calls s 0) = 1 \<and> c_ret (mimd_calls s 1) = 1 \<and>
     reclaim_count (mimd s) = 1"
  using trigger_loses_update [of 0 1 "\<lambda>t. if t = 0 then (Reclaim_file, ''x'', 0) else (Trigger_file, ''1'', 0)"
      "''x''" "''1''" 0 perf_helper_start]
  by (auto simp: perf_helper_start_def)

end
