(* ===== verification/Spec2Isabelle.thy ===== *)
theory Spec2Isabelle
  imports Thermal_Files Thermal_Exit Miload_Runtime Module_System Module_Externs Miev_Events Miev_Removal
    Governor Perf_Locks
begin

text \<open>
  This development models the Xiaomi kernel modules of the repository and proves what they rely
  on. Every module is a C file of its own; they meet in a few places only: the functions they
  export to each other, above all the register and unregister functions of the scheduler hooks,
  the resources of the kernel they take and release when they are loaded and unloaded, the
  parameters and text buffers user space reads and writes, and the work they defer. These meeting
  places are the interfaces of the library, each a locale that the components interpret.

  \<^bold>\<open>Shared theories.\<close>

  \<^item> \<open>Prelude\<close>: the C integer types and their wrap-around, the error numbers, callbacks, the
    collections of rewrite rules.
  \<^item> \<open>Lifecycle\<close>: the log of acquired and released resources. An operation on a kernel resource
    appends \<open>Get r\<close> or \<open>Put r\<close> to the log of its module; a log is balanced when every release
    follows an acquisition of the same resource and nothing is left. \<open>staged_init\<close> specifies an
    init routine with a chain of error labels. The locale \<open>module_lifecycle\<close> is the contract of
    load and unload, and gives that any history of loads and unloads is clean; \<open>miev\<close>,
    \<open>miloadtrace\<close> and both thermal nodes interpret it. \<open>Nested_Life\<close> adds the order: the locale
    \<open>nested_lifecycle\<close> says that resources are released in the reverse order, which \<open>miev\<close> and
    \<open>miloadtrace\<close> keep.
  \<^item> \<open>Kernel_Lib\<close>: what the sources use of C and of the kernel's string library: decimal
    printing, \<open>kstrtoint\<close>, \<open>sscanf\<close> with \<open>%u\<close>, \<open>strim\<close>, \<open>scnprintf\<close>, \<open>DIV_ROUND_CLOSEST\<close>,
    \<open>mult_frac\<close>, the C string in a fixed buffer, the byte queue \<open>kfifo\<close>.
  \<^item> \<open>Text_Buffer\<close>: the locale \<open>text_buffer\<close> of a fixed buffer that keeps one trimmed line.
  \<^item> \<open>Module_Params\<close>: module parameters, which every module uses for its settings: the types,
    the values, the files below \<open>/sys/module\<close>. How the kernel parses a text for a type is the parameter
    \<open>ko\<close> with the laws \<open>param_ops_ok\<close>; \<open>linux_param_set\<close> is an instance for concrete inputs. The locale
    \<open>kernel_params\<close> is the contract of a table of parameters; eight tables interpret it.
  \<^item> \<open>Hook_Registry\<close>: the locale \<open>hook_registry\<close> of a table of callback slots behind a switch,
    and its refinement to a map.

  \<^bold>\<open>Components.\<close>

  \<^item> \<open>Thermal_Temp\<close>, from \<open>src/mi_thermal/mi_thermal_interface.c\<close>: the integer and string
    attributes with their show and store handlers, the parser that guesses the unit of a reading
    (\<open>mi_thermal_parse_temp\<close>) and the maximum over battery and sensors
    (\<open>mi_thermal_get_device_temp\<close>).
  \<^item> \<open>Thermal_Cpufreq\<close>, same file: the list of frequency devices, \<open>cpufreq_set_level\<close>,
    \<open>cpu_limits_set_level\<close> with its floor and step limit, the \<open>cpu_limits\<close> file, and building
    and tearing down the devices (\<open>mi_thermal_init_cpufreq\<close>, \<open>mi_thermal_destroy_cpufreq\<close>).
    The result of the walk is an option: \<open>None\<close> stands for a read outside a table or a mask.
  \<^item> \<open>Thermal_Module\<close>, same file: the sysfs nodes, the panel callback and the screen work as a
    step relation over their single accesses to the shared flags, the USB work, module init and
    exit. \<open>Thermal_Exit\<close>: the statements of the exit handler (\<open>exit_plan\<close>) with panel callbacks, in their
    two steps, and the work falling between them.
  \<^item> \<open>Thermal_Events\<close>, same file: what happens after an event. The locale \<open>work_system\<close> is the
    contract of callbacks and work items that come to rest; the screen work (\<open>screen_work\<close>) and the
    USB work (\<open>usb_work\<close>, with the supply changing between its accesses) interpret it.
  \<^item> \<open>Thermal_Files\<close>, same file: the attribute tables and the dispatch from a file name to its
    handlers.
  \<^item> \<open>Xiaomi_Hooks\<close> (\<open>src/xiaomi_hooks.c\<close>), \<open>Metis_Hooks\<close> (\<open>src/metis/metis.c\<close>), \<open>Mi_Schedule\<close>
    (\<open>src/mi_schedule/mi_schedule.c\<close>) and \<open>Mist\<close> (\<open>src/mist/mist.c\<close>): the four registries of
    callbacks, each with its record of slots, its switch if it has one, and one definition per
    register and unregister function; each interprets \<open>hook_registry\<close>.
  \<^item> \<open>Module_Exports\<close>: the symbols these four files export, 264 in all, each with what its body does,
    and calls through them. The locale \<open>exported_hooks\<close> extends \<open>hook_registry\<close> to all a module
    can call; the extern declarations of \<open>miloadtrace.c\<close> are resolved through the tables.
  \<^item> \<open>Module_Statics\<close>: the 320 static functions of \<open>metis.c\<close>, \<open>mist.c\<close> and \<open>mi_schedule.c\<close>. Each
    is listed with what its body does, which is to return 0 without touching a hook.
  \<^item> \<open>Module_Symbols\<close>: the symbols each of the ten modules exports, the functions and variables
    it uses of the kernel, of vendor modules and of the others, the providers, the \<open>depends\<close> lines. \<open>Module_Externs\<close>: the prototypes \<open>migt.c\<close> and \<open>miloadtrace.c\<close> declare for the
    functions of other modules, types of arguments and results included. \<open>Module_Loader\<close>: loading in any order under the documented loader,
    with init functions that fail and kernels that lack what a module imports.
    \<open>Module_System\<close>: the scheduler modules running together, as a machine whose events are loads,
    unloads, writes to the switch files and registrations by others.
  \<^item> \<open>Migt\<close> (\<open>src/migt/migt.c\<close>): the flags, the preferred cluster, the exported functions.
  \<^item> \<open>Miloadtrace\<close> (\<open>src/miloadtrace/miloadtrace.c\<close>): frame rate, proc files, frequency records,
    governor data, the nine hook registrations with their chain of error labels, and init and
    exit. The chain is proved over arbitrary register functions (\<open>externs\<close>) and then linked to
    the registries of the other modules (\<open>linked\<close>).
  \<^item> \<open>Governor\<close>, same file: the governor's table and its functions on many policies, driven by
    cpufreq; the locale \<open>policy_governor\<close> is what cpufreq relies on.
  \<^item> \<open>Module_Settings\<close>: the parameter tables of the modules as the sources declare them, and what a
    write to a parameter file does to the caps, the registries and the hardware id.
  \<^item> \<open>Miload_Runtime\<close>, from \<open>miloadtrace.c\<close>: the variables of the loaded module, its nine callbacks
    and its deferred work, with every file, hook and callback that reaches them as an event. An access
    outside an array is recorded in \<open>mv_oob\<close>.
  \<^item> \<open>Miev\<close> (\<open>src/miev/miev.c\<close>): building an event in its 2048 byte buffer, the byte queue of 128
    KiB, the file operations, with reading split at the lock so that readers can interleave, and
    init and cleanup with six error labels. \<open>Miev_Events\<close>: events as objects on the heap that
    several drivers build, send and destroy through pointers. \<open>Miev_Removal\<close>: init and cleanup
    call by call, with user space opening, using and closing the device in between.
  \<^item> \<open>Perf_Helper\<close> (\<open>src/perf_helper/perf_helper.c\<close>): the proc and sysfs files over five text
    buffers, and init and exit. \<open>Perf_Files\<close>: the paths with their handlers. \<open>Perf_Locks\<close>: the
    handlers around \<open>mimd_lock\<close> as the lists of their statements (\<open>handler_code\<close>), any number of calls
    interleaved; run alone, the lists are the handlers of \<open>Perf_Helper\<close>.
  \<^item> \<open>Hwid\<close> (\<open>src/hwid/hwid.c\<close>): the product table, the fields of the hardware id, the sysfs files
    and the kernel object.
  \<^item> This theory: properties across components, from a sensor file to the cap, from the setup of
    the devices to the cap, and from the switch of one registry to the unload of another module.

  \<^bold>\<open>What the lemmas show.\<close> For the caps: the table is the sorted set of valid frequencies, a cap
  lands on the best fitting level, no index leaves a table, one update deepens the level by at
  most the step limit, and setup and teardown balance. For the events: the bytes of a line, the
  order of the stream under any interleaving, the size of the queue, the memory of the events. For
  screen and USB: the deferred work always comes to rest, within a bound, and then shows the last
  event; each change of the screen is announced once. For the registries: refinement to a map
  under any calls of exported symbols, provenance of every stored callback, inertness while
  switched off. For the files and parameters: what is written to a file of the thermal module is
  read back, one file never changes another, the running module never leaves its arrays, the mutex of
  the performance helper keeps its counter exact, and the settings reach the caps, the hooks, the
  boosts and the frame rate as specified. For loading: unwinding is exact, and
  histories are clean and nested. For the modules together: symbols are unique and resolve, an order
  of loading brings up \<open>miloadtrace\<close> exactly when its providers came up first, no callback outlives
  its module, the device of an open file is alive. Some theorems record what the code does
  where it falls short of this: a parameter that is cut and still reported as success, the unit of a
  cold battery, resources a failing load keeps, a device freed under a reader, prototypes that do not
  fit, a hook that outlives its module when the switch is thrown, work queued on a destroyed workqueue, an
  increment that is lost.

  \<^bold>\<open>Numbers and bounds.\<close> Frequencies, the level a device keeps and the hardware id are 32 bit
  words, the reclaim counter is a 64 bit word; CPU numbers and table indices are natural numbers,
  read from a word where the source reads them from text; \<open>int\<close> variables are integers, wrapped
  where an operation can leave the range. All buffer sizes are those of the source. No definition
  uses fuel: every loop is structural recursion over the list or the range it walks, or has a
  measure.

  \<^bold>\<open>Parameters.\<close> Code outside the repository is an argument of the definitions that call it: the
  cpufreq policies, masks and allocations (\<open>cpufreq_env\<close> and its users), the result of the QoS
  framework, the power supply, the creation of sysfs, procfs and device objects, the device tree,
  the clock, \<open>kstrtobool\<close>, the part of a user buffer that can be copied, the kernel's set operations
  for parameters (\<open>ko\<close>), and whether the panel notifier waits for running callbacks when one is
  unregistered (\<open>waits\<close>). The module loader is the parameter \<open>kernel\<close>; \<open>loader_ok\<close> states its documented
  checks, \<open>outside_ok\<close> that nothing outside the repository has the name of an exported symbol, and
  \<open>supported\<close> that what a module imports is there; \<open>plain_kernel\<close> is an instance of all three. cpufreq and the VFS appear as
  the guards of the steps of \<open>gov_step\<close> and \<open>dev_step\<close>.

  \<^bold>\<open>Not modelled.\<close> Log messages, other than those of \<open>miload_debug\<close>; locks, other than
  in \<open>Perf_Locks\<close> and by the atomicity of what they protect elsewhere; the stub functions of perf_helper
  with a constant result; exit functions that only print; structure declarations whose fields no
  function uses (the frame and runtime records of \<open>migt.c\<close> and \<open>miloadtrace.c\<close>); include lines and
  module metadata other than \<open>depends\<close>; build files.

  \<^bold>\<open>Planned next.\<close> Removal of the thermal nodes while their files are open; the stream of
  \<open>/dev/miev\<close> across a load, with drivers that hold the module through its symbols; cpufreq driven
  by the loading and unloading of \<open>miloadtrace\<close>.
\<close>

section \<open>From a sensor reading to the cap\<close>

text \<open>C29: a hot sensor reaches the cap. When a reading in millidegrees that rounds to the critical
  temperature or more is written to the sysfs file of any of the four temperature sensors, every
  later CPU cap is computed with the critical floor, whatever the battery and the other sources
  report and whatever was stored before.\<close>

theorem hot_sensor_reaches_cap:
  assumes "attrs_wf s" and "a \<noteq> Boost" and "1000 \<le> v" and "v \<le> 2147483147"
    and "sint (cpu_limits_crit_temp p) \<le> (v + 500) div 1000"
  shows "cpu_limits_effective_floor_pct p
    (mi_thermal_get_device_temp psy (snd (thermal_string_store a (fmt_d v @ [LF]) s))) =
      cpu_limits_crit_floor_pct p"
proof -
  let ?s = "snd (thermal_string_store a (fmt_d v @ [LF]) s)"
  have v: "is_s32 v" using assms(3,4) by (simp add: is_s32_def)
  have "length (str_vals s a) = MI_THERMAL_BUF_LEN" using assms(1) by (simp add: attrs_wf_def)
  moreover have "length (fmt_d v) + length [LF] < MI_THERMAL_BUF_LEN"
    using length_fmt_d [OF v] by simp
  ultimately have "cstr (mi_string_store (str_vals s a) (fmt_d v @ [LF])) = fmt_d v"
    using fmt_d_clean [of v] by (intro mi_str.read_back) auto
  then have "mi_thermal_parse_temp (Some (cstr (str_vals ?s a))) = (v + 500) div 1000"
    using assms(3,4) parse_temp_fmt_d [OF v] div_round_closest_pos [of v 1000]
    by (simp add: thermal_string_store_def)
  then have "sint (cpu_limits_crit_temp p) \<le> mi_thermal_get_device_temp psy ?s"
    using device_temp_ge_sensor [OF assms(2), of ?s psy] assms(5) by simp
  then show ?thesis by (simp add: cpu_limits_effective_floor_pct_def)
qed

theorem hot_sensor_reaches_cap_witness:
  "cpu_limits_effective_floor_pct cpu_limits_defaults
     (mi_thermal_get_device_temp None
       (snd (thermal_string_store Board_sensor_temp (fmt_d 54321 @ [LF]) thermal_attrs_init))) = 75"
  using hot_sensor_reaches_cap [of thermal_attrs_init Board_sensor_temp 54321 cpu_limits_defaults None]
    attrs_wf_init by (simp add: cpu_limits_defaults_def)

section \<open>From the setup of the devices to the cap\<close>

text \<open>C15: a CPU that was set up can always be capped. After a setup that reports success, with
  masks that contain the CPU they were looked up for and have room for it, every later request
  for a possible CPU runs without a fault and finds its device, for every frequency,
  temperature and setting of the parameters.\<close>

theorem limits_after_setup:
  assumes "mi_thermal_init_cpufreq env no_devices = (ret, s)" and "0 \<le> ret" and "tables_small env"
    and "masks_sound env" and "masks_sized n env" and "cpu < n" and "cpu \<in> set (possible_cpus env)"
    and "cpu_limits_enable p" and "\<And>r f. qos r f \<noteq> - ENODEV"
  shows "\<exists>ret' devs' evs. cpu_limits_set_level p psy attrs qos cpu mf (cpufreq_dev_list s) =
    Some (ret', devs', evs) \<and> ret' \<noteq> - ENODEV"
proof -
  have "freq_inv s"
    using cpufreq_setup_inv [OF demo_env_small(2) assms(3,1)] .
  then have wf: "\<forall>d \<in> set (cpufreq_dev_list s). dev_wf d"
    by (simp add: freq_inv_def devices_wf_def)
  have init: "init_cpufreq_cpus env (possible_cpus env) 0 no_devices = (ret, s)"
    using assms(1) by (simp add: mi_thermal_init_cpufreq_def)
  have masks: "\<forall>d \<in> set (cpufreq_dev_list s). mask_ok cpu d"
  proof (rule init_cpus_mask_ok [OF init])
    show "\<forall>d \<in> set (cpufreq_dev_list no_devices). mask_ok cpu d" by (simp add: no_devices_def)
    show "\<forall>c \<in> set (possible_cpus env). case cpufreq_cpu_get env c of None \<Rightarrow> True
        | Some pol \<Rightarrow> cpu < mask_bits (related_cpus pol)"
      using assms(5,6) by (fastforce simp: masks_sized_def split: option.splits)
  qed
  obtain d where "d \<in> set (cpufreq_dev_list s)" "covers d cpu = Some True"
    using init_cpus_covers [OF init assms(2)] assms(4,7) unfolding masks_sound_def by blast
  from covered_result [where qos = qos, OF assms(8) wf masks this assms(9)] show ?thesis .
qed

theorem limits_after_setup_witness:
  "\<exists>ret' devs' evs. cpu_limits_set_level cpu_limits_defaults None thermal_attrs_init (\<lambda>_ _. 1) 1 0
     (cpufreq_dev_list (snd (mi_thermal_init_cpufreq (demo_env 1) no_devices))) =
     Some (ret', devs', evs) \<and> ret' \<noteq> - ENODEV"
proof -
  have "masks_sound (demo_env 1)" "masks_sized 8 (demo_env 1)"
    by (simp_all add: masks_sound_def masks_sized_def demo_env_def demo_pol_def cpumask_test_cpu_def)
  moreover have "0 \<le> fst (mi_thermal_init_cpufreq (demo_env 1) no_devices)"
    by (simp add: mi_thermal_init_cpufreq_def demo_env_def init_cpufreq_cpu_def demo_pol_def
        valid_entries_def Let_def)
  moreover have "1 \<in> set (possible_cpus (demo_env 1))" by (simp add: demo_env_def)
  moreover have "cpu_limits_enable cpu_limits_defaults" by (simp add: cpu_limits_defaults_def)
  ultimately show ?thesis
    using limits_after_setup [OF surjective_pairing _ demo_env_small(1), where qos = "\<lambda>_ _. 1"]
    by simp
qed

section \<open>Hooks across modules\<close>

lemma frozen_unregister:
  assumes "metis_safe_boot (w_metis w)"
  shows "linked_slot (snd (linked_unregister Ui_task_detect w)) k = linked_slot w k"
  using assms by (cases k) (simp_all add: linked_defs)

lemma frozen_fold:
  assumes "\<not> linked_live w Ui_task_detect"
    and "\<forall>h. h \<noteq> Ui_task_detect \<longrightarrow> linked_live w h \<or> linked_slot w h = None"
  shows "linked_slot (fold (xunreg linked) hs w) k =
    (if k \<in> set hs \<and> k \<noteq> Ui_task_detect then None else linked_slot w k)"
  using assms
proof (induction hs arbitrary: w)
  case (Cons h hs)
  let ?w = "snd (linked_unregister h w)"
  have boot: "metis_safe_boot (w_metis w)" using Cons.prems(1) by simp
  have slot: "linked_slot ?w j = (if j = h \<and> h \<noteq> Ui_task_detect then None else linked_slot w j)" for j
  proof (cases "h = Ui_task_detect")
    case True
    then show ?thesis using frozen_unregister [OF boot] by simp
  next
    case False
    then have "linked_live w h \<or> linked_slot w h = None" using Cons.prems(2) by simp
    from linked_unregister_slot [OF this, of j] show ?thesis using False by simp
  qed
  have "linked_slot (fold (xunreg linked) hs ?w) k =
      (if k \<in> set hs \<and> k \<noteq> Ui_task_detect then None else linked_slot ?w k)"
  proof (rule Cons.IH)
    show "\<not> linked_live ?w Ui_task_detect" using Cons.prems(1) unfolding linked_unregister_live .
    show "\<forall>j. j \<noteq> Ui_task_detect \<longrightarrow> linked_live ?w j \<or> linked_slot ?w j = None"
      unfolding linked_unregister_live slot using Cons.prems(2) by simp
  qed
  moreover have "xunreg linked h w = ?w" by (simp add: linked_def)
  ultimately show ?case unfolding slot by auto
qed simp

text \<open>C39: a switch thrown at the wrong moment leaves a hook into an unloaded module. When
  \<open>metis_safe_boot\<close> is set between loading and unloading the frame load module, its unload
  empties the eight slots of the other registries but its callback stays in the slot of
  Metis.\<close>

theorem safe_boot_leaves_stale_hook:
  assumes "linked_slot w = (\<lambda>_. None)" and "\<not> metis_safe_boot (w_metis w)"
    and "miload_register_hooks linked w = (ret, w1)"
  defines "w2 \<equiv> w1\<lparr>w_metis := metis_switch False (w_metis w1)\<rparr>"
  shows "linked_slot (miload_unregister_hooks linked w2) =
    (\<lambda>h. if h = Ui_task_detect then Some (callback Ui_task_detect) else None)"
proof
  fix k
  have "ret = 0" using linked_register_0 [of w] assms(3) by simp
  then have s1: "linked_slot w1 h = (if linked_live w h then Some (callback h) else None)"
    and lv: "linked_live w1 h = linked_live w h" for h
    using linked.load_hooks [OF assms(1,3)] by (auto simp: fun_eq_iff)
  have s2: "linked_slot w2 h = linked_slot w1 h" for h
    by (cases h) (simp_all add: w2_def metis_switch_def)
  have l2: "h \<noteq> Ui_task_detect \<Longrightarrow> linked_live w2 h = linked_live w1 h" for h
    by (cases h) (simp_all add: w2_def metis_switch_def)
  have "\<forall>h. h \<noteq> Ui_task_detect \<longrightarrow> linked_live w2 h \<or> linked_slot w2 h = None"
    unfolding s2 s1 using l2 lv by auto
  moreover have "\<not> linked_live w2 Ui_task_detect" by (simp add: w2_def metis_switch_def)
  ultimately have "linked_slot (miload_unregister_hooks linked w2) k =
      (if k \<noteq> Ui_task_detect then None else linked_slot w2 k)"
    using frozen_fold [of w2 "rev hook_order" k] hook_order_all(1) unfolding unregister_is_fold by simp
  moreover have "linked_slot w2 Ui_task_detect = Some (callback Ui_task_detect)"
    unfolding s2 s1 using assms(2) by simp
  ultimately show "linked_slot (miload_unregister_hooks linked w2) k =
      (if k = Ui_task_detect then Some (callback Ui_task_detect) else None)"
    by (cases "k = Ui_task_detect") (simp_all del: linked_slot.simps)
qed

definition world_open :: sched_world where
  "world_open = world_start\<lparr>w_metis := metis_start\<lparr>metis_safe_boot := False\<rparr>\<rparr>"

theorem safe_boot_leaves_stale_hook_witness:
  "linked_slot (miload_unregister_hooks linked
     ((snd (miload_register_hooks linked world_open))\<lparr>w_metis := metis_switch False
        (w_metis (snd (miload_register_hooks linked world_open)))\<rparr>)) Ui_task_detect = Some 7"
proof -
  have "linked_slot world_open = (\<lambda>_. None)"
  proof
    show "linked_slot world_open h = None" for h
      by (cases h) (simp_all add: world_open_def world_start_def xiaomi_hooks_init_def
          mi_schedule_start_def metis_start_def)
  qed
  moreover have "\<not> metis_safe_boot (w_metis world_open)" by (simp add: world_open_def)
  ultimately show ?thesis
    using safe_boot_leaves_stale_hook [OF _ _ surjective_pairing, of world_open]
    by (simp del: linked_slot.simps)
qed

end
